(* ===== verification/Prelude.thy ===== *)
theory Prelude
  imports Complex_Main "HOL-Library.AList" "HOL-Library.Multiset"
    "HOL-Library.Product_Lexorder" "HOL-Library.List_Lexorder" "HOL-Library.Char_ord"
    "HOL-Library.Word"
begin

text \<open>
  What the component theories share: Python exceptions as the left side of a sum type, insertion
  ordered dictionaries (association lists updated in place), \<open>max\<close>/\<open>min\<close> with a key, stable sorting,
  grouping into a \<open>defaultdict(list)\<close>, and round-half-even. Nothing here is specific to the
  repository; the component theories import it and add their own state and operations.
\<close>

named_theorems res_simps \<open>unfolding rules of the exception monad\<close>
named_theorems dict_simps \<open>rules for insertion-ordered dictionaries\<close>

section \<open>Exceptions\<close>

datatype py_error =
    ValueError string
  | TypeError string
  | KeyError string
  | RuntimeError string
  | AssertionError string
  | AttributeError string
  | IndexError string
  | ZeroDivisionError string
  | ServiceError string

type_synonym 'a res = "py_error + 'a"

fun bind_res :: "'a res \<Rightarrow> ('a \<Rightarrow> 'b res) \<Rightarrow> 'b res" where
  "bind_res (Inl e) f = Inl e"
| "bind_res (Inr x) f = f x"

fun map_res :: "('a \<Rightarrow> 'b res) \<Rightarrow> 'a list \<Rightarrow> 'b list res" where
  "map_res f [] = Inr []"
| "map_res f (x # xs) =
     bind_res (f x) (\<lambda>y. bind_res (map_res f xs) (\<lambda>ys. Inr (y # ys)))"

fun fold_res :: "('s \<Rightarrow> 'a \<Rightarrow> 's res) \<Rightarrow> 's \<Rightarrow> 'a list \<Rightarrow> 's res" where
  "fold_res f s [] = Inr s"
| "fold_res f s (x # xs) = bind_res (f s x) (\<lambda>s'. fold_res f s' xs)"

fun filter_res :: "('a \<Rightarrow> bool res) \<Rightarrow> 'a list \<Rightarrow> 'a list res" where
  "filter_res p [] = Inr []"
| "filter_res p (x # xs) =
     bind_res (p x) (\<lambda>b. bind_res (filter_res p xs) (\<lambda>ys. Inr (if b then x # ys else ys)))"

lemma bind_res_Inr [simp, res_simps]:
  "bind_res m f = Inr y \<longleftrightarrow> (\<exists>x. m = Inr x \<and> f x = Inr y)"
  by (cases m) auto

lemma bind_resE:
  assumes "bind_res m f = Inr y"
  obtains x where "m = Inr x" "f x = Inr y"
  using assms by (cases m) auto

lemma bind_res_Inl [res_simps]:
  "bind_res m f = Inl e \<longleftrightarrow> m = Inl e \<or> (\<exists>x. m = Inr x \<and> f x = Inl e)"
  by (cases m) auto

lemma bind_res_cong [fundef_cong]:
  "m = m' \<Longrightarrow> (\<And>x. m' = Inr x \<Longrightarrow> f x = f' x) \<Longrightarrow> bind_res m f = bind_res m' f'"
  by (cases m') auto

lemma filter_res_InrD:
  "filter_res p xs = Inr ys \<Longrightarrow> ys = filter (\<lambda>x. p x = Inr True) xs \<and> (\<forall>x\<in>set xs. \<exists>b. p x = Inr b)"
  by (induction xs arbitrary: ys) auto

lemma map_sum_bind_res:
  "map_sum id h (bind_res m f) = bind_res m (\<lambda>x. map_sum id h (f x))"
  by (cases m) auto

lemma map_res_cong [fundef_cong]:
  "xs = ys \<Longrightarrow> (\<And>x. x \<in> set ys \<Longrightarrow> f x = g x) \<Longrightarrow> map_res f xs = map_res g ys"
  by (induction ys arbitrary: xs) auto

lemma map_res_Inr_iff: "map_res f xs = Inr ys \<longleftrightarrow> list_all2 (\<lambda>x y. f x = Inr y) xs ys"
proof (induction xs arbitrary: ys)
  case Nil
  then show ?case by auto
next
  case (Cons x xs)
  then show ?case by (auto simp: list_all2_Cons1)
qed

lemma list_all2_sourceD: "list_all2 P xs ys \<Longrightarrow> y \<in> set ys \<Longrightarrow> \<exists>x\<in>set xs. P x y"
  by (induction rule: list_all2_induct) auto

lemma list_all2_imageD: "list_all2 P xs ys \<Longrightarrow> x \<in> set xs \<Longrightarrow> \<exists>y\<in>set ys. P x y"
  by (induction rule: list_all2_induct) auto

lemma map_res_length: "map_res f xs = Inr ys \<Longrightarrow> length ys = length xs"
  by (simp add: map_res_Inr_iff list_all2_lengthD)

lemma map_res_memD:
  assumes "map_res f xs = Inr ys" "y \<in> set ys"
  shows "\<exists>x\<in>set xs. f x = Inr y"
  using assms by (auto simp: map_res_Inr_iff list_all2_conv_all_nth in_set_conv_nth Bex_def)

lemma map_res_argD: "map_res f xs = Inr ys \<Longrightarrow> x \<in> set xs \<Longrightarrow> \<exists>y. f x = Inr y"
  by (induction xs arbitrary: ys) auto

lemma map_res_value: "map_res f xs = Inr ys \<Longrightarrow> x \<in> set xs \<Longrightarrow> \<exists>y\<in>set ys. f x = Inr y"
  by (induction xs arbitrary: ys) auto

lemma map_res_Inr [simp]: "map_res (\<lambda>x. Inr (g x)) xs = Inr (map g xs)"
  by (induction xs) auto

lemma map_res_map: "(\<And>x. x \<in> set xs \<Longrightarrow> f x = Inr (g x)) \<Longrightarrow> map_res f xs = Inr (map g xs)"
  by (induction xs) auto

lemma map_res_compose: "map_res f (map g xs) = map_res (\<lambda>x. f (g x)) xs"
  by (induction xs) auto

lemma fold_res_append:
  "fold_res f s (xs @ ys) = bind_res (fold_res f s xs) (\<lambda>s'. fold_res f s' ys)"
proof (induction xs arbitrary: s)
  case Nil
  then show ?case by simp
next
  case (Cons x xs)
  then show ?case by (cases "f s x") auto
qed

lemma fold_res_snoc: "fold_res f s (xs @ [x]) = bind_res (fold_res f s xs) (\<lambda>s'. f s' x)"
proof -
  have "(\<lambda>s'. bind_res (f s' x) Inr) = (\<lambda>s'. f s' x)"
    by (rule ext) (metis bind_res.simps sum.exhaust)
  then show ?thesis by (simp add: fold_res_append)
qed

lemma fold_res_invariant:
  assumes "fold_res f s xs = Inr t" "P s"
    and "\<And>s x s'. x \<in> set xs \<Longrightarrow> P s \<Longrightarrow> f s x = Inr s' \<Longrightarrow> P s'"
  shows "P t"
  using assms
proof (induction xs arbitrary: s)
  case Nil
  then show ?case by simp
next
  case (Cons x xs)
  then obtain s' where "f s x = Inr s'" "fold_res f s' xs = Inr t" by auto
  with Cons show ?case by (metis list.set_intros)
qed

lemma map_res_Inl:
  "map_res f xs = Inl e \<Longrightarrow> \<exists>x\<in>set xs. f x = Inl e"
  by (induction xs) (auto simp: bind_res_Inl)

lemma map_res_total:
  assumes "\<And>x. x \<in> set xs \<Longrightarrow> \<exists>y. f x = Inr y"
  shows "map_res f xs = Inr (map (projr \<circ> f) xs)"
  using assms by (induction xs) fastforce+

lemma map_res_projr: "map_res f xs = Inr ys \<Longrightarrow> ys = map (projr \<circ> f) xs"
  by (induction xs arbitrary: ys) (auto elim!: bind_resE)

text \<open>When all failures look alike, success of \<open>map_res\<close> does not depend on the order.\<close>

lemma map_res_perm:
  assumes "mset xs = mset ys" "\<And>x e'. x \<in> set xs \<Longrightarrow> f x = Inl e' \<Longrightarrow> e' = e"
  shows "(map_res f xs = Inl e \<and> map_res f ys = Inl e) \<or>
    (map_res f xs = Inr (map (projr \<circ> f) xs) \<and> map_res f ys = Inr (map (projr \<circ> f) ys))"
proof (cases "\<forall>x\<in>set xs. \<exists>y. f x = Inr y")
  case True
  moreover have "set ys = set xs" using assms(1) by (metis set_mset_mset)
  ultimately show ?thesis using map_res_total[of xs f] map_res_total[of ys f] by simp
next
  case False
  then obtain x where x: "x \<in> set xs" "\<And>y. f x \<noteq> Inr y" by blast
  have k: "map_res f zs = Inl e" if "set zs = set xs" for zs
  proof (cases "map_res f zs")
    case (Inl e')
    then obtain z where "z \<in> set zs" "f z = Inl e'" using map_res_Inl by blast
    with that assms(2) have "e' = e" by blast
    with Inl show ?thesis by simp
  next
    case (Inr zs')
    then have "list_all2 (\<lambda>x y. f x = Inr y) zs zs'" by (simp add: map_res_Inr_iff)
    moreover have "x \<in> set zs" using x(1) that by simp
    then obtain i where "i < length zs" "zs ! i = x" unfolding in_set_conv_nth by blast
    ultimately have "f x = Inr (zs' ! i)" by (auto simp: list_all2_conv_all_nth)
    with x(2) show ?thesis by blast
  qed
  have "set ys = set xs" using assms(1) by (metis set_mset_mset)
  then show ?thesis using k[of xs] k[of ys] by simp
qed

subsection \<open>Which exceptions a computation may raise\<close>

definition raises_only :: "(py_error \<Rightarrow> bool) \<Rightarrow> 'a res \<Rightarrow> bool" where
  "raises_only P r \<longleftrightarrow> (case r of Inl e \<Rightarrow> P e | Inr _ \<Rightarrow> True)"

lemma raises_only_simps [simp]: "raises_only P (Inl e) = P e" "raises_only P (Inr x)"
  by (simp_all add: raises_only_def)

lemma raises_onlyD: "raises_only P (Inl e) \<Longrightarrow> P e"
  by simp

lemma raises_only_bind [intro]:
  assumes "raises_only P m" "\<And>x. m = Inr x \<Longrightarrow> raises_only P (f x)"
  shows "raises_only P (bind_res m f)"
  using assms by (cases m) auto

lemma raises_only_map_res [intro]:
  assumes "\<And>x. x \<in> set xs \<Longrightarrow> raises_only P (f x)"
  shows "raises_only P (map_res f xs)"
  using assms by (induction xs) (auto intro!: raises_only_bind)

lemma raises_only_never: "raises_only (\<lambda>_. False) r \<longleftrightarrow> (\<exists>x. r = Inr x)"
  by (cases r) auto

section \<open>Insertion-ordered dictionaries\<close>

text \<open>
  A Python \<open>dict\<close> is an association list with distinct keys: \<open>d[k] = v\<close> is \<^const>\<open>AList.update\<close>
  (an existing key keeps its position, a new key goes to the end), \<open>d.pop(k, None)\<close> is
  \<^const>\<open>AList.delete\<close>, \<open>d.get(k)\<close> is \<^const>\<open>map_of\<close>.
\<close>

type_synonym ('k, 'v) dict = "('k \<times> 'v) list"

abbreviation dget :: "('k, 'v) dict \<Rightarrow> 'k \<Rightarrow> 'v option" where
  "dget d k \<equiv> map_of d k"

abbreviation dset :: "('k, 'v) dict \<Rightarrow> 'k \<Rightarrow> 'v \<Rightarrow> ('k, 'v) dict" where
  "dset d k v \<equiv> AList.update k v d"

abbreviation dpop :: "('k, 'v) dict \<Rightarrow> 'k \<Rightarrow> ('k, 'v) dict" where
  "dpop d k \<equiv> AList.delete k d"

abbreviation dkeys :: "('k, 'v) dict \<Rightarrow> 'k list" where
  "dkeys d \<equiv> map fst d"

abbreviation dvalues :: "('k, 'v) dict \<Rightarrow> 'v list" where
  "dvalues d \<equiv> map snd d"

definition dget_default :: "('k, 'v) dict \<Rightarrow> 'k \<Rightarrow> 'v \<Rightarrow> 'v" where
  "dget_default d k v = (case dget d k of None \<Rightarrow> v | Some w \<Rightarrow> w)"

definition dsetdefault :: "('k, 'v) dict \<Rightarrow> 'k \<Rightarrow> 'v \<Rightarrow> ('k, 'v) dict" where
  "dsetdefault d k v = (case dget d k of None \<Rightarrow> dset d k v | Some _ \<Rightarrow> d)"

lemma dget_dset [simp, dict_simps]: "dget (dset d k v) k' = (if k = k' then Some v else dget d k')"
  by (simp add: update_conv')

lemma dkeys_dset [dict_simps]: "dkeys (dset d k v) = (if k \<in> set (dkeys d) then dkeys d else dkeys d @ [k])"
  by (induction d) auto

lemma dset_new: "k \<notin> set (dkeys d) \<Longrightarrow> dset d k v = d @ [(k, v)]"
  by (induction d) auto

lemma dsetdefault_alt [dict_simps]:
  "dsetdefault d k v = (if k \<in> set (dkeys d) then d else d @ [(k, v)])"
  by (auto simp: dsetdefault_def dset_new map_of_eq_None_iff split: option.splits)
    (metis map_of_eq_None_iff option.distinct(1))

lemma dset_entry: "(k', v') \<in> set (dset d k v) \<Longrightarrow> (k' = k \<and> v' = v) \<or> (k', v') \<in> set d"
  by (induction d) (auto split: if_splits)

lemma distinct_dkeys_dset [simp]: "distinct (dkeys (dset d k v)) = distinct (dkeys d)"
  by (auto simp: dkeys_dset)

lemma dvalues_dset_subset: "set (dvalues (dset d k v)) \<subseteq> insert v (set (dvalues d))"
  using dset_entry by fastforce

section \<open>Order-preserving deduplication and grouping\<close>

text \<open>First occurrences in order, the keys of \<open>dict.fromkeys(xs)\<close>.\<close>

fun dedup_onto :: "'a list \<Rightarrow> 'a list \<Rightarrow> 'a list" where
  "dedup_onto acc [] = acc"
| "dedup_onto acc (x # xs) = dedup_onto (if x \<in> set acc then acc else acc @ [x]) xs"

definition dedup :: "'a list \<Rightarrow> 'a list" where
  "dedup xs = dedup_onto [] xs"

lemma set_dedup_onto: "set (dedup_onto acc xs) = set acc \<union> set xs"
  by (induction xs arbitrary: acc) auto

lemma distinct_dedup_onto: "distinct acc \<Longrightarrow> distinct (dedup_onto acc xs)"
  by (induction xs arbitrary: acc) auto

lemma set_dedup [simp]: "set (dedup xs) = set xs"
  by (simp add: dedup_def set_dedup_onto)

lemma distinct_dedup [simp]: "distinct (dedup xs)"
  by (simp add: dedup_def distinct_dedup_onto)

lemma dedup_onto_append: "dedup_onto acc (xs @ ys) = dedup_onto (dedup_onto acc xs) ys"
  by (induction xs arbitrary: acc) auto

lemma dedup_snoc: "dedup (xs @ [x]) = (if x \<in> set xs then dedup xs else dedup xs @ [x])"
  using set_dedup[of xs] by (simp add: dedup_def dedup_onto_append)

lemma dedup_Nil [simp]: "dedup [] = []"
  by (simp add: dedup_def)

lemma length_dedup: "length (dedup xs) = card (set xs)"
  by (metis distinct_card distinct_dedup set_dedup)

lemma sorted_dedup: "sorted (map f xs) \<Longrightarrow> sorted (map f (dedup xs))"
  by (induction xs rule: rev_induct) (auto simp: dedup_snoc sorted_append)

lemma sorted_distinct_map_unique:
  assumes "set xs = set ys" "distinct xs" "distinct ys" "inj_on f (set xs)"
    and "sorted (map f xs)" "sorted (map f ys)"
  shows "xs = ys"
proof -
  have "map f xs = map f ys"
    using assms by (intro sorted_distinct_set_unique) (simp_all add: distinct_map)
  then show ?thesis using assms(1,4) by (auto dest: map_inj_on)
qed

text \<open>\<open>d = defaultdict(list); for x in xs: d[f(x)].append(x)\<close>\<close>

definition group_add :: "('a \<Rightarrow> 'k) \<Rightarrow> ('k, 'a list) dict \<Rightarrow> 'a \<Rightarrow> ('k, 'a list) dict" where
  "group_add f d x = dset d (f x) (dget_default d (f x) [] @ [x])"

definition group_by :: "('a \<Rightarrow> 'k) \<Rightarrow> 'a list \<Rightarrow> ('k, 'a list) dict" where
  "group_by f xs = foldl (group_add f) [] xs"

lemma group_by_snoc: "group_by f (xs @ [x]) = group_add f (group_by f xs) x"
  by (simp add: group_by_def)

lemma group_by_Nil [simp]: "group_by f [] = []"
  by (simp add: group_by_def)

lemma dget_group_by:
  "dget (group_by f xs) k =
     (if k \<in> f ` set xs then Some (filter (\<lambda>x. f x = k) xs) else None)"
proof (induction xs rule: rev_induct)
  case Nil
  then show ?case by simp
next
  case (snoc x xs)
  have "filter (\<lambda>y. f y = f x) xs = []" if "f x \<notin> f ` set xs"
    using that by (auto simp: filter_empty_conv image_iff)
  with snoc show ?case
    by (auto simp: group_by_snoc group_add_def dget_default_def)
qed

lemma dkeys_group_by: "dkeys (group_by f xs) = dedup (map f xs)"
proof (induction xs rule: rev_induct)
  case Nil
  then show ?case by simp
next
  case (snoc x xs)
  then show ?case
    by (auto simp: group_by_snoc group_add_def dkeys_dset dedup_snoc)
qed

lemma distinct_group_by [simp]: "distinct (dkeys (group_by f xs))"
  by (simp add: dkeys_group_by)

lemma group_by_entry:
  assumes "(k, g) \<in> set (group_by f xs)"
  shows "g = filter (\<lambda>x. f x = k) xs" "g \<noteq> []"
proof -
  have "dget (group_by f xs) k = Some g"
    using assms by (simp add: map_of_is_SomeI)
  then have "k \<in> f ` set xs" and "g = filter (\<lambda>x. f x = k) xs"
    by (auto simp: dget_group_by split: if_splits)
  then show "g = filter (\<lambda>x. f x = k) xs" "g \<noteq> []"
    by (auto simp: filter_empty_conv)
qed

lemma dvalues_group_by:
  "dvalues (group_by f xs) = map (\<lambda>k. filter (\<lambda>x. f x = k) xs) (dedup (map f xs))"
proof -
  have "dvalues (group_by f xs) = map (\<lambda>k. filter (\<lambda>x. f x = k) xs) (dkeys (group_by f xs))"
    unfolding map_map
    by (rule map_cong[OF refl]) (use group_by_entry in fastforce)
  then show ?thesis by (simp add: dkeys_group_by)
qed

lemma mset_filter_partition:
  "distinct ks \<Longrightarrow> f ` set xs \<subseteq> set ks \<Longrightarrow>
     mset (concat (map (\<lambda>k. filter (\<lambda>x. f x = k) xs) ks)) = mset xs"
proof (induction ks arbitrary: xs)
  case Nil
  then show ?case by simp
next
  case (Cons k ks)
  let ?ys = "filter (\<lambda>x. f x \<noteq> k) xs"
  have "map (\<lambda>k'. filter (\<lambda>x. f x = k') xs) ks = map (\<lambda>k'. filter (\<lambda>x. f x = k') ?ys) ks"
    using Cons.prems(1) by (auto intro!: map_cong filter_cong)
  moreover have "mset (concat (map (\<lambda>k'. filter (\<lambda>x. f x = k') ?ys) ks)) = mset ?ys"
    using Cons.prems by (intro Cons.IH) auto
  moreover have "mset xs = mset (filter (\<lambda>x. f x = k) xs) + mset ?ys"
    using multiset_partition[of "mset xs" "\<lambda>x. f x = k"] by simp
  ultimately show ?case by (simp only: list.map concat.simps mset_append)
qed

lemma mset_group_by: "mset (concat (dvalues (group_by f xs))) = mset xs"
  unfolding dvalues_group_by by (rule mset_filter_partition) auto

lemma mset_concat_perm: "mset gs = mset hs \<Longrightarrow> mset (concat gs) = mset (concat hs)"
  unfolding mset_concat by (metis mset_map sum_mset_sum_list)

section \<open>Sorting and selection with a key\<close>

text \<open>
  \<open>sorted(xs, key=f)\<close> is \<^const>\<open>sort_key\<close>, which is stable as Python's sort is. When no two elements
  share a key the result does not depend on the order of the input.
\<close>

lemma sort_key_perm:
  assumes "mset xs = mset ys" "inj_on f (set xs)"
  shows "sort_key f xs = sort_key f ys"
proof (rule properties_for_sort_key)
  show "mset (sort_key f ys) = mset xs" using assms(1) by simp
  show "sorted (map f (sort_key f ys))" by simp
next
  fix k assume "k \<in> set (sort_key f ys)"
  have sets: "set ys = set xs" using assms(1) by (metis set_mset_mset)
  have eq: "(f k = f x) = (k = x)" if "x \<in> set xs" for x
    using that \<open>k \<in> set (sort_key f ys)\<close> sets assms(2) by (auto simp: inj_on_def)
  have "filter (\<lambda>x. f k = f x) (sort_key f ys) = filter (\<lambda>x. k = x) (sort_key f ys)"
    using eq sets by (intro filter_cong) auto
  moreover have "filter (\<lambda>x. f k = f x) xs = filter (\<lambda>x. k = x) xs"
    using eq by (intro filter_cong) auto
  moreover have "filter (\<lambda>x. k = x) (sort_key f ys) = filter (\<lambda>x. k = x) xs"
    unfolding replicate_count_mset_eq_filter_eq[symmetric] using assms(1) by simp
  ultimately show "filter (\<lambda>x. f k = f x) (sort_key f ys) = filter (\<lambda>x. f k = f x) xs"
    by simp
qed

text \<open>\<open>sorted(xs, key=f)\<close> where computing a key may raise; the keys are kept beside the elements.\<close>

definition sorted_res :: "('a \<Rightarrow> 'k::linorder res) \<Rightarrow> 'a list \<Rightarrow> ('k \<times> 'a) list res" where
  "sorted_res f xs =
     bind_res (map_res (\<lambda>x. bind_res (f x) (\<lambda>k. Inr (k, x))) xs) (\<lambda>keyed. Inr (sort_key fst keyed))"

lemma sorted_res_InrD:
  assumes "sorted_res f xs = Inr kxs"
  shows "mset (map snd kxs) = mset xs" "sorted (map fst kxs)"
    "\<And>k x. (k, x) \<in> set kxs \<Longrightarrow> f x = Inr k \<and> x \<in> set xs"
proof -
  from assms obtain keyed where keyed: "map_res (\<lambda>x. bind_res (f x) (\<lambda>k. Inr (k, x))) xs = Inr keyed"
    and kxs: "kxs = sort_key fst keyed" by (auto simp: sorted_res_def)
  have l2: "list_all2 (\<lambda>x kx. f x = Inr (fst kx) \<and> snd kx = x) xs keyed"
    using keyed unfolding map_res_Inr_iff by (rule list_all2_mono) auto
  then have "map snd keyed = xs" by (induction rule: list_all2_induct) auto
  then have "mset (map snd keyed) = mset xs" by simp
  then show "mset (map snd kxs) = mset xs" by (simp add: kxs)
  show "sorted (map fst kxs)" by (simp add: kxs)
  fix k x assume "(k, x) \<in> set kxs"
  then have "(k, x) \<in> set keyed" by (simp add: kxs)
  then show "f x = Inr k \<and> x \<in> set xs"
    using l2 by (force simp: list_all2_conv_all_nth in_set_conv_nth)
qed

lemma sorted_res_perm:
  assumes "mset xs = mset ys" "\<And>x e. x \<in> set xs \<Longrightarrow> f x = Inl e \<Longrightarrow> e = err"
    and inj: "\<And>x x' k. x \<in> set xs \<Longrightarrow> x' \<in> set xs \<Longrightarrow> f x = Inr k \<Longrightarrow> f x' = Inr k \<Longrightarrow> x = x'"
  shows "sorted_res f xs = sorted_res f ys"
proof -
  let ?f = "\<lambda>x. bind_res (f x) (\<lambda>k. Inr (k, x))"
  let ?g = "projr \<circ> ?f"
  have "sort_key fst (map ?g xs) = sort_key fst (map ?g ys)" if ok: "map_res ?f xs = Inr (map ?g xs)"
  proof (rule sort_key_perm)
    show "mset (map ?g xs) = mset (map ?g ys)" using assms(1) by simp
    have val: "\<exists>k. f x = Inr k \<and> ?g x = (k, x)" if "x \<in> set xs" for x
    proof -
      have "?f x = Inr (?g x)"
        using ok that by (auto simp: map_res_Inr_iff list_all2_map2 list_all2_same)
      then show ?thesis by auto
    qed
    show "inj_on fst (set (map ?g xs))"
    proof (rule inj_onI)
      fix p p' assume "p \<in> set (map ?g xs)" "p' \<in> set (map ?g xs)" and eq: "fst p = fst p'"
      then obtain x x' where x: "x \<in> set xs" "p = ?g x" and x': "x' \<in> set xs" "p' = ?g x'" by auto
      obtain k k' where k: "f x = Inr k" "?g x = (k, x)" "f x' = Inr k'" "?g x' = (k', x')"
        using val[OF x(1)] val[OF x'(1)] by blast
      with eq x(2) x'(2) have "k' = k" by simp
      with inj[OF x(1) x'(1)] k have "x = x'" by blast
      with x(2) x'(2) show "p = p'" by simp
    qed
  qed
  moreover have "(map_res ?f xs = Inl err \<and> map_res ?f ys = Inl err) \<or>
      (map_res ?f xs = Inr (map ?g xs) \<and> map_res ?f ys = Inr (map ?g ys))"
    using assms(2) by (intro map_res_perm[OF assms(1)]) (auto simp: bind_res_Inl)
  ultimately show ?thesis unfolding sorted_res_def
    by (elim disjE conjE) (simp_all only: bind_res.simps)
qed

text \<open>\<open>max(xs, key=f)\<close> and \<open>min(xs, key=f)\<close> of the nonempty list \<open>x # xs\<close>: the first extremal element.\<close>

fun max_key :: "('a \<Rightarrow> 'k::linorder) \<Rightarrow> 'a \<Rightarrow> 'a list \<Rightarrow> 'a" where
  "max_key f x [] = x"
| "max_key f x (y # ys) = max_key f (if f x < f y then y else x) ys"

fun min_key :: "('a \<Rightarrow> 'k::linorder) \<Rightarrow> 'a \<Rightarrow> 'a list \<Rightarrow> 'a" where
  "min_key f x [] = x"
| "min_key f x (y # ys) = min_key f (if f y < f x then y else x) ys"

lemma max_key_snoc: "max_key f x (xs @ [y]) = (if f (max_key f x xs) < f y then y else max_key f x xs)"
  by (induction xs arbitrary: x) auto

lemma max_key_in: "max_key f x xs \<in> insert x (set xs)"
  by (induction xs arbitrary: x) (auto split: if_splits)

lemma max_key_ge: "f x \<le> f (max_key f x xs) \<and> (\<forall>y\<in>set xs. f y \<le> f (max_key f x xs))"
proof (induction xs arbitrary: x)
  case Nil
  then show ?case by simp
next
  case (Cons y ys)
  show ?case using Cons.IH[of "if f x < f y then y else x"] by (auto split: if_splits)
qed

lemma max_key_mem: "max_key f x xs \<in> set (x # xs)"
  using max_key_in[of f x xs] by simp

lemma mset_max_key: "add_mset (max_key f x xs) (mset (remove1 (max_key f x xs) (x # xs))) = mset (x # xs)"
  using max_key_mem[of f x xs] by (metis insert_DiffM mset_remove1 set_mset_mset)

lemma length_max_key: "length (remove1 (max_key f x xs) (x # xs)) = length xs"
  using max_key_mem[of f x xs] by (metis length_remove1 length_Cons diff_Suc_1)

lemma min_key_in: "min_key f x xs \<in> insert x (set xs)"
  by (induction xs arbitrary: x) (auto split: if_splits)

lemma min_key_le: "f (min_key f x xs) \<le> f x \<and> (\<forall>y\<in>set xs. f (min_key f x xs) \<le> f y)"
proof (induction xs arbitrary: x)
  case Nil
  then show ?case by simp
next
  case (Cons y ys)
  show ?case using Cons.IH[of "if f y < f x then y else x"] by (auto split: if_splits)
qed

lemma mset_subset_distinct:
  assumes "mset xs \<subseteq># mset ys" "distinct ys"
  shows "distinct xs"
proof -
  obtain zs where "mset ys = mset (xs @ zs)"
    using assms(1) by (metis ex_mset mset_append subset_mset.le_iff_add)
  then show ?thesis using mset_eq_imp_distinct_iff[of ys "xs @ zs"] assms(2) by simp
qed

section \<open>Accumulating scores\<close>

text \<open>\<open>d[k] = d.get(k, 0.0) + v(k)\<close> over distinct keys.\<close>

lemma dget_default_add_all:
  assumes "distinct ks"
  shows "dget_default (foldl (\<lambda>d k. dset d k (dget_default d k 0 + v)) d ks) k' 0 =
    dget_default d k' 0 + (if k' \<in> set ks then v else (0::real))"
  using assms by (induction ks arbitrary: d) (auto simp: dget_default_def)

lemma dkeys_fold_dset:
  "dkeys (foldl (\<lambda>d k. dset d k (g d k)) d ks) = dedup_onto (dkeys d) ks"
  by (induction ks arbitrary: d) (auto simp: dkeys_dset)

text \<open>\<open>xs[:n]\<close>, a negative bound counting from the end.\<close>

definition py_prefix :: "int \<Rightarrow> 'a list \<Rightarrow> 'a list" where
  "py_prefix n xs = (if n \<ge> 0 then take (nat n) xs else take (length xs - nat (- n)) xs)"

lemma py_prefix_subset: "x \<in> set (py_prefix n xs) \<Longrightarrow> x \<in> set xs"
  by (auto simp: py_prefix_def dest: in_set_takeD split: if_splits)

lemma take_sort_key_set:
  assumes "distinct xs" "distinct ys" "set xs = set ys" "inj_on f (set ys)"
  shows "take n (sort_key f xs) = take n (sort_key f ys)"
  using sort_key_perm[of xs ys f] assms by (simp add: set_eq_iff_mset_eq_distinct)

section \<open>Rounding\<close>

text \<open>
  Python's \<open>round\<close> rounds half to even. Floating-point numbers are modelled by exact reals, so
  \<open>round(x, n)\<close> is half-even rounding of the exact value at the \<open>n\<close>-th decimal.
\<close>

definition round_half_even :: "real \<Rightarrow> int" where
  "round_half_even x =
     (let f = \<lfloor>x\<rfloor>; d = x - of_int f in
      if d < 1/2 then f else if d > 1/2 then f + 1 else if even f then f else f + 1)"

definition py_round :: "nat \<Rightarrow> real \<Rightarrow> real" where
  "py_round n x = of_int (round_half_even (x * 10 ^ n)) / 10 ^ n"

lemma round_half_even_of_int [simp]: "round_half_even (of_int i) = i"
  by (simp add: round_half_even_def)

lemma round_half_even_bounds:
  "of_int (round_half_even x) - 1/2 \<le> x \<and> x \<le> of_int (round_half_even x) + 1/2"
proof -
  have "of_int \<lfloor>x\<rfloor> \<le> x" "x < of_int \<lfloor>x\<rfloor> + 1" by linarith+
  then show ?thesis unfolding round_half_even_def Let_def by (simp; linarith)
qed

lemma round_half_even_mono:
  assumes "x \<le> y"
  shows "round_half_even x \<le> round_half_even y"
proof (cases "\<lfloor>x\<rfloor> = \<lfloor>y\<rfloor>")
  case True
  with assms show ?thesis by (auto simp: round_half_even_def Let_def)
next
  case False
  with assms have "\<lfloor>x\<rfloor> + 1 \<le> \<lfloor>y\<rfloor>" by (meson floor_mono zless_imp_add1_zle order_less_le)
  moreover have "round_half_even x \<le> \<lfloor>x\<rfloor> + 1" "\<lfloor>y\<rfloor> \<le> round_half_even y"
    by (auto simp: round_half_even_def Let_def)
  ultimately show ?thesis by linarith
qed

lemma round_half_even_nonneg: "0 \<le> x \<Longrightarrow> 0 \<le> round_half_even x"
  using round_half_even_mono[of 0 x] round_half_even_of_int[of 0] by simp

lemma py_round_mono: "x \<le> y \<Longrightarrow> py_round n x \<le> py_round n y"
  by (simp add: py_round_def divide_right_mono round_half_even_mono mult_right_mono)

lemma py_round_0 [simp]: "py_round n 0 = 0"
  using round_half_even_of_int[of 0] by (simp add: py_round_def)

lemma py_round_of_int [simp]: "py_round n (of_int i) = of_int i"
proof -
  have "(of_int i :: real) * 10 ^ n = of_int (i * 10 ^ n)" by simp
  then show ?thesis unfolding py_round_def by (simp only: round_half_even_of_int) simp
qed

lemma py_round_1 [simp]: "py_round n 1 = 1"
  using py_round_of_int[of n 1] by simp

lemma py_round_nonneg: "0 \<le> x \<Longrightarrow> 0 \<le> py_round n x"
  using py_round_mono[of 0 x n] by simp

lemma py_round_unit: "0 \<le> x \<Longrightarrow> x \<le> 1 \<Longrightarrow> 0 \<le> py_round n x \<and> py_round n x \<le> 1"
  using py_round_mono[of x 1 n] py_round_nonneg[of x n] by simp

lemma py_round_error: "\<bar>py_round n x - x\<bar> \<le> 1 / (2 * 10 ^ n)"
proof -
  have "\<bar>of_int (round_half_even (x * 10 ^ n)) - x * 10 ^ n\<bar> \<le> 1 / (2::real)"
    using round_half_even_bounds[of "x * 10 ^ n"] unfolding abs_le_iff by linarith
  then have "\<bar>of_int (round_half_even (x * 10 ^ n)) - x * 10 ^ n\<bar> / 10 ^ n \<le> (1 / 2) / (10 ^ n :: real)"
    by (rule divide_right_mono) simp
  moreover have "py_round n x - x = (of_int (round_half_even (x * 10 ^ n)) - x * 10 ^ n) / 10 ^ n"
    by (simp add: py_round_def field_simps)
  ultimately show ?thesis by (simp add: abs_divide)
qed

section \<open>Validation and counting\<close>

text \<open>A sequence of \<open>if bad: raise ValueError(message)\<close> statements.\<close>

definition run_checks :: "(bool \<times> string) list \<Rightarrow> unit res" where
  "run_checks cs = (case find fst cs of Some (_, message) \<Rightarrow> Inl (ValueError message) | None \<Rightarrow> Inr ())"

lemma run_checks_Nil [simp]: "run_checks [] = Inr ()"
  by (simp add: run_checks_def)

lemma run_checks_Cons: "run_checks ((bad, m) # cs) = (if bad then Inl (ValueError m) else run_checks cs)"
  by (simp add: run_checks_def)

lemma run_checks_ok: "run_checks cs = Inr () \<longleftrightarrow> list_all (\<lambda>(bad, _). \<not> bad) cs"
  by (induction cs) (auto simp: run_checks_Cons split: if_splits)

lemma run_checks_error: "run_checks cs = Inl e \<Longrightarrow> \<exists>m. e = ValueError m \<and> (True, m) \<in> set cs"
  by (induction cs) (auto simp: run_checks_Cons split: if_splits)

text \<open>\<open>Counter(xs)\<close>\<close>

definition counter :: "'a list \<Rightarrow> ('a, nat) dict" where
  "counter xs = map (\<lambda>k. (k, count_list xs k)) (dedup xs)"

lemma dkeys_counter [simp]: "dkeys (counter xs) = dedup xs"
  by (simp add: counter_def o_def)

lemma sum_counter: "sum_list (dvalues (counter xs)) = length xs"
proof -
  have "sum_list (dvalues (counter xs)) = sum (count_list xs) (set xs)"
    by (simp add: counter_def o_def sum_list_distinct_conv_sum_set)
  then show ?thesis by (simp add: sum_count_set)
qed

end
