(* ===== verification/PyValues.thy ===== *)
theory PyValues
  imports Prelude
begin

text \<open>
  The Python values the components exchange: time stamps with or without a zone, UUIDs as 128-bit
  words with their canonical text, JSON-like dynamic values with truthiness, \<open>str\<close> and \<open>int\<close>, and the
  string methods the code calls (on ASCII text). \<open>pylib\<close> collects the standard-library primitives
  whose algorithm is irrelevant here (SHA-256, HMAC, ISO-8601 parsing and printing, Unicode
  normalisation, \<open>str\<close> of floats and containers); every theorem holds for any such record.
\<close>

section \<open>Time stamps\<close>

text \<open>
  Microseconds since the epoch. An aware value carries its UTC instant, so equality is Python's
  equality of aware time stamps; comparing an aware with a naive one raises.
\<close>

datatype datetime = Naive int | Aware int

type_synonym instant = int

fun tz_missing :: "datetime \<Rightarrow> bool" where
  "tz_missing (Naive _) = True"
| "tz_missing (Aware _) = False"

fun wall_of :: "datetime \<Rightarrow> int" where
  "wall_of (Naive t) = t"
| "wall_of (Aware t) = t"

definition us_per_second :: int where "us_per_second = 1000000"
definition us_per_hour :: int where "us_per_hour = 3600 * us_per_second"
definition us_per_day :: int where "us_per_day = 24 * us_per_hour"

definition hours_us :: "int \<Rightarrow> int" where "hours_us h = h * us_per_hour"

definition total_seconds :: "int \<Rightarrow> real" where
  "total_seconds d = of_int d / of_int us_per_second"

fun dt_less :: "datetime \<Rightarrow> datetime \<Rightarrow> bool res" where
  "dt_less (Naive a) (Naive b) = Inr (a < b)"
| "dt_less (Aware a) (Aware b) = Inr (a < b)"
| "dt_less _ _ = Inl (TypeError ''can't compare offset-naive and offset-aware datetimes'')"

lemma tz_missing_iff: "tz_missing d \<longleftrightarrow> (\<exists>t. d = Naive t)"
  by (cases d) auto

section \<open>Strings (ASCII)\<close>

definition is_space :: "char \<Rightarrow> bool" where
  "is_space c = (let n = of_char c :: nat in (9 \<le> n \<and> n \<le> 13) \<or> (28 \<le> n \<and> n \<le> 32))"

definition lstrip :: "string \<Rightarrow> string" where
  "lstrip s = dropWhile is_space s"

definition strip :: "string \<Rightarrow> string" where
  "strip s = rev (lstrip (rev (lstrip s)))"

definition lower_char :: "char \<Rightarrow> char" where
  "lower_char c = (let n = of_char c :: nat in if 65 \<le> n \<and> n \<le> 90 then char_of (n + 32) else c)"

definition lower :: "string \<Rightarrow> string" where
  "lower s = map lower_char s"

fun starts_with :: "string \<Rightarrow> string \<Rightarrow> bool" where
  "starts_with [] s = True"
| "starts_with (p # ps) [] = False"
| "starts_with (p # ps) (c # cs) = (p = c \<and> starts_with ps cs)"

text \<open>\<open>s.replace(old, new)\<close> for a nonempty \<open>old\<close>.\<close>

function str_replace :: "string \<Rightarrow> string \<Rightarrow> string \<Rightarrow> string" where
  "str_replace old new s =
     (case s of [] \<Rightarrow> []
      | c # cs \<Rightarrow>
          if old \<noteq> [] \<and> starts_with old s then new @ str_replace old new (drop (length old) s)
          else c # str_replace old new cs)"
  by pat_completeness auto
termination
  by (relation "measure (\<lambda>(old, new, s). length s)") auto

declare str_replace.simps [simp del]

fun str_contains :: "string \<Rightarrow> string \<Rightarrow> bool" where
  "str_contains needle [] = (needle = [])"
| "str_contains needle (c # cs) = (starts_with needle (c # cs) \<or> str_contains needle cs)"

lemma starts_with_iff: "starts_with p s \<longleftrightarrow> take (length p) s = p"
  by (induction p s rule: starts_with.induct) auto

lemma str_replace_Nil [simp]: "str_replace old new [] = []"
  by (simp add: str_replace.simps)

lemma str_replace_absent:
  assumes "old = x # xs" "x \<notin> set s"
  shows "str_replace old new s = s"
  using assms(2)
proof (induction s)
  case Nil
  then show ?case by simp
next
  case (Cons c cs)
  then show ?case by (simp add: assms(1) str_replace.simps[of "x # xs" new "c # cs"])
qed

lemma lower_char_fixed: "\<not> (65 \<le> (of_char c :: nat) \<and> (of_char c :: nat) \<le> 90) \<Longrightarrow> lower_char c = c"
  by (auto simp: lower_char_def Let_def)

lemma of_char_lt_256: "(of_char c :: nat) < 256"
  using of_char_mod_256[of c, where 'a = nat] mod_less_divisor[of 256 "of_char c :: nat"]
  by (metis zero_less_numeral)

lemma of_char_lower_char:
  "(of_char (lower_char c) :: nat) =
     (if 65 \<le> (of_char c :: nat) \<and> (of_char c :: nat) \<le> 90 then of_char c + 32 else of_char c)"
  by (simp add: lower_char_def Let_def of_char_of)

lemma lower_char_idem [simp]: "lower_char (lower_char c) = lower_char c"
  by (rule lower_char_fixed) (simp add: of_char_lower_char)

lemma lower_idem [simp]: "lower (lower s) = lower s"
  by (simp add: lower_def)

lemma is_space_lower_char [simp]: "is_space (lower_char c) = is_space c"
  by (auto simp: is_space_def Let_def of_char_lower_char)

lemma lstrip_lower: "lstrip (lower s) = lower (lstrip s)"
  by (induction s) (auto simp: lstrip_def lower_def)

lemma rev_lower: "rev (lower s) = lower (rev s)"
  by (simp add: lower_def rev_map)

lemma strip_lower: "strip (lower s) = lower (strip s)"
  by (simp add: strip_def lstrip_lower rev_lower)

lemma lstrip_idem [simp]: "lstrip (lstrip s) = lstrip s"
  by (simp add: lstrip_def)

lemma lstrip_fixed: "s = [] \<or> \<not> is_space (hd s) \<Longrightarrow> lstrip s = s"
  by (cases s) (auto simp: lstrip_def)

lemma lstrip_hd: "lstrip s \<noteq> [] \<Longrightarrow> \<not> is_space (hd (lstrip s))"
  by (simp add: lstrip_def hd_dropWhile)

lemma lstrip_suffix: "\<exists>p. s = p @ lstrip s"
  by (metis lstrip_def takeWhile_dropWhile_id)

lemma strip_idem [simp]: "strip (strip s) = strip s"
proof -
  let ?t = "lstrip s" and ?u = "rev (lstrip (rev (lstrip s)))"
  obtain p where "rev ?t = p @ lstrip (rev ?t)" using lstrip_suffix by blast
  then have "?t = ?u @ rev p" by (metis rev_append rev_rev_ident)
  then have "?u = [] \<or> hd ?u = hd ?t \<and> ?t \<noteq> []" by (cases ?u) (auto simp: hd_append)
  then have "lstrip ?u = ?u" using lstrip_hd[of s] by (intro lstrip_fixed) auto
  then show ?thesis by (simp add: strip_def)
qed

section \<open>Integers as text\<close>

definition digit_char :: "nat \<Rightarrow> char" where
  "digit_char d = (if d < 10 then char_of (48 + d) else char_of (87 + d))"

lemma digit_char_eval:
  "digit_char 0 = CHR ''0''" "digit_char (Suc 0) = CHR ''1''" "digit_char 1 = CHR ''1''"
  "digit_char 2 = CHR ''2''" "digit_char 3 = CHR ''3''" "digit_char 4 = CHR ''4''"
  "digit_char 5 = CHR ''5''" "digit_char 6 = CHR ''6''" "digit_char 7 = CHR ''7''"
  "digit_char 8 = CHR ''8''" "digit_char 9 = CHR ''9''" "digit_char 10 = CHR ''a''"
  "digit_char 11 = CHR ''b''" "digit_char 12 = CHR ''c''" "digit_char 13 = CHR ''d''"
  "digit_char 14 = CHR ''e''" "digit_char 15 = CHR ''f''"
  by code_simp+

definition digit_val :: "char \<Rightarrow> nat option" where
  "digit_val c =
     (let n = of_char c :: nat in
      if 48 \<le> n \<and> n \<le> 57 then Some (n - 48)
      else if 97 \<le> n \<and> n \<le> 122 then Some (n - 87)
      else if 65 \<le> n \<and> n \<le> 90 then Some (n - 55) else None)"

fun str_nat :: "nat \<Rightarrow> string" where
  "str_nat n = (if n < 10 then [digit_char n] else str_nat (n div 10) @ [digit_char (n mod 10)])"

declare str_nat.simps [simp del]

definition str_int :: "int \<Rightarrow> string" where
  "str_int i = (if i < 0 then CHR ''-'' # str_nat (nat (- i)) else str_nat (nat i))"

text \<open>\<open>int(s, base)\<close>: surrounding blanks, a sign, a \<open>0x\<close> prefix in base 16, single underscores.\<close>

fun parse_digits :: "nat \<Rightarrow> nat \<Rightarrow> bool \<Rightarrow> string \<Rightarrow> nat option" where
  "parse_digits b acc after_digit [] = (if after_digit then Some acc else None)"
| "parse_digits b acc after_digit (c # cs) =
     (if c = CHR ''_'' then (if after_digit then parse_digits b acc False cs else None)
      else case digit_val c of
             None \<Rightarrow> None
           | Some v \<Rightarrow> if v < b then parse_digits b (acc * b + v) True cs else None)"

definition parse_unsigned :: "nat \<Rightarrow> string \<Rightarrow> nat option" where
  "parse_unsigned b s =
     (if b = 16 \<and> (starts_with ''0x'' s \<or> starts_with ''0X'' s)
      then (if length s = 2 then None else parse_digits b 0 True (drop 2 s))
      else parse_digits b 0 False s)"

definition parse_int :: "nat \<Rightarrow> string \<Rightarrow> int option" where
  "parse_int b s =
     (case strip s of
        [] \<Rightarrow> None
      | c # cs \<Rightarrow>
          if c = CHR ''-'' then map_option (\<lambda>n. - int n) (parse_unsigned b cs)
          else if c = CHR ''+'' then map_option int (parse_unsigned b cs)
          else map_option int (parse_unsigned b (c # cs)))"

section \<open>UUIDs\<close>

type_synonym uuid = "128 word"

fun hex_digits :: "nat \<Rightarrow> nat \<Rightarrow> string" where
  "hex_digits 0 n = []"
| "hex_digits (Suc w) n = hex_digits w (n div 16) @ [digit_char (n mod 16)]"

definition uuid_hex :: "uuid \<Rightarrow> string" where
  "uuid_hex u = hex_digits 32 (unat u)"

text \<open>\<open>str(u)\<close>: 32 lowercase hexadecimal digits grouped 8-4-4-4-12.\<close>

definition str_uuid :: "uuid \<Rightarrow> string" where
  "str_uuid u =
     (let h = uuid_hex u in
      take 8 h @ ''-'' @ take 4 (drop 8 h) @ ''-'' @ take 4 (drop 12 h) @ ''-'' @
      take 4 (drop 16 h) @ ''-'' @ drop 20 h)"

text \<open>\<open>UUID(s)\<close>, \<open>None\<close> where the constructor raises \<open>ValueError\<close>.\<close>

definition uuid_of_string :: "string \<Rightarrow> uuid option" where
  "uuid_of_string s =
     (let a = str_replace ''uuid:'' '''' (str_replace ''urn:'' '''' s);
          b = rev (dropWhile (\<lambda>c. c = CHR ''{'' \<or> c = CHR ''}'')
                (rev (dropWhile (\<lambda>c. c = CHR ''{'' \<or> c = CHR ''}'') a)));
          h = filter (\<lambda>c. c \<noteq> CHR ''-'') b in
      if length h \<noteq> 32 then None
      else case parse_int 16 h of
             None \<Rightarrow> None
           | Some i \<Rightarrow> if 0 \<le> i \<and> i < 2 ^ 128 then Some (word_of_int i) else None)"

lemma length_hex_digits [simp]: "length (hex_digits w n) = w"
  by (induction w n rule: hex_digits.induct) auto

lemma of_char_digit_char: "d < 36 \<Longrightarrow> (of_char (digit_char d) :: nat) = (if d < 10 then 48 + d else 87 + d)"
  by (simp add: digit_char_def of_char_of)

lemma digit_val_digit_char: "d < 36 \<Longrightarrow> digit_val (digit_char d) = Some d"
  by (simp add: digit_val_def of_char_digit_char Let_def)

lemma digit_char_neq:
  assumes "d < 36" "(of_char c :: nat) < 48 \<or> (of_char c :: nat) > 122 \<or>
     (57 < (of_char c :: nat) \<and> (of_char c :: nat) < 97)"
  shows "digit_char d \<noteq> c"
  using assms of_char_digit_char[of d] by (auto split: if_splits)

definition is_lower_hex :: "char \<Rightarrow> bool" where
  "is_lower_hex c = (\<exists>d<16. c = digit_char d)"

lemma hex_digits_lower_hex: "c \<in> set (hex_digits w n) \<Longrightarrow> is_lower_hex c"
proof (induction w n rule: hex_digits.induct)
  case (1 n)
  then show ?case by simp
next
  case (2 w n)
  have "is_lower_hex (digit_char (n mod 16))"
    unfolding is_lower_hex_def by (rule exI[of _ "n mod 16"]) simp
  with 2 show ?case by auto
qed

lemma lower_hex_range:
  "is_lower_hex c \<Longrightarrow> (48 \<le> (of_char c :: nat) \<and> (of_char c :: nat) \<le> 57) \<or>
     (97 \<le> (of_char c :: nat) \<and> (of_char c :: nat) \<le> 102)"
  by (auto simp: is_lower_hex_def of_char_digit_char split: if_splits)

lemma parse_digits_hex:
  "parse_digits 16 a p (hex_digits w n @ ys) =
     (if w = 0 then parse_digits 16 a p ys else parse_digits 16 (a * 16 ^ w + n mod 16 ^ w) True ys)"
proof (induction w n arbitrary: ys rule: hex_digits.induct)
  case (1 n)
  then show ?case by simp
next
  case (2 w n)
  have u: "digit_char (n mod 16) \<noteq> CHR ''_''" by (rule digit_char_neq) auto
  have m: "n mod (16 * 16 ^ w) = 16 * (n div 16 mod 16 ^ w) + n mod 16"
    by (simp add: mod_mult2_eq)
  show ?case
    by (simp add: "2.IH" u digit_val_digit_char m algebra_simps)
qed

lemma strip_no_space:
  assumes "\<And>c. c \<in> set s \<Longrightarrow> \<not> is_space c"
  shows "strip s = s"
proof -
  have "lstrip t = t" if "set t \<subseteq> set s" for t
    using that assms by (intro lstrip_fixed) (cases t; auto)
  then show ?thesis by (simp add: strip_def)
qed

lemma parse_int_hex_digits:
  assumes "0 < w"
  shows "parse_int 16 (hex_digits w n) = Some (int (n mod 16 ^ w))"
proof -
  let ?h = "hex_digits w n"
  have rng: "c \<in> set ?h \<Longrightarrow> (48 \<le> (of_char c :: nat) \<and> (of_char c :: nat) \<le> 57) \<or>
     (97 \<le> (of_char c :: nat) \<and> (of_char c :: nat) \<le> 102)" for c
    using hex_digits_lower_hex lower_hex_range by blast
  have "strip ?h = ?h" by (rule strip_no_space) (use rng in \<open>force simp: is_space_def Let_def\<close>)
  moreover obtain c cs where h: "?h = c # cs" using assms by (metis length_hex_digits list.exhaust list.size(3) nat_less_le)
  moreover have "c \<noteq> CHR ''-''" "c \<noteq> CHR ''+''" using rng[of c] h by auto
  moreover have "\<not> starts_with ''0x'' ?h" "\<not> starts_with ''0X'' ?h"
    using rng h by (cases cs; force)+
  moreover have "parse_digits 16 0 False ?h = Some (n mod 16 ^ w)"
    using parse_digits_hex[of 0 False w n "[]"] assms by simp
  ultimately show ?thesis
    unfolding parse_int_def parse_unsigned_def h list.case by (auto simp del: parse_digits.simps starts_with.simps)
qed

lemma drop_12_20:
  "length h = 32 \<Longrightarrow> take 8 h @ take 4 (drop 8 h) @ take 4 (drop 12 h) @ take 4 (drop 16 h) @ drop 20 h = h"
proof -
  have "take 4 (drop 16 h) @ drop 20 h = drop 16 h"
    using append_take_drop_id[of 4 "drop 16 h"] by simp
  moreover have "take 4 (drop 12 h) @ drop 16 h = drop 12 h"
    using append_take_drop_id[of 4 "drop 12 h"] by simp
  moreover have "take 4 (drop 8 h) @ drop 12 h = drop 8 h"
    using append_take_drop_id[of 4 "drop 8 h"] by simp
  ultimately show ?thesis by simp
qed

lemma length_uuid_hex [simp]: "length (uuid_hex u) = 32"
  by (simp add: uuid_hex_def)

lemma filter_dash_str_uuid: "filter (\<lambda>c. c \<noteq> CHR ''-'') (str_uuid u) = uuid_hex u"
proof -
  have "is_lower_hex c" if "c \<in> set (uuid_hex u)" for c
    using that hex_digits_lower_hex by (simp add: uuid_hex_def)
  then have nd: "filter (\<lambda>c. c \<noteq> CHR ''-'') t = t" if "set t \<subseteq> set (uuid_hex u)" for t
    using that lower_hex_range by (force simp: filter_id_conv)
  have sub: "set (take i (drop j (uuid_hex u))) \<subseteq> set (uuid_hex u)"
    "set (take i (uuid_hex u)) \<subseteq> set (uuid_hex u)" "set (drop j (uuid_hex u)) \<subseteq> set (uuid_hex u)" for i j
    by (meson in_set_takeD in_set_dropD subsetI)+
  show ?thesis
    using drop_12_20[of "uuid_hex u"]
    by (simp add: str_uuid_def Let_def nd[OF sub(1)] nd[OF sub(2)] nd[OF sub(3)])
qed

lemma str_uuid_inj: "str_uuid u = str_uuid v \<Longrightarrow> u = v"
proof -
  assume "str_uuid u = str_uuid v"
  then have "uuid_hex u = uuid_hex v" by (metis filter_dash_str_uuid)
  then have "parse_int 16 (uuid_hex u) = parse_int 16 (uuid_hex v)" by simp
  moreover have "unat x < 16 ^ 32" for x :: uuid using unsigned_less[of x, where 'a = nat] by simp
  ultimately show "u = v" by (simp add: uuid_hex_def parse_int_hex_digits word_unat_eq_iff)
qed

lemma set_str_uuid: "c \<in> set (str_uuid u) \<Longrightarrow> is_lower_hex c \<or> c = CHR ''-''"
proof (cases "c = CHR ''-''")
  case False
  assume "c \<in> set (str_uuid u)"
  with False have "c \<in> set (filter (\<lambda>c. c \<noteq> CHR ''-'') (str_uuid u))" by simp
  then show ?thesis
    unfolding filter_dash_str_uuid uuid_hex_def using hex_digits_lower_hex by blast
qed simp

lemma uuid_of_str_uuid: "uuid_of_string (str_uuid u) = Some u"
proof -
  have rng: "(48 \<le> (of_char c :: nat) \<and> (of_char c :: nat) \<le> 57) \<or>
      (97 \<le> (of_char c :: nat) \<and> (of_char c :: nat) \<le> 102) \<or> (of_char c :: nat) = 45"
    if "c \<in> set (str_uuid u)" for c
    using set_str_uuid[OF that] lower_hex_range[of c] by auto
  have "CHR ''u'' \<notin> set (str_uuid u)" using rng[of "CHR ''u''"] by auto
  then have r: "str_replace ''urn:'' '''' (str_uuid u) = str_uuid u"
    "str_replace ''uuid:'' '''' (str_uuid u) = str_uuid u"
    by (simp_all add: str_replace_absent)
  have nb: "c \<noteq> CHR ''{'' \<and> c \<noteq> CHR ''}''" if "c \<in> set (str_uuid u)" for c
    using rng[OF that] by auto
  have d: "dropWhile (\<lambda>c. c = CHR ''{'' \<or> c = CHR ''}'') t = t" if "set t \<subseteq> set (str_uuid u)" for t
    using that nb by (cases t) auto
  have lt: "unat u < 16 ^ 32" using unsigned_less[of u, where 'a = nat] by simp
  have i: "parse_int 16 (uuid_hex u) = Some (int (unat u))"
    using lt by (simp add: uuid_hex_def parse_int_hex_digits)
  have b: "uint u < 2 ^ 128" using uint_lt2p[of u] by simp
  show ?thesis
    unfolding uuid_of_string_def Let_def r
    using b by (simp add: d filter_dash_str_uuid i)
qed

lemma inj_str_uuid: "inj str_uuid"
  by (rule injI) (rule str_uuid_inj)

lemma str_uuid_eq_iff [simp]: "str_uuid u = str_uuid v \<longleftrightarrow> u = v"
  using str_uuid_inj by blast

section \<open>Dynamic values\<close>

datatype pyval =
    VNone
  | VBool bool
  | VInt int
  | VFloat real
  | VStr string
  | VTime datetime
  | VUuid uuid
  | VList "pyval list"
  | VMap "(string \<times> pyval) list"

record pylib =
  fromisoformat :: "string \<Rightarrow> datetime option"
  isoformat :: "datetime \<Rightarrow> string"
  str_other :: "pyval \<Rightarrow> string"
  float_of_str :: "string \<Rightarrow> real option"
  json_loads :: "string \<Rightarrow> pyval option"
  sha256_hex :: "string \<Rightarrow> string"
  hmac_sha256_hex :: "string \<Rightarrow> string \<Rightarrow> string"

text \<open>A concrete library, for the examples: times are read and printed as microseconds.\<close>

definition clock_lib :: pylib where
  "clock_lib = \<lparr>fromisoformat = (\<lambda>s. map_option Aware (parse_int 10 s)),
     isoformat = (\<lambda>d. str_int (wall_of d)), str_other = (\<lambda>_. ''?''), float_of_str = (\<lambda>_. None), json_loads = (\<lambda>_. None),
     sha256_hex = (\<lambda>s. s), hmac_sha256_hex = (\<lambda>k s. k @ s)\<rparr>"

definition vget :: "(string \<times> pyval) list \<Rightarrow> string \<Rightarrow> pyval" where
  "vget d k = (case map_of d k of None \<Rightarrow> VNone | Some v \<Rightarrow> v)"

fun truthy :: "pyval \<Rightarrow> bool" where
  "truthy VNone = False"
| "truthy (VBool b) = b"
| "truthy (VInt i) = (i \<noteq> 0)"
| "truthy (VFloat r) = (r \<noteq> 0)"
| "truthy (VStr s) = (s \<noteq> [])"
| "truthy (VTime _) = True"
| "truthy (VUuid _) = True"
| "truthy (VList xs) = (xs \<noteq> [])"
| "truthy (VMap d) = (d \<noteq> [])"

definition py_or :: "pyval \<Rightarrow> pyval \<Rightarrow> pyval" where
  "py_or a b = (if truthy a then a else b)"

fun py_str :: "pylib \<Rightarrow> pyval \<Rightarrow> string" where
  "py_str lib VNone = ''None''"
| "py_str lib (VBool b) = (if b then ''True'' else ''False'')"
| "py_str lib (VInt i) = str_int i"
| "py_str lib (VStr s) = s"
| "py_str lib (VUuid u) = str_uuid u"
| "py_str lib v = str_other lib v"

fun py_int :: "pyval \<Rightarrow> int res" where
  "py_int (VBool b) = Inr (if b then 1 else 0)"
| "py_int (VInt i) = Inr i"
| "py_int (VFloat r) = Inr (if r \<ge> 0 then \<lfloor>r\<rfloor> else \<lceil>r\<rceil>)"
| "py_int (VStr s) =
     (case parse_int 10 s of None \<Rightarrow> Inl (ValueError ''invalid literal for int()'') | Some i \<Rightarrow> Inr i)"
| "py_int _ = Inl (TypeError ''int() argument must be a string or a number'')"

fun py_float :: "pylib \<Rightarrow> pyval \<Rightarrow> real res" where
  "py_float lib (VBool b) = Inr (if b then 1 else 0)"
| "py_float lib (VInt i) = Inr (of_int i)"
| "py_float lib (VFloat r) = Inr r"
| "py_float lib (VStr s) =
     (case float_of_str lib s of
        None \<Rightarrow> Inl (ValueError ''could not convert string to float'') | Some r \<Rightarrow> Inr r)"
| "py_float lib _ = Inl (TypeError ''float() argument must be a string or a real number'')"

text \<open>\<open>datetime.fromisoformat(s.replace("Z", "+00:00"))\<close>\<close>

definition parse_iso :: "pylib \<Rightarrow> string \<Rightarrow> datetime res" where
  "parse_iso lib s =
     (case fromisoformat lib (str_replace ''Z'' ''+00:00'' s) of
        None \<Rightarrow> Inl (ValueError ''Invalid isoformat string'')
      | Some d \<Rightarrow> Inr d)"


text \<open>\<open>row[key]\<close>, \<open>UUID(str(v))\<close>, \<open>iter(v)\<close> and \<open>v is not None\<close> conversions.\<close>

definition vitem :: "(string, pyval) dict \<Rightarrow> string \<Rightarrow> pyval res" where
  "vitem row key = (case map_of row key of None \<Rightarrow> Inl (KeyError key) | Some v \<Rightarrow> Inr v)"

definition vsub :: "pyval \<Rightarrow> string \<Rightarrow> pyval res" where
  "vsub v key = (case v of VMap d \<Rightarrow> vitem d key | _ \<Rightarrow> Inl (TypeError ''object is not subscriptable''))"

definition py_uuid :: "pylib \<Rightarrow> pyval \<Rightarrow> uuid res" where
  "py_uuid lib v =
     (case uuid_of_string (py_str lib v) of
        None \<Rightarrow> Inl (ValueError ''badly formed hexadecimal UUID string'') | Some u \<Rightarrow> Inr u)"

fun py_iter :: "pyval \<Rightarrow> pyval list res" where
  "py_iter (VList vs) = Inr vs"
| "py_iter (VMap d) = Inr (map (\<lambda>(k, _). VStr k) d)"
| "py_iter (VStr s) = Inr (map (\<lambda>c. VStr [c]) s)"
| "py_iter _ = Inl (TypeError ''object is not iterable'')"

definition py_optional :: "(pyval \<Rightarrow> 'a res) \<Rightarrow> pyval \<Rightarrow> 'a option res" where
  "py_optional f v = (if v = VNone then Inr None else bind_res (f v) (\<lambda>x. Inr (Some x)))"

text \<open>\<open>v.get(k, d)\<close> on a value that may not be a mapping.\<close>

definition py_get :: "pyval \<Rightarrow> string \<Rightarrow> pyval \<Rightarrow> pyval res" where
  "py_get v k d =
     (case v of VMap m \<Rightarrow> Inr (case map_of m k of None \<Rightarrow> d | Some w \<Rightarrow> w)
      | _ \<Rightarrow> Inl (AttributeError ''object has no attribute get''))"

section \<open>Comparing values\<close>

fun as_number :: "pyval \<Rightarrow> real option" where
  "as_number (VInt i) = Some (of_int i)"
| "as_number (VFloat r) = Some r"
| "as_number _ = None"

fun scalar_of :: "pyval \<Rightarrow> real option" where
  "scalar_of (VBool b) = Some (if b then 1 else 0)"
| "scalar_of v = as_number v"

text \<open>Equality of JSON values: numbers by value, objects without regard to order.\<close>

function py_eq :: "pyval \<Rightarrow> pyval \<Rightarrow> bool" where
  "py_eq v w =
     (case v of
        VList xs \<Rightarrow> (case w of VList ys \<Rightarrow> length xs = length ys \<and> list_all (\<lambda>(x, y). py_eq x y) (zip xs ys) | _ \<Rightarrow> False)
      | VMap d \<Rightarrow>
          (case w of
             VMap e \<Rightarrow> set (dkeys d) = set (dkeys e) \<and>
               list_all (\<lambda>(k, x). case dget e k of None \<Rightarrow> False | Some y \<Rightarrow> py_eq x y) d
           | _ \<Rightarrow> False)
      | _ \<Rightarrow> (case (scalar_of v, scalar_of w) of
          (Some a, Some b) \<Rightarrow> a = b | (None, None) \<Rightarrow> v = w | _ \<Rightarrow> False))"
  by pat_completeness auto

termination
proof (relation "measure (\<lambda>(v, w). size v)", goal_cases)
  case 1
  then show ?case by simp
next
  case (2 v w xs ys z x y)
  then have "x \<in> set xs" by (auto dest: set_zip_leftD)
  then have "size x \<le> size_list size xs" by (rule size_list_estimation') simp
  then show ?case using 2 by (auto simp: less_Suc_eq_le)
next
  case (3 v w d e z k x y)
  then have "(k, x) \<in> set d" by simp
  then have "size_prod (\<lambda>_. 0) size (k, x) \<le> size_list (size_prod (\<lambda>_. 0) size) d"
    by (rule size_list_estimation') simp
  then show ?case using 3 by auto
qed

declare py_eq.simps [simp del]

end
