(* ===== verification/PreferenceVector.thy ===== *)
theory PreferenceVector
  imports PyValues
begin

text \<open>
  \<open>workers/feature_store_worker/app/features.py\<close>: the legacy per-interaction topic delta and the
  event-time preference vector v2, which replays a user's canonical events into bounded, decayed
  positive and negative channels. Weights and scores are exact reals. The lemmas give the value of
  every channel entry, its bounds, and the independence of delivery order, duplicates and future
  events.
\<close>

definition PREFERENCE_SCHEMA_V2 :: string where "PREFERENCE_SCHEMA_V2 = ''preference-vector-v2''"

definition DIRECT_READ_VISIT_GAP :: int where "DIRECT_READ_VISIT_GAP = hours_us 1"

record pref_event =
  pe_event_id :: string
  pe_post_id :: string
  pe_event_type :: string
  pe_topics :: "string list"
  pe_occurred_at :: datetime
  pe_impression_id :: "string option"
  pe_session_id :: "string option"
  pe_visit_id :: "string option"
  pe_dwell_ms :: "int option"
  pe_read_trigger :: "string option"

type_synonym channel = "(string, real) dict"

record pref_vector =
  pv_positive :: channel
  pv_negative :: channel
  pv_reference_at :: instant
  pv_source_event_count :: nat

record direct_read_visit =
  last_event_at :: instant
  qualified_counted :: bool
  view_seen :: bool
  max_dwell_ms :: int

definition GENERAL :: string where "GENERAL = ''general''"

definition WEIGHTS :: "(string, real) dict" where
  "WEIGHTS =
     [(''click'', 0), (''view_observed'', 0), (''dwell'', 0), (''unhide'', 0),
      (''viewed'', 1/2), (''qualified_read'', 1/2), (''liked'', 3/2), (''unliked'', -3/2),
      (''saved'', 5/2), (''unsaved'', -5/2), (''shared'', 5/2), (''unshared'', -5/2),
      (''hidden'', -2), (''reported'', -5), (''commented'', 1), (''comment_replied'', 7/10)]"

definition CANONICAL_WEIGHTS :: "(string, real) dict" where
  "CANONICAL_WEIGHTS =
     [(''click'', 1), (''qualified_read'', 1/2), (''like'', 3/2), (''save'', 5/2),
      (''share'', 5/2), (''hide'', -2), (''report'', -5), (''comment'', 1)]"

definition pref_reversals :: "(string, string) dict" where
  "pref_reversals =
     [(''unlike'', ''like''), (''unsave'', ''save''), (''unshare'', ''share''), (''unhide'', ''hide'')]"

definition STATEFUL_EVENTS :: "string set" where
  "STATEFUL_EVENTS = {''like'', ''save'', ''share'', ''hide''}"

fun aware_utc :: "datetime \<Rightarrow> instant res" where
  "aware_utc (Naive _) = Inl (ValueError ''event timestamps must include a timezone'')"
| "aware_utc (Aware t) = Inr t"

definition exp2 :: "real \<Rightarrow> real" where "exp2 x = 2 powr x"

section \<open>Legacy topic delta\<close>

definition apply_topic_delta :: "channel \<Rightarrow> string list \<Rightarrow> string \<Rightarrow> channel" where
  "apply_topic_delta vec topics0 event_type =
     (let topics = (if topics0 = [] then [GENERAL] else topics0);
          delta = dget_default WEIGHTS event_type 0 / real (length topics) in
      if delta = 0 then vec
      else foldl (\<lambda>out topic. dset out topic (py_round 4 (dget_default out topic 0 + delta))) vec topics)"

section \<open>Replay of canonical events\<close>

record replay_state =
  rs_active :: "(string \<times> string, pref_event) dict"
  rs_additive :: "(pref_event \<times> string) list"
  rs_impression_reads :: "string list"
  rs_visit_reads :: "(string option \<times> string \<times> string) list"
  rs_visits :: "(string \<times> string, direct_read_visit) dict"

definition replay_init :: replay_state where
  "replay_init = \<lparr>rs_active = [], rs_additive = [], rs_impression_reads = [], rs_visit_reads = [],
     rs_visits = []\<rparr>"

definition add_read :: "pref_event \<Rightarrow> replay_state \<Rightarrow> replay_state" where
  "add_read event st = st\<lparr>rs_additive := rs_additive st @ [(event, ''qualified_read'')]\<rparr>"

definition read_qualified :: "int \<Rightarrow> pref_event \<Rightarrow> bool" where
  "read_qualified qualified_read_ms event =
     (case pe_dwell_ms event of None \<Rightarrow> False | Some d \<Rightarrow> d \<ge> qualified_read_ms)"

definition starts_new_visit :: "pref_event \<Rightarrow> instant \<Rightarrow> direct_read_visit option \<Rightarrow> bool" where
  "starts_new_visit event occurred_at visit =
     (case visit of None \<Rightarrow> True
      | Some v \<Rightarrow>
          occurred_at - last_event_at v > DIRECT_READ_VISIT_GAP \<or>
          (pe_event_type event = ''view'' \<and> view_seen v) \<or>
          (pe_event_type event = ''dwell'' \<and>
             (case pe_dwell_ms event of None \<Rightarrow> False | Some d \<Rightarrow> d < max_dwell_ms v)))"

definition observe_visit :: "pref_event \<Rightarrow> instant \<Rightarrow> direct_read_visit \<Rightarrow> direct_read_visit" where
  "observe_visit event occurred_at visit =
     (let v1 = visit\<lparr>last_event_at := occurred_at\<rparr>;
          v2 = (if pe_event_type event = ''view'' then v1\<lparr>view_seen := True\<rparr> else v1) in
      case pe_dwell_ms event of None \<Rightarrow> v2
      | Some d \<Rightarrow> v2\<lparr>max_dwell_ms := max (max_dwell_ms v2) d\<rparr>)"

definition replay_direct_read ::
    "bool \<Rightarrow> pref_event \<Rightarrow> string \<Rightarrow> instant \<Rightarrow> replay_state \<Rightarrow> replay_state" where
  "replay_direct_read qualified event session occurred_at st =
     (let key = (session, pe_post_id event);
          old = dget (rs_visits st) key;
          fresh = \<lparr>last_event_at = occurred_at, qualified_counted = False, view_seen = False,
                   max_dwell_ms = 0\<rparr>;
          visit = (if starts_new_visit event occurred_at old then fresh
                   else (case old of Some v \<Rightarrow> v | None \<Rightarrow> fresh));
          visit = observe_visit event occurred_at visit;
          count = (qualified \<and> \<not> qualified_counted visit);
          st = (if count then add_read event st else st);
          visit = (if count then visit\<lparr>qualified_counted := True\<rparr> else visit);
          visits = dset (rs_visits st) key visit in
      st\<lparr>rs_visits := (if pe_read_trigger event = Some ''destroy'' then dpop visits key else visits)\<rparr>)"

definition replay_read :: "int \<Rightarrow> pref_event \<Rightarrow> instant \<Rightarrow> replay_state \<Rightarrow> replay_state" where
  "replay_read qualified_read_ms event occurred_at st =
     (let qualified = read_qualified qualified_read_ms event in
      case pe_impression_id event of
        Some imp \<Rightarrow>
          if qualified \<and> imp \<notin> set (rs_impression_reads st)
          then add_read event (st\<lparr>rs_impression_reads := rs_impression_reads st @ [imp]\<rparr>) else st
      | None \<Rightarrow>
        (case pe_visit_id event of
           Some visit \<Rightarrow>
             let key = (pe_session_id event, pe_post_id event, visit) in
             if qualified \<and> key \<notin> set (rs_visit_reads st)
             then add_read event (st\<lparr>rs_visit_reads := rs_visit_reads st @ [key]\<rparr>) else st
         | None \<Rightarrow>
           (case pe_session_id event of
              None \<Rightarrow> if qualified then add_read event st else st
            | Some session \<Rightarrow> replay_direct_read qualified event session occurred_at st)))"

definition replay_step :: "int \<Rightarrow> replay_state \<Rightarrow> instant \<times> pref_event \<Rightarrow> replay_state" where
  "replay_step qualified_read_ms st te =
     (let (occurred_at, event) = te; event_type = pe_event_type event in
      if event_type \<in> {''view'', ''dwell''} then replay_read qualified_read_ms event occurred_at st
      else if event_type \<in> STATEFUL_EVENTS
      then st\<lparr>rs_active := dset (rs_active st) (pe_post_id event, event_type) event\<rparr>
      else case dget pref_reversals event_type of
        Some reversed_type \<Rightarrow> st\<lparr>rs_active := dpop (rs_active st) (pe_post_id event, reversed_type)\<rparr>
      | None \<Rightarrow>
          if event_type \<in> set (dkeys CANONICAL_WEIGHTS)
          then st\<lparr>rs_additive := rs_additive st @ [(event, event_type)]\<rparr> else st)"

definition replay :: "int \<Rightarrow> (instant \<times> pref_event) list \<Rightarrow> replay_state" where
  "replay qualified_read_ms evs = foldl (replay_step qualified_read_ms) replay_init evs"

definition contributions_of :: "replay_state \<Rightarrow> (pref_event \<times> string) list" where
  "contributions_of st = rs_additive st @ map (\<lambda>((_, event_type), event). (event, event_type)) (rs_active st)"

section \<open>Channels\<close>

definition decayed_weight :: "real \<Rightarrow> instant \<Rightarrow> instant \<Rightarrow> real \<Rightarrow> real" where
  "decayed_weight weight reference_at occurred_at half_life_hours =
     (let age_hours = max 0 (total_seconds (reference_at - occurred_at) / 3600) in
      weight * exp2 (- age_hours / half_life_hours))"

definition event_topics :: "pref_event \<Rightarrow> string list" where
  "event_topics event =
     (let ts = filter (\<lambda>t. t \<noteq> []) (pe_topics event) in if ts = [] then [GENERAL] else ts)"

definition add_share :: "real \<Rightarrow> real \<Rightarrow> channel \<Rightarrow> string \<Rightarrow> channel" where
  "add_share bound share ch topic = dset ch topic (min bound (dget_default ch topic 0 + share))"

definition contribute ::
    "instant \<Rightarrow> real \<Rightarrow> real \<Rightarrow> channel \<times> channel \<Rightarrow> pref_event \<times> string \<Rightarrow> channel \<times> channel" where
  "contribute reference_at half_life_hours bound pn c =
     (let (pos, neg) = pn; (event, event_type) = c;
          weight = dget_default CANONICAL_WEIGHTS event_type 0;
          decayed = decayed_weight weight reference_at (wall_of (pe_occurred_at event)) half_life_hours;
          topics = event_topics event;
          share = \<bar>decayed\<bar> / real (length topics) in
      if decayed > 0 then (foldl (add_share bound share) pos topics, neg)
      else (pos, foldl (add_share bound share) neg topics))"

definition rounded_channel :: "bool \<Rightarrow> channel \<Rightarrow> channel" where
  "rounded_channel retain_negative ch =
     foldl (\<lambda>result (topic, value).
              let rounded = py_round 10 value in
              if \<bar>rounded\<bar> > 1 / 10 ^ 12 \<and> (retain_negative \<or> rounded > 0)
              then dset result topic rounded else result)
       [] (sort_key id ch)"

section \<open>Building the vector\<close>

definition max_datetime :: "datetime \<Rightarrow> datetime list \<Rightarrow> datetime res" where
  "max_datetime d ds =
     fold_res (\<lambda>m x. bind_res (dt_less m x) (\<lambda>lt. Inr (if lt then x else m))) d ds"

definition replay_sort_key ::
    "pref_event \<Rightarrow> (instant \<times> string \<times> string \<times> string \<times> string list) res" where
  "replay_sort_key event =
     bind_res (aware_utc (pe_occurred_at event)) (\<lambda>t.
       Inr (t, pe_event_id event, pe_post_id event, pe_event_type event, pe_topics event))"

definition order_events :: "pref_event list \<Rightarrow> (instant \<times> pref_event) list res" where
  "order_events evs =
     bind_res (sorted_res replay_sort_key evs) (\<lambda>keyed. Inr (map (\<lambda>(k, e). (fst k, e)) keyed))"

fun unique_events :: "instant \<Rightarrow> string list \<Rightarrow> (instant \<times> pref_event) list \<Rightarrow> (instant \<times> pref_event) list" where
  "unique_events reference_at seen [] = []"
| "unique_events reference_at seen ((t, e) # evs) =
     (if pe_event_id e \<in> set seen \<or> t > reference_at then unique_events reference_at seen evs
      else (t, e) # unique_events reference_at (pe_event_id e # seen) evs)"

definition vector_of_contributions ::
    "instant \<Rightarrow> real \<Rightarrow> real \<Rightarrow> (pref_event \<times> string) list \<Rightarrow> pref_vector" where
  "vector_of_contributions reference_at half_life_hours bound contributions =
     (let (pos, neg) = foldl (contribute reference_at half_life_hours bound) ([], []) contributions in
      \<lparr>pv_positive = rounded_channel False pos, pv_negative = rounded_channel False neg,
       pv_reference_at = reference_at, pv_source_event_count = length contributions\<rparr>)"

text \<open>\<open>now\<close> is \<open>datetime.now(timezone.utc)\<close>, the default of an empty \<open>max\<close>.\<close>

definition build_preference_vector_v2 ::
    "instant \<Rightarrow> pref_event list \<Rightarrow> datetime option \<Rightarrow> real \<Rightarrow> real \<Rightarrow> int \<Rightarrow> pref_vector res" where
  "build_preference_vector_v2 now evs reference half_life_hours channel_bound qualified_read_ms =
     (if half_life_hours \<le> 0 \<or> channel_bound \<le> 0
      then Inl (ValueError ''half_life_hours and channel_bound must be positive'')
      else
        bind_res (case reference of
                    Some d \<Rightarrow> Inr d
                  | None \<Rightarrow> (case map pe_occurred_at evs of
                               [] \<Rightarrow> Inr (Aware now) | d # ds \<Rightarrow> max_datetime d ds)) (\<lambda>ref.
        bind_res (aware_utc ref) (\<lambda>reference_at.
        bind_res (order_events evs) (\<lambda>ordered.
          Inr (vector_of_contributions reference_at half_life_hours channel_bound
                 (contributions_of (replay qualified_read_ms (unique_events reference_at [] ordered))))))))"

definition decay_preference_vector :: "pref_vector \<Rightarrow> datetime \<Rightarrow> real \<Rightarrow> pref_vector res" where
  "decay_preference_vector vector at_time half_life_hours =
     (if half_life_hours \<le> 0 then Inl (ValueError ''half_life_hours must be positive'')
      else bind_res (aware_utc at_time) (\<lambda>t.
        let reference_at = pv_reference_at vector;
            factor = exp2 (- max 0 (total_seconds (t - reference_at) / 3600) / half_life_hours);
            scale = (\<lambda>ch. rounded_channel False (map (\<lambda>(k, v). (k, v * factor)) ch)) in
        Inr \<lparr>pv_positive = scale (pv_positive vector), pv_negative = scale (pv_negative vector),
             pv_reference_at = max t reference_at,
             pv_source_event_count = pv_source_event_count vector\<rparr>))"

definition normalize_channel :: "channel \<Rightarrow> channel" where
  "normalize_channel ch =
     (let total = sum_list (map (\<lambda>v. max 0 v) (dvalues ch)) in
      if total \<le> 0 then []
      else map (\<lambda>(t, v). (t, max 0 v / total)) (filter (\<lambda>(t, v). v > 0) ch))"

definition merge_channel :: "real \<Rightarrow> channel \<Rightarrow> channel \<Rightarrow> channel" where
  "merge_channel coeff merged ch =
     foldl (\<lambda>m (topic, value). dset m topic (dget_default m topic 0 + coeff * value)) merged ch"

definition blend_preference_channels ::
    "channel \<Rightarrow> channel \<Rightarrow> string list \<Rightarrow> real \<Rightarrow> real \<Rightarrow> real \<Rightarrow> channel res" where
  "blend_preference_channels pos neg declared_topics behavior_coefficient declared_coefficient
      behavior_confidence =
     (if behavior_coefficient < 0 \<or> declared_coefficient < 0
      then Inl (ValueError ''blend coefficients must be non-negative'')
      else
        let coefficient_total = behavior_coefficient + declared_coefficient in
        if coefficient_total \<le> 0 then Inr []
        else
          let b = behavior_coefficient / coefficient_total;
              d = declared_coefficient / coefficient_total;
              confidence = min 1 (max 0 behavior_confidence);
              declared = sorted_list_of_set (set (filter (\<lambda>t. t \<noteq> []) declared_topics));
              declared_norm = map (\<lambda>t. (t, 1 / real (length declared))) declared;
              m1 = merge_channel (b * confidence) [] (normalize_channel pos);
              m2 = merge_channel (- (b * confidence)) m1 (normalize_channel neg);
              m3 = merge_channel d m2 declared_norm in
          Inr (rounded_channel True m3))"

section \<open>Channel values\<close>

text \<open>The total decayed share a topic receives in the positive (\<open>sign\<close>) or negative channel.\<close>

definition contribution_weight :: "instant \<Rightarrow> real \<Rightarrow> pref_event \<times> string \<Rightarrow> real" where
  "contribution_weight ref hl c =
     decayed_weight (dget_default CANONICAL_WEIGHTS (snd c) 0) ref (wall_of (pe_occurred_at (fst c))) hl"

definition topic_share :: "bool \<Rightarrow> instant \<Rightarrow> real \<Rightarrow> string \<Rightarrow> pref_event \<times> string \<Rightarrow> real" where
  "topic_share sign ref hl k c =
     (let w = contribution_weight ref hl c; ts = event_topics (fst c) in
      if (w > 0) = sign then real (count_list ts k) * (\<bar>w\<bar> / real (length ts)) else 0)"

definition topic_mass :: "bool \<Rightarrow> instant \<Rightarrow> real \<Rightarrow> (pref_event \<times> string) list \<Rightarrow> string \<Rightarrow> real" where
  "topic_mass sign ref hl cs k = sum_list (map (topic_share sign ref hl k) cs)"

lemma topic_share_nonneg: "0 \<le> topic_share sign ref hl k c"
  by (simp add: topic_share_def Let_def)

lemma topic_mass_nonneg: "0 \<le> topic_mass sign ref hl cs k"
  unfolding topic_mass_def by (rule sum_list_nonneg) (auto simp: topic_share_nonneg)

lemma dget_default_dset [simp]:
  "dget_default (dset d k v) k' x = (if k = k' then v else dget_default d k' x)"
  by (simp add: dget_default_def)

lemma add_share_fold:
  assumes "0 \<le> share" "0 < bound"
    and "\<And>k. dget_default ch k 0 = min bound (m k)"
  shows "dget_default (foldl (add_share bound share) ch ts) k 0 =
    min bound (m k + real (count_list ts k) * share)"
  using assms(3)
proof (induction ts arbitrary: ch m)
  case Nil
  then show ?case by simp
next
  case (Cons t ts)
  have "dget_default (add_share bound share ch t) k 0 = min bound ((m(t := m t + share)) k)" for k
    using Cons.prems assms(1) by (simp add: add_share_def min_def)
  from Cons.IH[OF this] show ?case by (simp add: algebra_simps)
qed

lemma contribute_alt:
  "contribute ref hl bound (pos, neg) c =
     (let w = contribution_weight ref hl c; ts = event_topics (fst c);
          share = \<bar>w\<bar> / real (length ts) in
      if w > 0 then (foldl (add_share bound share) pos ts, neg)
      else (pos, foldl (add_share bound share) neg ts))"
  by (simp add: contribute_def contribution_weight_def Let_def case_prod_beta)

lemma contribute_values:
  assumes "0 < bound" "\<And>k. dget_default pos k 0 = min bound (P k)"
    "\<And>k. dget_default neg k 0 = min bound (N k)" "contribute ref hl bound (pos, neg) c = (pos', neg')"
  shows "dget_default pos' k 0 = min bound (P k + topic_share True ref hl k c)"
    and "dget_default neg' k 0 = min bound (N k + topic_share False ref hl k c)"
proof -
  define share where "share = \<bar>contribution_weight ref hl c\<bar> / real (length (event_topics (fst c)))"
  have "0 \<le> share" by (simp add: share_def)
  note f = add_share_fold[OF this assms(1)]
  have c: "(pos', neg') =
      (if contribution_weight ref hl c > 0
       then (foldl (add_share bound share) pos (event_topics (fst c)), neg)
       else (pos, foldl (add_share bound share) neg (event_topics (fst c))))"
    using assms(4) unfolding contribute_alt Let_def share_def by simp
  show "dget_default pos' k 0 = min bound (P k + topic_share True ref hl k c)"
    "dget_default neg' k 0 = min bound (N k + topic_share False ref hl k c)"
    using c f[of pos P, OF assms(2)] f[of neg N, OF assms(3)] assms(2,3)
    unfolding topic_share_def Let_def share_def[symmetric] by (simp_all split: if_splits)
qed

lemma channels_values:
  assumes "0 < bound"
    "foldl (contribute ref hl bound) ([], []) cs = (pos, neg)"
  shows "dget_default pos k 0 = min bound (topic_mass True ref hl cs k) \<and>
    dget_default neg k 0 = min bound (topic_mass False ref hl cs k)"
  using assms(2)
proof (induction cs arbitrary: pos neg k rule: rev_induct)
  case Nil
  then show ?case using assms(1) by (simp add: dget_default_def topic_mass_def)
next
  case (snoc c cs)
  obtain p n where pn: "foldl (contribute ref hl bound) ([], []) cs = (p, n)" by fastforce
  with snoc.prems have c: "contribute ref hl bound (p, n) c = (pos, neg)" by simp
  show ?case
    using contribute_values[OF assms(1) _ _ c, of "topic_mass True ref hl cs" "topic_mass False ref hl cs" k]
      snoc.IH[OF pn] by (simp add: topic_mass_def)
qed

lemma distinct_add_share: "distinct (dkeys (foldl (add_share bound share) ch ts)) = distinct (dkeys ch)"
  by (induction ts arbitrary: ch) (auto simp: add_share_def)

lemma channels_distinct:
  assumes "foldl (contribute ref hl bound) ([], []) cs = (pos, neg)"
  shows "distinct (dkeys pos) \<and> distinct (dkeys neg)"
  using assms
proof (induction cs arbitrary: pos neg rule: rev_induct)
  case (snoc c cs)
  obtain p n where pn: "foldl (contribute ref hl bound) ([], []) cs = (p, n)" by fastforce
  from snoc.IH[OF pn] snoc.prems pn show ?case
    by (auto simp: contribute_alt Let_def distinct_add_share split: if_splits)
qed simp

section \<open>Rounded channels\<close>

definition keep_rounded :: "bool \<Rightarrow> real \<Rightarrow> bool" where
  "keep_rounded retain value \<longleftrightarrow>
     \<bar>py_round 10 value\<bar> > 1 / 10 ^ 12 \<and> (retain \<or> py_round 10 value > 0)"

lemma rounded_channel_fold:
  assumes "distinct (dkeys ch)" "set (dkeys acc) \<inter> set (dkeys ch) = {}"
  shows "foldl (\<lambda>result (topic, value).
              let rounded = py_round 10 value in
              if \<bar>rounded\<bar> > 1 / 10 ^ 12 \<and> (retain \<or> rounded > 0)
              then dset result topic rounded else result) acc ch =
    acc @ map (\<lambda>(t, v). (t, py_round 10 v)) (filter (\<lambda>(t, v). keep_rounded retain v) ch)"
  using assms
proof (induction ch arbitrary: acc)
  case Nil
  then show ?case by simp
next
  case (Cons c ch)
  obtain t v where c: "c = (t, v)" by fastforce
  then show ?case using Cons by (auto simp: keep_rounded_def Let_def dset_new)
qed

lemma distinct_fst_sort:
  assumes "distinct (dkeys ch)"
  shows "distinct (dkeys (sort_key id ch))"
proof -
  have "mset (dkeys (sort_key id ch)) = mset (dkeys ch)" by simp
  then show ?thesis using assms by (rule mset_eq_imp_distinct_iff[THEN iffD2])
qed

lemma rounded_channel_alt:
  assumes "distinct (dkeys ch)"
  shows "rounded_channel retain ch =
    map (\<lambda>(t, v). (t, py_round 10 v)) (filter (\<lambda>(t, v). keep_rounded retain v) (sort_key id ch))"
  unfolding rounded_channel_def
  using rounded_channel_fold[OF distinct_fst_sort[OF assms], of "[]" retain] by simp

lemma dkeys_rounded_channel:
  assumes "distinct (dkeys ch)"
  shows "distinct (dkeys (rounded_channel retain ch))" "sorted (dkeys (rounded_channel retain ch))"
proof -
  have e: "dkeys (rounded_channel retain ch) =
      map fst (filter (\<lambda>(t, v). keep_rounded retain v) (sort_key id ch))"
    by (simp add: rounded_channel_alt[OF assms] case_prod_beta o_def)
  show "distinct (dkeys (rounded_channel retain ch))"
    unfolding e using distinct_fst_sort[OF assms] by (rule distinct_map_filter)
  have "sorted (sort_key id ch)" using sorted_sort_key[of id ch] by simp
  then have "sorted (map fst (sort_key id ch))"
    by (rule sorted_map_mono) (auto simp: mono_on_def less_eq_prod_def)
  then show "sorted (dkeys (rounded_channel retain ch))"
    unfolding e by (simp add: sorted_filter)
qed

lemma dget_rounded_channel:
  assumes "distinct (dkeys ch)"
  shows "dget (rounded_channel retain ch) k =
    (case dget ch k of None \<Rightarrow> None
     | Some v \<Rightarrow> if keep_rounded retain v then Some (py_round 10 v) else None)"
proof -
  have ds: "distinct (dkeys (sort_key id ch))" by (rule distinct_fst_sort[OF assms])
  have g: "dget (map (\<lambda>(t, v). (t, py_round 10 v)) (filter (\<lambda>(t, v). keep_rounded retain v) xs)) k =
    (case dget xs k of None \<Rightarrow> None
     | Some v \<Rightarrow> if keep_rounded retain v then Some (py_round 10 v) else None)"
    if "distinct (dkeys xs)" for xs
    using that
  proof (induction xs)
    case (Cons x xs)
    moreover have "dget xs (fst x) = None" using Cons.prems by (simp add: map_of_eq_None_iff)
    ultimately show ?case by (cases x) auto
  qed simp
  have "dget (sort_key id ch) = dget ch"
    by (rule map_of_inject_set[THEN iffD2, OF ds assms]) simp
  then show ?thesis unfolding rounded_channel_alt[OF assms] by (simp add: g[OF ds])
qed

lemma keep_rounded_pos: "keep_rounded False v \<longleftrightarrow> py_round 10 v > 0"
proof -
  have "1 / 10 ^ 12 < py_round 10 v" if "py_round 10 v > 0"
  proof -
    from that have "round_half_even (v * 10 ^ 10) > 0" by (simp add: py_round_def zero_less_divide_iff)
    then have "(1::real) \<le> of_int (round_half_even (v * 10 ^ 10))" by linarith
    then have "1 / 10 ^ 10 \<le> py_round 10 v" unfolding py_round_def by (rule divide_right_mono) simp
    then show ?thesis by simp
  qed
  then show ?thesis by (auto simp: keep_rounded_def)
qed

lemma dget_default_rounded:
  assumes "distinct (dkeys ch)" "0 \<le> dget_default ch k 0"
  shows "dget_default (rounded_channel False ch) k 0 = py_round 10 (dget_default ch k 0)"
proof -
  have "0 \<le> py_round 10 (dget_default ch k 0)" using assms(2) by (rule py_round_nonneg)
  then show ?thesis
    by (auto simp: dget_default_def dget_rounded_channel[OF assms(1)] keep_rounded_pos split: option.splits)
qed

lemma rounded_entry_pos:
  assumes "distinct (dkeys ch)" "(k, v) \<in> set (rounded_channel False ch)"
  shows "0 < v"
  using assms(2) by (auto simp: rounded_channel_alt[OF assms(1)] keep_rounded_pos)

lemma vector_channels:
  assumes "0 < bound"
  shows "dget_default (pv_positive (vector_of_contributions ref hl bound cs)) k 0 =
      py_round 10 (min bound (topic_mass True ref hl cs k))"
    "dget_default (pv_negative (vector_of_contributions ref hl bound cs)) k 0 =
      py_round 10 (min bound (topic_mass False ref hl cs k))"
    "pv_reference_at (vector_of_contributions ref hl bound cs) = ref"
    "pv_source_event_count (vector_of_contributions ref hl bound cs) = length cs"
proof -
  obtain p n where pn: "foldl (contribute ref hl bound) ([], []) cs = (p, n)" by fastforce
  note v = channels_values[OF assms pn] and d = channels_distinct[OF pn]
  have nn: "0 \<le> min bound (topic_mass s ref hl cs k)" for s
    using assms topic_mass_nonneg by (simp add: less_imp_le)
  show "dget_default (pv_positive (vector_of_contributions ref hl bound cs)) k 0 =
      py_round 10 (min bound (topic_mass True ref hl cs k))"
    "dget_default (pv_negative (vector_of_contributions ref hl bound cs)) k 0 =
      py_round 10 (min bound (topic_mass False ref hl cs k))"
    using v nn d by (simp_all add: vector_of_contributions_def pn dget_default_rounded)
qed (simp_all add: vector_of_contributions_def case_prod_beta Let_def)

section \<open>Order, duplicates and future events\<close>

lemma aware_utc_error: "aware_utc d = Inl e \<Longrightarrow> e = ValueError ''event timestamps must include a timezone''"
  by (cases d) auto

lemma order_events_perm:
  assumes "mset evs = mset evs'" "inj_on pe_event_id (set evs)"
  shows "order_events evs = order_events evs'"
proof -
  have "sorted_res replay_sort_key evs = sorted_res replay_sort_key evs'"
  proof (rule sorted_res_perm[OF assms(1)])
    show "\<And>x e. x \<in> set evs \<Longrightarrow> replay_sort_key x = Inl e \<Longrightarrow>
        e = ValueError ''event timestamps must include a timezone''"
      by (auto simp: replay_sort_key_def bind_res_Inl dest: aware_utc_error)
    show "\<And>x x' k. x \<in> set evs \<Longrightarrow> x' \<in> set evs \<Longrightarrow> replay_sort_key x = Inr k \<Longrightarrow>
        replay_sort_key x' = Inr k \<Longrightarrow> x = x'"
      using assms(2) by (auto simp: replay_sort_key_def inj_on_def)
  qed
  then show ?thesis by (simp add: order_events_def)
qed

definition datetimes_max :: "datetime set \<Rightarrow> datetime res" where
  "datetimes_max D =
     (if \<forall>d\<in>D. tz_missing d then Inr (Naive (Max (wall_of ` D)))
      else if \<forall>d\<in>D. \<not> tz_missing d then Inr (Aware (Max (wall_of ` D)))
      else Inl (TypeError ''can't compare offset-naive and offset-aware datetimes''))"

lemma dt_less_cases:
  "dt_less a b = (if tz_missing a = tz_missing b then Inr (wall_of a < wall_of b)
     else Inl (TypeError ''can't compare offset-naive and offset-aware datetimes''))"
  by (cases a; cases b) auto

lemma datetimes_max_singleton: "datetimes_max {d} = Inr d"
  by (cases d) (auto simp: datetimes_max_def)

lemma max_datetime_set: "max_datetime d ds = datetimes_max (insert d (set ds))"
proof (induction ds arbitrary: d)
  case Nil
  then show ?case by (simp add: max_datetime_def datetimes_max_singleton)
next
  case (Cons x ds)
  show ?case
  proof (cases "tz_missing d = tz_missing x")
    case False
    then show ?thesis
      by (auto simp: max_datetime_def dt_less_cases datetimes_max_def)
  next
    case True
    let ?m = "if wall_of d < wall_of x then x else d"
    have "max_datetime d (x # ds) = max_datetime ?m ds"
      using True by (simp add: max_datetime_def dt_less_cases)
    also have "\<dots> = datetimes_max (insert ?m (set ds))" by (rule Cons.IH)
    also have "\<dots> = datetimes_max (insert d (set (x # ds)))"
    proof -
      have "Max (wall_of ` insert ?m (set ds)) = Max (wall_of ` insert d (insert x (set ds)))"
        by (cases ds) (auto simp: max_def)
      moreover have "(\<forall>e\<in>insert ?m (set ds). tz_missing e) \<longleftrightarrow>
          (\<forall>e\<in>insert d (insert x (set ds)). tz_missing e)"
        "(\<forall>e\<in>insert ?m (set ds). \<not> tz_missing e) \<longleftrightarrow>
          (\<forall>e\<in>insert d (insert x (set ds)). \<not> tz_missing e)"
        using True by auto
      ultimately show ?thesis
        unfolding datetimes_max_def list.set(2) by (simp only:)
    qed
    finally show ?thesis .
  qed
qed

lemma unique_events_le: "(t, e) \<in> set (unique_events ref seen evs) \<Longrightarrow> t \<le> ref \<and> (t, e) \<in> set evs"
  by (induction ref seen evs rule: unique_events.induct) (auto split: if_splits)

lemma unique_events_filter:
  "unique_events ref seen (filter (\<lambda>(t, e). t \<le> ref) evs) = unique_events ref seen evs"
  by (induction ref seen evs rule: unique_events.induct) auto

lemma unique_events_distinct:
  "distinct (map (pe_event_id \<circ> snd) (unique_events ref seen evs)) \<and>
     set seen \<inter> pe_event_id ` snd ` set (unique_events ref seen evs) = {}"
  by (induction ref seen evs rule: unique_events.induct) auto

section \<open>Replay invariants\<close>

lemma replay_snoc: "replay q (evs @ [te]) = replay_step q (replay q evs) te"
  by (simp add: replay_def)

lemma replay_read_active [simp]: "rs_active (replay_read q e t st) = rs_active st"
  by (auto simp: replay_read_def replay_direct_read_def add_read_def Let_def split: option.splits)

definition toggles :: "string \<Rightarrow> string \<Rightarrow> pref_event \<Rightarrow> bool" where
  "toggles post ty e \<longleftrightarrow> pe_post_id e = post \<and> (pe_event_type e = ty \<or> pe_event_type e = ''un'' @ ty)"

text \<open>The reaction a user holds on a post: the last event of the pair, when it is not the reversal.\<close>

definition held_reaction :: "string \<Rightarrow> string \<Rightarrow> (instant \<times> pref_event) list \<Rightarrow> pref_event option" where
  "held_reaction post ty evs =
     (case find (toggles post ty) (rev (map snd evs)) of
        Some e \<Rightarrow> if pe_event_type e = ty then Some e else None
      | None \<Rightarrow> None)"

lemma dget_dpop [simp]: "dget (dpop d k) k' = (if k = k' then None else dget d k')"
  by (simp add: delete_conv')

lemma held_reaction_snoc:
  "held_reaction post ty (evs @ [(t, e)]) =
     (if toggles post ty e then (if pe_event_type e = ty then Some e else None)
      else held_reaction post ty evs)"
  by (simp add: held_reaction_def)

lemma dget_pref_reversals:
  "dget pref_reversals t =
     (if t = ''unlike'' then Some ''like'' else if t = ''unsave'' then Some ''save''
      else if t = ''unshare'' then Some ''share'' else if t = ''unhide'' then Some ''hide'' else None)"
  by (simp add: pref_reversals_def)

lemma replay_active_held:
  assumes "ty \<in> STATEFUL_EVENTS"
  shows "dget (rs_active (replay q evs)) (post, ty) = held_reaction post ty evs"
proof (induction evs rule: rev_induct)
  case Nil
  then show ?case by (simp add: replay_def replay_init_def held_reaction_def)
next
  case (snoc te evs)
  obtain t e where te: "te = (t, e)" by fastforce
  have ty: "ty = ''like'' \<or> ty = ''save'' \<or> ty = ''share'' \<or> ty = ''hide''"
    using assms by (simp add: STATEFUL_EVENTS_def)
  show ?case
    unfolding te replay_snoc held_reaction_snoc snoc.IH[symmetric]
    using ty by (elim disjE)
      (simp_all add: replay_step_def Let_def STATEFUL_EVENTS_def dget_pref_reversals toggles_def)
qed

text \<open>Qualified reads are counted once per impression and once per (session, post, visit).\<close>

definition is_read :: "pref_event \<Rightarrow> bool" where
  "is_read e \<longleftrightarrow> pe_event_type e \<in> {''view'', ''dwell''}"

definition counted_impressions :: "(pref_event \<times> string) list \<Rightarrow> string list" where
  "counted_impressions cs =
     List.map_filter (\<lambda>(e, _). if is_read e then pe_impression_id e else None) cs"

definition counted_visits :: "(pref_event \<times> string) list \<Rightarrow> (string option \<times> string \<times> string) list" where
  "counted_visits cs =
     List.map_filter (\<lambda>(e, _). if is_read e \<and> pe_impression_id e = None
        then map_option (\<lambda>v. (pe_session_id e, pe_post_id e, v)) (pe_visit_id e) else None) cs"

lemma counted_append [simp]:
  "counted_impressions (cs @ ds) = counted_impressions cs @ counted_impressions ds"
  "counted_visits (cs @ ds) = counted_visits cs @ counted_visits ds"
  by (simp_all add: counted_impressions_def counted_visits_def List.map_filter_def)

definition reads_inv :: "replay_state \<Rightarrow> bool" where
  "reads_inv st \<longleftrightarrow>
     counted_impressions (rs_additive st) = rs_impression_reads st \<and> distinct (rs_impression_reads st) \<and>
     counted_visits (rs_additive st) = rs_visit_reads st \<and> distinct (rs_visit_reads st)"

lemma reads_inv_read:
  assumes "reads_inv st" "is_read e"
  shows "reads_inv (replay_read q e t st)"
  using assms
  by (auto simp: reads_inv_def replay_read_def replay_direct_read_def add_read_def Let_def
      counted_impressions_def counted_visits_def List.map_filter_def split: option.splits if_splits)

lemma reads_inv_replay: "reads_inv (replay q evs)"
proof (induction evs rule: rev_induct)
  case Nil
  then show ?case
    by (simp add: reads_inv_def replay_def replay_init_def counted_impressions_def counted_visits_def
        List.map_filter_def)
next
  case (snoc te evs)
  obtain t e where te: "te = (t, e)" by fastforce
  show ?case
  proof (cases "is_read e")
    case True
    then show ?thesis using reads_inv_read[OF snoc.IH True]
      by (simp add: te replay_snoc replay_step_def is_read_def)
  next
    case False
    then show ?thesis using snoc.IH
      by (auto simp: te replay_snoc replay_step_def is_read_def Let_def reads_inv_def
          counted_impressions_def counted_visits_def List.map_filter_def split: option.splits)
  qed
qed

lemma active_step:
  assumes "(k, e) \<in> set (rs_active (replay_step q st (t, x)))"
  shows "(k, e) \<in> set (rs_active st) \<or>
    (e = x \<and> k = (pe_post_id x, pe_event_type x) \<and> pe_event_type x \<in> STATEFUL_EVENTS)"
  using assms
  by (auto simp: replay_step_def Let_def AList.delete_eq split: option.splits if_splits dest!: dset_entry)

lemma active_not_read:
  "(k, e) \<in> set (rs_active (replay q evs)) \<Longrightarrow>
     k = (pe_post_id e, pe_event_type e) \<and> pe_event_type e \<in> STATEFUL_EVENTS"
proof (induction evs rule: rev_induct)
  case Nil
  then show ?case by (simp add: replay_def replay_init_def)
next
  case (snoc te evs)
  then show ?case using active_step[of k e q "replay q evs" "fst te" "snd te"]
    by (auto simp: replay_snoc)
qed

lemma counted_contributions:
  "counted_impressions (contributions_of (replay q evs)) = counted_impressions (rs_additive (replay q evs))"
  "counted_visits (contributions_of (replay q evs)) = counted_visits (rs_additive (replay q evs))"
proof -
  let ?act = "map (\<lambda>((_, event_type), event). (event, event_type)) (rs_active (replay q evs))"
  have n: "\<not> is_read e" if "(e, ty) \<in> set ?act" for e ty
    using that active_not_read[of "(_, _)" e q evs] by (fastforce simp: is_read_def STATEFUL_EVENTS_def)
  have "counted_impressions ?act = []" "counted_visits ?act = []"
    using n by (force simp: counted_impressions_def counted_visits_def List.map_filter_def filter_empty_conv)+
  then show "counted_impressions (contributions_of (replay q evs)) = counted_impressions (rs_additive (replay q evs))"
    "counted_visits (contributions_of (replay q evs)) = counted_visits (rs_additive (replay q evs))"
    by (simp_all add: contributions_of_def)
qed

section \<open>Redelivery\<close>

lemma unique_events_snoc:
  "unique_events ref seen (xs @ [(t, e)]) =
     unique_events ref seen xs @
     (if pe_event_id e \<in> set seen \<union> pe_event_id ` snd ` set (unique_events ref seen xs) \<or> t > ref
      then [] else [(t, e)])"
  by (induction ref seen xs rule: unique_events.induct) auto

lemma unique_events_covers:
  "(t, e) \<in> set xs \<Longrightarrow> t > ref \<or>
     pe_event_id e \<in> set seen \<union> pe_event_id ` snd ` set (unique_events ref seen xs)"
  by (induction ref seen xs rule: unique_events.induct) auto

lemma unique_events_dedup: "unique_events ref seen (dedup xs) = unique_events ref seen xs"
proof (induction xs rule: rev_induct)
  case (snoc x xs)
  obtain t e where "x = (t, e)" by fastforce
  with snoc unique_events_covers[of t e xs ref seen] show ?case
    by (auto simp: dedup_snoc unique_events_snoc)
qed simp

definition replay_key :: "pref_event \<Rightarrow> instant \<times> string \<times> string \<times> string \<times> string list" where
  "replay_key e = (wall_of (pe_occurred_at e), pe_event_id e, pe_post_id e, pe_event_type e, pe_topics e)"

lemma replay_sort_key_Inr:
  "replay_sort_key e = Inr k \<longleftrightarrow> \<not> tz_missing (pe_occurred_at e) \<and> k = replay_key e"
  by (cases "pe_occurred_at e") (auto simp: replay_sort_key_def replay_key_def)

lemma order_events_Inr:
  assumes "order_events evs = Inr ordered"
  shows "set ordered = (\<lambda>e. (wall_of (pe_occurred_at e), e)) ` set evs"
    "sorted (map (replay_key \<circ> snd) ordered)" "\<forall>e\<in>set evs. \<not> tz_missing (pe_occurred_at e)"
proof -
  obtain kxs where kxs: "sorted_res replay_sort_key evs = Inr kxs"
    and od: "ordered = map (\<lambda>(k, e). (fst k, e)) kxs"
    using assms by (auto simp: order_events_def)
  note D = sorted_res_InrD[OF kxs]
  have key: "k = replay_key e" if "(k, e) \<in> set kxs" for k e
    using D(3)[OF that] by (simp add: replay_sort_key_Inr)
  have sets: "snd ` set kxs = set evs" using D(1) by (metis set_map set_mset_mset)
  show "set ordered = (\<lambda>e. (wall_of (pe_occurred_at e), e)) ` set evs"
    unfolding od sets[symmetric] using key by (force simp: replay_key_def)
  have "map (replay_key \<circ> snd) ordered = map fst kxs"
    using key by (auto simp: od)
  with D(2) show "sorted (map (replay_key \<circ> snd) ordered)" by simp
  show "\<forall>e\<in>set evs. \<not> tz_missing (pe_occurred_at e)"
    using D(3) sets by (fastforce simp: replay_sort_key_Inr)
qed

lemma order_events_Inl:
  "order_events evs = Inl err \<Longrightarrow> err = ValueError ''event timestamps must include a timezone'' \<and>
     (\<exists>e\<in>set evs. tz_missing (pe_occurred_at e))"
proof -
  assume "order_events evs = Inl err"
  then obtain e where "e \<in> set evs" "replay_sort_key e = Inl err"
    by (auto simp: order_events_def sorted_res_def bind_res_Inl dest!: map_res_Inl)
  then have "err = ValueError ''event timestamps must include a timezone'' \<and> tz_missing (pe_occurred_at e)"
    by (cases "pe_occurred_at e") (auto simp: replay_sort_key_def bind_res_Inl)
  with \<open>e \<in> set evs\<close> show ?thesis by blast
qed

lemma unique_order_set:
  assumes "set evs = set evs'" "inj_on pe_event_id (set evs)"
  shows "bind_res (order_events evs) (\<lambda>os. Inr (unique_events ref [] os)) =
    bind_res (order_events evs') (\<lambda>os. Inr (unique_events ref [] os))"
proof (cases "order_events evs")
  case (Inl err)
  then obtain err' where "order_events evs' = Inl err'"
    using order_events_Inl[OF Inl] order_events_Inr(3)[of evs'] assms(1)
    by (cases "order_events evs'") auto
  then show ?thesis using Inl order_events_Inl[OF Inl] order_events_Inl[of evs' err'] by simp
next
  case (Inr os)
  then obtain os' where os': "order_events evs' = Inr os'"
    using order_events_Inl[of evs'] order_events_Inr(3)[OF Inr] assms(1)
    by (cases "order_events evs'") auto
  note A = order_events_Inr[OF Inr] and B = order_events_Inr[OF os']
  have "dedup os = dedup os'"
  proof (rule sorted_distinct_map_unique[where f = "replay_key \<circ> snd"])
    show "set (dedup os) = set (dedup os')" using A(1) B(1) assms(1) by simp
    show "inj_on (replay_key \<circ> snd) (set (dedup os))"
      using assms(2) by (auto simp: A(1) inj_on_def replay_key_def)
    show "sorted (map (replay_key \<circ> snd) (dedup os))" "sorted (map (replay_key \<circ> snd) (dedup os'))"
      using A(2) B(2) by (auto intro: sorted_dedup)
  qed simp_all
  then have "unique_events ref [] os = unique_events ref [] os'" by (metis unique_events_dedup)
  with Inr os' show ?thesis by simp
qed

lemma build_alt:
  "build_preference_vector_v2 now evs reference hl bound q =
     (if hl \<le> 0 \<or> bound \<le> 0 then Inl (ValueError ''half_life_hours and channel_bound must be positive'')
      else
        bind_res (case reference of Some d \<Rightarrow> Inr d
                  | None \<Rightarrow> if set evs = {} then Inr (Aware now) else datetimes_max (pe_occurred_at ` set evs)) (\<lambda>ref.
        bind_res (aware_utc ref) (\<lambda>reference_at.
        bind_res (bind_res (order_events evs) (\<lambda>os. Inr (unique_events reference_at [] os))) (\<lambda>u.
          Inr (vector_of_contributions reference_at hl bound (contributions_of (replay q u)))))))"
proof -
  have assoc: "bind_res (bind_res m (\<lambda>x. Inr (f x))) g = bind_res m (\<lambda>x. g (f x))" for m f g
    by (cases m) auto
  have c: "(case map pe_occurred_at evs of [] \<Rightarrow> Inr (Aware now) | d # ds \<Rightarrow> max_datetime d ds) =
      (if set evs = {} then Inr (Aware now) else datetimes_max (pe_occurred_at ` set evs))"
    by (cases evs) (auto simp: max_datetime_set)
  show ?thesis by (simp only: build_preference_vector_v2_def assoc c)
qed

lemma order_events_filter:
  assumes "order_events evs = Inr os"
  shows "order_events (filter (\<lambda>e. wall_of (pe_occurred_at e) \<le> r) evs) = Inr (filter (\<lambda>(t, e). t \<le> r) os)"
proof -
  let ?P = "\<lambda>e. wall_of (pe_occurred_at e) \<le> r" and ?g = "\<lambda>e. (replay_key e, e)"
  have aw: "\<forall>e\<in>set evs. \<not> tz_missing (pe_occurred_at e)" by (rule order_events_Inr(3)[OF assms])
  have s: "order_events xs = Inr (map (\<lambda>(k, e). (fst k, e)) (sort_key fst (map ?g xs)))"
    if "\<forall>e\<in>set xs. \<not> tz_missing (pe_occurred_at e)" for xs
  proof -
    have "map_res (\<lambda>x. bind_res (replay_sort_key x) (\<lambda>k. Inr (k, x))) xs = Inr (map ?g xs)"
      using that by (intro map_res_map) (auto simp: replay_sort_key_Inr)
    then show ?thesis by (simp add: order_events_def sorted_res_def)
  qed
  have "filter (\<lambda>(t, e). t \<le> r) (map (\<lambda>(k, e). (fst k, e)) (sort_key fst (map ?g evs))) =
      map (\<lambda>(k, e). (fst k, e)) (sort_key fst (map ?g (filter ?P evs)))"
  proof -
    have "filter ((\<lambda>(t, e). t \<le> r) \<circ> (\<lambda>(k, e). (fst k, e))) (sort_key fst (map ?g evs)) =
        sort_key fst (filter ((\<lambda>(t, e). t \<le> r) \<circ> (\<lambda>(k, e). (fst k, e))) (map ?g evs))"
      by (rule filter_sort)
    moreover have "filter ((\<lambda>(t, e). t \<le> r) \<circ> (\<lambda>(k, e). (fst k, e))) (map ?g evs) = map ?g (filter ?P evs)"
      by (simp add: filter_map o_def replay_key_def)
    ultimately show ?thesis by (simp add: filter_map)
  qed
  then show ?thesis using s[OF aw] s[of "filter ?P evs"] aw assms by auto
qed

section \<open>Blending and decay\<close>

lemma normalize_channel_bounds:
  assumes "(t, v) \<in> set (normalize_channel ch)"
  shows "0 < v \<and> v \<le> 1"
proof -
  let ?total = "sum_list (map (\<lambda>v. max 0 v) (dvalues ch))"
  from assms obtain w where w: "(t, w) \<in> set ch" "w > 0" "0 < ?total" "v = max 0 w / ?total"
    by (auto simp: normalize_channel_def Let_def split: if_splits)
  have "max 0 w \<in> set (map (\<lambda>v. max 0 v) (dvalues ch))" using w(1) by force
  then have "max 0 w \<le> ?total" by (intro member_le_sum_list) auto
  with w show ?thesis by (simp add: divide_le_eq)
qed

lemma dkeys_normalize_channel: "distinct (dkeys ch) \<Longrightarrow> distinct (dkeys (normalize_channel ch))"
  by (auto simp: normalize_channel_def Let_def case_prod_beta o_def intro!: distinct_map_filter)

lemma dget_default_Cons_distinct:
  "distinct (dkeys ((t, v) # ch)) \<Longrightarrow>
     dget_default ((t, v) # ch) k 0 = (if k = t then v else dget_default ch k (0::real))"
  by (simp add: dget_default_def)

lemma merge_channel_value:
  assumes "distinct (dkeys ch)"
  shows "dget_default (merge_channel c m ch) k 0 = dget_default m k 0 + c * dget_default ch k 0"
  using assms
proof (induction ch arbitrary: m)
  case Nil
  then show ?case by (simp add: merge_channel_def dget_default_def)
next
  case (Cons x ch)
  obtain t v where x: "x = (t, v)" by fastforce
  have "dget ch t = None" using Cons.prems by (simp add: x map_of_eq_None_iff)
  then have t0: "dget_default ch t 0 = 0" by (simp add: dget_default_def)
  have "merge_channel c m (x # ch) = merge_channel c (dset m t (dget_default m t 0 + c * v)) ch"
    by (simp add: merge_channel_def x)
  then show ?case
    using Cons t0 dget_default_Cons_distinct[of t v ch k] by (auto simp: x)
qed

lemma distinct_merge_channel: "distinct (dkeys m) \<Longrightarrow> distinct (dkeys (merge_channel c m ch))"
  by (induction ch arbitrary: m) (auto simp: merge_channel_def case_prod_beta)

lemma dget_default_bounds:
  assumes "\<And>t v. (t, v) \<in> set ch \<Longrightarrow> 0 < v \<and> v \<le> (1::real)"
  shows "0 \<le> dget_default ch k 0 \<and> dget_default ch k 0 \<le> 1"
  using assms by (cases "dget ch k") (auto simp: dget_default_def less_imp_le dest!: map_of_SomeD)

lemma exp2_decay: "0 \<le> x \<Longrightarrow> 0 < exp2 (- x) \<and> exp2 (- x) \<le> 1"
  by (auto simp: exp2_def powr_minus intro!: inverse_le_1_iff[THEN iffD2] ge_one_powr_ge_zero)

section \<open>Properties\<close>

definition demo_pref :: "string \<Rightarrow> string \<Rightarrow> string \<Rightarrow> int \<Rightarrow> pref_event" where
  "demo_pref i post ty t = \<lparr>pe_event_id = i, pe_post_id = post, pe_event_type = ty,
     pe_topics = [''ai''], pe_occurred_at = Aware t, pe_impression_id = None, pe_session_id = None,
     pe_visit_id = None, pe_dwell_ms = None, pe_read_trigger = None\<rparr>"

lemma demo_pref_simps [simp]:
  "pe_event_id (demo_pref i post ty t) = i" "pe_occurred_at (demo_pref i post ty t) = Aware t"
  "pe_post_id (demo_pref i post ty t) = post" "pe_event_type (demo_pref i post ty t) = ty"
  "pe_topics (demo_pref i post ty t) = [''ai'']"
  by (simp_all add: demo_pref_def)

text \<open>
  C20. Every entry of a built vector is the clamped total of the decayed shares its topic receives
  from the contributions of the replayed events (rounded to ten decimals), in each channel, and the
  event count is the number of contributions.
\<close>

theorem build_vector_values:
  assumes "build_preference_vector_v2 now evs reference hl bound q = Inr v"
  shows "\<exists>ordered cs. order_events evs = Inr ordered \<and>
    cs = contributions_of (replay q (unique_events (pv_reference_at v) [] ordered)) \<and>
    pv_source_event_count v = length cs \<and>
    (\<forall>k. dget_default (pv_positive v) k 0 =
           py_round 10 (min bound (topic_mass True (pv_reference_at v) hl cs k)) \<and>
         dget_default (pv_negative v) k 0 =
           py_round 10 (min bound (topic_mass False (pv_reference_at v) hl cs k)))"
  using assms by (auto simp: build_preference_vector_v2_def vector_channels split: if_splits)

lemma demo_build:
  "\<exists>v. build_preference_vector_v2 0 [demo_pref ''1'' ''p'' ''like'' 0] None 720 10 10000 = Inr v"
  by (simp add: build_preference_vector_v2_def max_datetime_def order_events_def sorted_res_def
      replay_sort_key_def)

theorem build_vector_values_witness:
  "\<exists>v ordered cs. build_preference_vector_v2 0 [demo_pref ''1'' ''p'' ''like'' 0] None 720 10 10000 = Inr v \<and>
    order_events [demo_pref ''1'' ''p'' ''like'' 0] = Inr ordered \<and>
    cs = contributions_of (replay 10000 (unique_events (pv_reference_at v) [] ordered)) \<and>
    pv_source_event_count v = length cs"
proof -
  obtain v where v: "build_preference_vector_v2 0 [demo_pref ''1'' ''p'' ''like'' 0] None 720 10 10000 = Inr v"
    using demo_build by blast
  from build_vector_values[OF v] v show ?thesis by blast
qed

text \<open>
  Channels are well formed: keys are distinct and sorted, and every stored weight is positive and
  at most the (rounded) channel bound.
\<close>

theorem build_vector_bounded:
  assumes "build_preference_vector_v2 now evs reference hl bound q = Inr v"
    and "ch = pv_positive v \<or> ch = pv_negative v"
  shows "distinct (dkeys ch) \<and> sorted (dkeys ch) \<and> (\<forall>(k, w) \<in> set ch. 0 < w \<and> w \<le> py_round 10 bound)"
proof -
  from assms(1) obtain ref cs where v: "v = vector_of_contributions ref hl bound cs" and b: "0 < bound"
    by (auto simp: build_preference_vector_v2_def split: if_splits)
  obtain p n where pn: "foldl (contribute ref hl bound) ([], []) cs = (p, n)" by fastforce
  obtain raw where raw: "ch = rounded_channel False raw" "distinct (dkeys raw)"
    using assms(2) channels_distinct[OF pn] by (auto simp: v vector_of_contributions_def pn)
  have "0 < w \<and> w \<le> py_round 10 bound" if "(k, w) \<in> set ch" for k w
  proof -
    have "dget ch k = Some w" using that dkeys_rounded_channel(1)[OF raw(2)] raw(1) by (simp add: map_of_is_SomeI)
    then have "w = dget_default ch k 0" by (simp add: dget_default_def)
    moreover have "dget_default ch k 0 \<le> py_round 10 bound"
      using assms(2) vector_channels(1,2)[OF b, of ref hl cs k] by (auto simp: v intro!: py_round_mono)
    ultimately show ?thesis using rounded_entry_pos[OF raw(2)] that raw(1) by simp
  qed
  then show ?thesis using dkeys_rounded_channel[OF raw(2)] raw(1) by auto
qed

theorem build_vector_bounded_witness:
  "\<exists>v. build_preference_vector_v2 0 [demo_pref ''1'' ''p'' ''like'' 0] None 720 10 10000 = Inr v \<and>
    sorted (dkeys (pv_positive v)) \<and> (\<forall>(k, w) \<in> set (pv_positive v). 0 < w \<and> w \<le> py_round 10 10)"
proof -
  obtain v where v: "build_preference_vector_v2 0 [demo_pref ''1'' ''p'' ''like'' 0] None 720 10 10000 = Inr v"
    using demo_build by blast
  from build_vector_bounded[OF v, where ch = "pv_positive v"] v show ?thesis by blast
qed

text \<open>
  C21. Replay is independent of Kafka delivery: when event ids identify events, any two event lists
  with the same set of events (any order, any number of redeliveries) give the same vector, or the
  same exception.
\<close>

theorem build_vector_delivery_free:
  assumes "set evs = set evs'" "inj_on pe_event_id (set evs)"
  shows "build_preference_vector_v2 now evs reference hl bound q =
    build_preference_vector_v2 now evs' reference hl bound q"
  unfolding build_alt assms(1) unique_order_set[OF assms] ..

theorem build_vector_delivery_free_witness:
  "build_preference_vector_v2 0 [demo_pref ''2'' ''p'' ''unlike'' 5, demo_pref ''1'' ''p'' ''like'' 0,
       demo_pref ''1'' ''p'' ''like'' 0] None 720 10 10000 =
   build_preference_vector_v2 0 [demo_pref ''1'' ''p'' ''like'' 0, demo_pref ''2'' ''p'' ''unlike'' 5]
     None 720 10 10000"
  by (rule build_vector_delivery_free) (auto simp: inj_on_def)

text \<open>
  A rebuild at a reference time sees no future state: for aware events, dropping everything after
  the reference time changes nothing.
\<close>

theorem build_vector_no_future:
  assumes "\<forall>e\<in>set evs. \<not> tz_missing (pe_occurred_at e)"
  shows "build_preference_vector_v2 now evs (Some (Aware r)) hl bound q =
    build_preference_vector_v2 now (filter (\<lambda>e. wall_of (pe_occurred_at e) \<le> r) evs) (Some (Aware r)) hl bound q"
proof -
  obtain os where os: "order_events evs = Inr os"
    using order_events_Inl[of evs] assms by (cases "order_events evs") auto
  show ?thesis
    unfolding build_preference_vector_v2_def os order_events_filter[OF os]
    by (simp add: unique_events_filter)
qed

theorem build_vector_no_future_witness:
  "build_preference_vector_v2 0 [demo_pref ''2'' ''p'' ''hide'' 5, demo_pref ''1'' ''p'' ''like'' 0]
     (Some (Aware 3)) 720 10 10000 =
   build_preference_vector_v2 0 [demo_pref ''1'' ''p'' ''like'' 0] (Some (Aware 3)) 720 10 10000"
  using build_vector_no_future[of "[demo_pref ''2'' ''p'' ''hide'' 5, demo_pref ''1'' ''p'' ''like'' 0]" 0 3 720 10 10000]
  by simp

lemma additive_not_stateful:
  "(e, ty) \<in> set (rs_additive (replay q evs)) \<Longrightarrow> ty \<notin> STATEFUL_EVENTS"
proof (induction evs rule: rev_induct)
  case Nil
  then show ?case by (simp add: replay_def replay_init_def)
next
  case (snoc te evs)
  have "(e, ty) \<in> set (rs_additive st) \<or> ty \<notin> STATEFUL_EVENTS"
    if "(e, ty) \<in> set (rs_additive (replay_step q st te))" for st
    using that
    by (auto simp: replay_step_def replay_read_def replay_direct_read_def add_read_def Let_def STATEFUL_EVENTS_def
        split: prod.splits option.splits if_splits)
  then show ?case using snoc by (auto simp: replay_snoc)
qed

lemma distinct_active: "distinct (dkeys (rs_active (replay q evs)))"
proof (induction evs rule: rev_induct)
  case Nil
  then show ?case by (simp add: replay_def replay_init_def)
next
  case (snoc te evs)
  then show ?case
    by (auto simp: replay_snoc replay_step_def Let_def distinct_delete split: prod.splits option.splits)
qed

text \<open>
  Reversals remove state: a like, save, share or hide contributes exactly when it is the last
  event of its pair for the post, once per post and kind.
\<close>

theorem replay_reactions:
  assumes "ty \<in> STATEFUL_EVENTS"
  shows "(e, ty) \<in> set (contributions_of (replay q evs)) \<longleftrightarrow> held_reaction (pe_post_id e) ty evs = Some e"
proof -
  let ?act = "rs_active (replay q evs)"
  have "(e, ty) \<in> set (contributions_of (replay q evs)) \<longleftrightarrow> (\<exists>post. ((post, ty), e) \<in> set ?act)"
    using additive_not_stateful[of e ty q evs] assms by (force simp: contributions_of_def)
  also have "\<dots> \<longleftrightarrow> ((pe_post_id e, ty), e) \<in> set ?act"
    using active_not_read[of _ e q evs] by blast
  also have "\<dots> \<longleftrightarrow> dget ?act (pe_post_id e, ty) = Some e"
    using distinct_active by (metis map_of_SomeD map_of_is_SomeI)
  finally show ?thesis by (simp add: replay_active_held[OF assms])
qed

theorem replay_reactions_witness:
  "(demo_pref ''1'' ''p'' ''like'' 0, ''like'') \<notin> set (contributions_of
     (replay 10000 [(0, demo_pref ''1'' ''p'' ''like'' 0), (5, demo_pref ''2'' ''p'' ''unlike'' 5)]))"
  by (subst replay_reactions) (simp_all add: STATEFUL_EVENTS_def held_reaction_def toggles_def)

text \<open>
  A read is evidence once: no impression and no (session, post, visit) triple is counted as a
  qualified read twice, however many view and dwell events report it.
\<close>

theorem replay_reads_once:
  "distinct (counted_impressions (contributions_of (replay q evs))) \<and>
   distinct (counted_visits (contributions_of (replay q evs)))"
  using reads_inv_replay[of q evs] by (simp add: counted_contributions reads_inv_def)

text \<open>
  The blend of behaviour and declared interests is bounded: every merged weight lies in
  \<open>[-1, 1]\<close>, whatever the channel magnitudes, because each source is normalised on its own and the
  coefficients are scaled to sum to one.
\<close>

theorem blend_bounded:
  assumes "blend_preference_channels pos neg topics bc dc conf = Inr m"
    and "distinct (dkeys pos)" "distinct (dkeys neg)"
  shows "sorted (dkeys m) \<and> (\<forall>k. \<bar>dget_default m k 0\<bar> \<le> 1)"
proof (cases "bc + dc \<le> 0")
  case True
  with assms(1) show ?thesis
    by (auto simp: blend_preference_channels_def Let_def dget_default_def split: if_splits)
next
  case False
  define b d where "b = bc / (bc + dc)" and "d = dc / (bc + dc)"
  define c where "c = b * min 1 (max 0 conf)"
  define decl where "decl = sorted_list_of_set (set (filter (\<lambda>t. t \<noteq> []) topics))"
  define dn where "dn = map (\<lambda>t. (t, 1 / real (length decl))) decl"
  define m3 where "m3 = merge_channel d (merge_channel (- c) (merge_channel c [] (normalize_channel pos))
      (normalize_channel neg)) dn"
  have nn: "0 \<le> bc" "0 \<le> dc" and m: "m = rounded_channel True m3"
    using assms(1) False
    by (auto simp: blend_preference_channels_def Let_def b_def d_def c_def decl_def dn_def m3_def split: if_splits)
  have bd: "0 \<le> b" "0 \<le> d" "b + d = 1" using nn False by (auto simp: b_def d_def add_divide_distrib[symmetric])
  have c: "0 \<le> c" "c \<le> b" using bd by (auto simp: c_def mult_left_le)
  have dd: "distinct (dkeys dn)" by (simp add: dn_def decl_def o_def)
  have dnb: "0 < v \<and> v \<le> 1" if "(t, v) \<in> set dn" for t v
    using that by (auto simp: dn_def divide_le_eq Suc_le_eq)
  have dist3: "distinct (dkeys m3)" by (simp add: m3_def distinct_merge_channel)
  have "\<bar>dget_default m k 0\<bar> \<le> 1" for k
  proof -
    let ?p = "dget_default (normalize_channel pos) k 0" and ?n = "dget_default (normalize_channel neg) k 0"
      and ?d = "dget_default dn k 0"
    have pnd: "0 \<le> ?p \<and> ?p \<le> 1" "0 \<le> ?n \<and> ?n \<le> 1" "0 \<le> ?d \<and> ?d \<le> 1"
      using normalize_channel_bounds dnb by (intro dget_default_bounds; blast)+
    have val: "dget_default m3 k 0 = c * ?p - c * ?n + d * ?d"
      by (simp add: m3_def merge_channel_value dkeys_normalize_channel assms(2,3) dd)
        (simp add: dget_default_def)
    have "c * ?p \<le> c" "c * ?n \<le> c" "d * ?d \<le> d" using pnd c(1) bd(2) by (simp_all add: mult_left_le)
    moreover have "0 \<le> c * ?p" "0 \<le> c * ?n" "0 \<le> d * ?d" using pnd c(1) bd(2) by simp_all
    ultimately have "- 1 \<le> dget_default m3 k 0" "dget_default m3 k 0 \<le> 1"
      using c bd unfolding val by linarith+
    then have "- 1 \<le> py_round 10 (dget_default m3 k 0) \<and> py_round 10 (dget_default m3 k 0) \<le> 1"
      using py_round_mono[of "- 1" "dget_default m3 k 0" 10] py_round_mono[of "dget_default m3 k 0" 1 10]
        py_round_of_int[of 10 "- 1"] by simp
    then show ?thesis
      by (auto simp: m dget_default_def dget_rounded_channel[OF dist3] split: option.splits if_splits)
  qed
  then show ?thesis using dkeys_rounded_channel(2)[OF dist3] by (simp add: m)
qed

theorem blend_bounded_witness:
  "\<exists>m. blend_preference_channels [(''ai'', 8)] [(''tech'', 3)] [''music''] 3 1 1 = Inr m \<and>
    (\<forall>k. \<bar>dget_default m k 0\<bar> \<le> 1)"
proof -
  obtain m where m: "blend_preference_channels [(''ai'', 8)] [(''tech'', 3)] [''music''] 3 1 1 = Inr m"
    by (simp add: blend_preference_channels_def Let_def)
  from blend_bounded[OF this] m show ?thesis by auto
qed

text \<open>
  Projecting a stored vector forward never moves its clock back, never raises a weight above its
  rounded value and keeps weights non-negative; events are neither added nor dropped.
\<close>

theorem decay_never_grows:
  assumes "decay_preference_vector v (Aware t) hl = Inr w"
    and "distinct (dkeys (pv_positive v))" "\<forall>k. 0 \<le> dget_default (pv_positive v) k 0"
  shows "pv_reference_at w = max t (pv_reference_at v) \<and>
    pv_source_event_count w = pv_source_event_count v \<and>
    (\<forall>k. 0 \<le> dget_default (pv_positive w) k 0 \<and>
         dget_default (pv_positive w) k 0 \<le> py_round 10 (dget_default (pv_positive v) k 0))"
proof -
  have hl: "0 < hl" using assms(1) by (auto simp: decay_preference_vector_def split: if_splits)
  define f where "f = exp2 (- max 0 (total_seconds (t - pv_reference_at v) / 3600) / hl)"
  have f: "0 < f" "f \<le> 1"
    using exp2_decay[of "max 0 (total_seconds (t - pv_reference_at v) / 3600) / hl"] hl by (auto simp: f_def)
  define ch where "ch = map (\<lambda>(k, v). (k, v * f)) (pv_positive v)"
  have d: "distinct (dkeys ch)" using assms(2) by (simp add: ch_def o_def case_prod_beta)
  have g: "dget_default ch k 0 = dget_default (pv_positive v) k 0 * f" for k
  proof -
    have "dget ch k = map_option (\<lambda>v. v * f) (dget (pv_positive v) k)"
      unfolding ch_def by (induction "pv_positive v") (auto simp: map_of_map)
    then show ?thesis by (simp add: dget_default_def split: option.splits)
  qed
  have w: "pv_positive w = rounded_channel False ch" "pv_reference_at w = max t (pv_reference_at v)"
    "pv_source_event_count w = pv_source_event_count v"
    using assms(1) hl by (auto simp: decay_preference_vector_def Let_def ch_def f_def)
  have "dget_default (pv_positive w) k 0 = py_round 10 (dget_default (pv_positive v) k 0 * f)" for k
    using assms(3) f(1) dget_default_rounded[OF d, of k] by (simp add: w g)
  moreover have "dget_default (pv_positive v) k 0 * f \<le> dget_default (pv_positive v) k 0" for k
    using assms(3) f by (simp add: mult_left_le)
  moreover have "0 \<le> dget_default (pv_positive v) k 0 * f" for k using assms(3) f(1) by simp
  ultimately show ?thesis using w by (simp add: py_round_mono py_round_nonneg)
qed

theorem decay_never_grows_witness:
  "\<exists>w. decay_preference_vector \<lparr>pv_positive = [(''ai'', 1)], pv_negative = [], pv_reference_at = 0,
      pv_source_event_count = 1\<rparr> (Aware us_per_day) 24 = Inr w \<and>
    pv_reference_at w = max us_per_day 0 \<and> dget_default (pv_positive w) ''ai'' 0 \<le> 1"
proof -
  let ?v = "\<lparr>pv_positive = [(''ai'', 1)], pv_negative = [], pv_reference_at = 0, pv_source_event_count = 1\<rparr>"
  obtain w where w: "decay_preference_vector ?v (Aware us_per_day) 24 = Inr w"
    by (simp add: decay_preference_vector_def Let_def)
  have nn: "\<forall>k. 0 \<le> dget_default (pv_positive ?v) k 0" by (simp add: dget_default_def)
  have one: "dget_default (pv_positive ?v) ''ai'' 0 = 1" by (simp add: dget_default_def)
  have "distinct (dkeys (pv_positive ?v))" by simp
  from decay_never_grows[OF w this nn] one w show ?thesis by (metis py_round_1 pref_vector.select_convs(3))
qed

text \<open>
  The legacy delta touches exactly the topics of the post (\<open>general\<close> when there are none): each
  gains the event weight divided by the number of topics, rounded to four decimals.
\<close>

theorem apply_topic_delta_values:
  assumes "distinct topics" "dget_default WEIGHTS ty 0 \<noteq> 0"
  shows "dget_default (apply_topic_delta vec topics ty) k 0 =
    (if k \<in> set (if topics = [] then [GENERAL] else topics)
     then py_round 4 (dget_default vec k 0 + dget_default WEIGHTS ty 0 / real (max 1 (length topics)))
     else dget_default vec k 0)"
proof -
  have fold: "dget_default (foldl (\<lambda>out topic. dset out topic (py_round 4 (dget_default out topic 0 + d))) vec ts) k 0 =
      (if k \<in> set ts then py_round 4 (dget_default vec k 0 + d) else dget_default vec k 0)"
    if "distinct ts" for d ts vec
    using that by (induction ts arbitrary: vec) auto
  show ?thesis
    using fold[of "if topics = [] then [GENERAL] else topics"] assms
    by (cases topics) (simp_all add: apply_topic_delta_def Let_def)
qed

theorem apply_topic_delta_values_witness:
  "dget_default (apply_topic_delta [(''ai'', 1)] [''ai'', ''tech''] ''liked'') ''ai'' 0 = py_round 4 (7/4)"
  by (subst apply_topic_delta_values) (simp_all add: WEIGHTS_def dget_default_def)

end
