(* ===== verification/RecentTopics.thy ===== *)
theory RecentTopics
  imports PreferenceVector
begin

text \<open>
  \<open>workers/feature_store_worker/app/recent_topics.py\<close>: the short ordered topic list inferred from the
  posts a user viewed in the last three weeks. \<open>local_offset\<close> is the UTC offset \<open>astimezone\<close> assumes
  for a naive timestamp.
\<close>

definition WINDOW_DAYS :: int where "WINDOW_DAYS = 21"
definition MAX_TOPICS :: nat where "MAX_TOPICS = 5"
definition HALF_LIFE_DAYS :: real where "HALF_LIFE_DAYS = 7"

fun as_utc :: "int \<Rightarrow> datetime \<Rightarrow> instant" where
  "as_utc local_offset (Aware t) = t"
| "as_utc local_offset (Naive w) = w - local_offset"

fun aware_only :: "datetime \<Rightarrow> instant res" where
  "aware_only (Aware t) = Inr t"
| "aware_only (Naive _) = Inl (TypeError ''can't compare offset-naive and offset-aware datetimes'')"

definition in_window :: "instant \<Rightarrow> instant \<Rightarrow> bool" where
  "in_window now t \<longleftrightarrow> now - WINDOW_DAYS * us_per_day \<le> t \<and> t \<le> now"

definition is_view :: "pref_event \<Rightarrow> bool" where
  "is_view event \<longleftrightarrow> pe_event_type event \<in> {''view'', ''dwell''}"

definition latest_step ::
    "int \<Rightarrow> instant \<Rightarrow> (string, pref_event) dict \<Rightarrow> pref_event \<Rightarrow> (string, pref_event) dict res" where
  "latest_step local_offset now latest event =
     (let occurred_at = as_utc local_offset (pe_occurred_at event) in
      if \<not> is_view event \<or> \<not> in_window now occurred_at then Inr latest
      else case dget latest (pe_post_id event) of
        None \<Rightarrow> Inr (dset latest (pe_post_id event) event)
      | Some previous \<Rightarrow>
          bind_res (aware_only (pe_occurred_at previous)) (\<lambda>p.
            Inr (if occurred_at > p then dset latest (pe_post_id event) event else latest)))"

definition named_topics :: "pref_event \<Rightarrow> string list" where
  "named_topics event =
     sorted_list_of_set (set (filter (\<lambda>t. t \<noteq> [] \<and> t \<noteq> GENERAL) (pe_topics event)))"

definition recency :: "instant \<Rightarrow> instant \<Rightarrow> real" where
  "recency now t = exp2 (- ((total_seconds (now - t) / 86400) / HALF_LIFE_DAYS))"

definition score_step :: "instant \<Rightarrow> channel \<Rightarrow> pref_event \<Rightarrow> channel res" where
  "score_step now scores event =
     (let topics = named_topics event in
      if topics = [] then Inr scores
      else bind_res (aware_only (pe_occurred_at event)) (\<lambda>t.
        let contribution = recency now t / real (length topics) in
        Inr (foldl (\<lambda>s topic. dset s topic (dget_default s topic 0 + contribution)) scores topics)))"

definition ranked_view_topics :: "int \<Rightarrow> pref_event list \<Rightarrow> datetime \<Rightarrow> string list res" where
  "ranked_view_topics local_offset evs at_time =
     (let now = as_utc local_offset at_time in
      bind_res (fold_res (latest_step local_offset now) [] evs) (\<lambda>latest.
      bind_res (fold_res (score_step now) [] (dvalues latest)) (\<lambda>scores.
        Inr (take MAX_TOPICS
               (sort_key (\<lambda>topic. (- dget_default scores topic 0, topic)) (dkeys scores))))))"


section \<open>Specification\<close>

definition seen_views :: "instant \<Rightarrow> pref_event list \<Rightarrow> pref_event list" where
  "seen_views now evs = filter (\<lambda>e. is_view e \<and> in_window now (wall_of (pe_occurred_at e))) evs"

definition latest_view :: "instant \<Rightarrow> pref_event list \<Rightarrow> string \<Rightarrow> pref_event option" where
  "latest_view now evs post =
     (case filter (\<lambda>e. pe_post_id e = post) (seen_views now evs) of
        [] \<Rightarrow> None | e # es \<Rightarrow> Some (max_key (\<lambda>e. wall_of (pe_occurred_at e)) e es))"

definition latest_views :: "instant \<Rightarrow> pref_event list \<Rightarrow> pref_event list" where
  "latest_views now evs =
     map (\<lambda>p. the (latest_view now evs p)) (dedup (map pe_post_id (seen_views now evs)))"

definition view_score :: "instant \<Rightarrow> pref_event list \<Rightarrow> string \<Rightarrow> real" where
  "view_score now views topic =
     sum_list (map (\<lambda>e. if topic \<in> set (named_topics e)
                        then recency now (wall_of (pe_occurred_at e)) / real (length (named_topics e))
                        else 0) views)"

lemma set_named_topics [simp]:
  "set (named_topics e) = {t \<in> set (pe_topics e). t \<noteq> [] \<and> t \<noteq> GENERAL}"
  by (auto simp: named_topics_def)

lemma distinct_named_topics [simp]: "distinct (named_topics e)"
  by (simp add: named_topics_def)

lemma seen_views_snoc:
  "seen_views now (evs @ [e]) = seen_views now evs @
     (if is_view e \<and> in_window now (wall_of (pe_occurred_at e)) then [e] else [])"
  by (simp add: seen_views_def)

lemma as_utc_aware [simp]: "\<not> tz_missing d \<Longrightarrow> as_utc l d = wall_of d"
  by (cases d) auto

lemma aware_only_aware [simp]: "\<not> tz_missing d \<Longrightarrow> aware_only d = Inr (wall_of d)"
  by (cases d) auto

lemma latest_view_in:
  "latest_view now evs p = Some e \<Longrightarrow> e \<in> set (seen_views now evs) \<and> pe_post_id e = p"
proof -
  assume a: "latest_view now evs p = Some e"
  then obtain x xs where x: "filter (\<lambda>e. pe_post_id e = p) (seen_views now evs) = x # xs"
    and e: "e = max_key (\<lambda>e. wall_of (pe_occurred_at e)) x xs"
    by (auto simp: latest_view_def split: list.splits)
  have "e \<in> set (x # xs)" using max_key_in[of _ x xs] e by simp
  then show ?thesis unfolding x[symmetric] by simp
qed

lemma latest_view_None: "latest_view now evs p = None \<longleftrightarrow> p \<notin> pe_post_id ` set (seen_views now evs)"
  by (auto simp: latest_view_def filter_empty_conv image_iff split: list.splits)
    (metis (mono_tags, lifting) filter_empty_conv list.distinct(1))

lemma latest_view_snoc:
  "latest_view now (evs @ [e]) p =
     (if is_view e \<and> in_window now (wall_of (pe_occurred_at e)) \<and> pe_post_id e = p
      then (case latest_view now evs p of
              None \<Rightarrow> Some e
            | Some v \<Rightarrow> Some (if wall_of (pe_occurred_at v) < wall_of (pe_occurred_at e) then e else v))
      else latest_view now evs p)"
  by (auto simp: latest_view_def seen_views_snoc max_key_snoc split: list.splits)

lemma latest_fold:
  assumes "\<forall>e\<in>set evs. \<not> tz_missing (pe_occurred_at e)"
  shows "\<exists>L. fold_res (latest_step l now) [] evs = Inr L \<and>
    dkeys L = dedup (map pe_post_id (seen_views now evs)) \<and> (\<forall>p. dget L p = latest_view now evs p)"
  using assms
proof (induction evs rule: rev_induct)
  case Nil
  then show ?case by (simp add: seen_views_def latest_view_def)
next
  case (snoc e evs)
  then obtain L where L: "fold_res (latest_step l now) [] evs = Inr L"
    "dkeys L = dedup (map pe_post_id (seen_views now evs))" "\<forall>p. dget L p = latest_view now evs p"
    by auto
  let ?p = "pe_post_id e"
  have mem: "?p \<in> set (dkeys L) \<longleftrightarrow> latest_view now evs ?p \<noteq> None"
    using L(3) by (metis map_of_eq_None_iff set_map)
  have aw: "\<not> tz_missing (pe_occurred_at v)" if "latest_view now evs ?p = Some v" for v
    using latest_view_in[OF that] snoc.prems by (auto simp: seen_views_def)
  show ?case
  proof (cases "is_view e \<and> in_window now (wall_of (pe_occurred_at e))")
    case False
    then have "latest_step l now L e = Inr L" using snoc.prems by (auto simp: latest_step_def)
    with False L show ?thesis
      by (auto simp: fold_res_snoc seen_views_snoc latest_view_snoc)
  next
    case True
    have keys: "dkeys (dset L ?p e) = dedup (map pe_post_id (seen_views now (evs @ [e])))"
      using True arg_cong[OF L(2), of set] by (simp add: L(2) dkeys_dset seen_views_snoc dedup_snoc)
    show ?thesis
    proof (cases "latest_view now evs ?p")
      case None
      then have "latest_step l now L e = Inr (dset L ?p e)"
        using True L(3) snoc.prems by (simp add: latest_step_def)
      then show ?thesis
        using keys L True None by (auto simp: fold_res_snoc latest_view_snoc)
    next
      case (Some v)
      then have step: "latest_step l now L e =
          Inr (if wall_of (pe_occurred_at e) > wall_of (pe_occurred_at v) then dset L ?p e else L)"
        using True L(3) snoc.prems aw[OF Some] by (simp add: latest_step_def)
      have "dkeys L = dedup (map pe_post_id (seen_views now (evs @ [e])))"
        using keys Some mem by (simp add: dkeys_dset split: if_splits)
      then show ?thesis
        using keys step L True Some by (auto simp: fold_res_snoc latest_view_snoc)
    qed
  qed
qed

lemma latest_fold_values:
  assumes "\<forall>e\<in>set evs. \<not> tz_missing (pe_occurred_at e)"
  shows "\<exists>L. fold_res (latest_step l now) [] evs = Inr L \<and> dvalues L = latest_views now evs"
proof -
  obtain L where L: "fold_res (latest_step l now) [] evs = Inr L"
    "dkeys L = dedup (map pe_post_id (seen_views now evs))" "\<forall>p. dget L p = latest_view now evs p"
    using latest_fold[OF assms] by blast
  have "distinct (dkeys L)" using L(2) by simp
  then have "dvalues L = map (\<lambda>k. the (dget L k)) (dkeys L)"
    by (auto simp: map_of_is_SomeI intro!: map_cong)
  then have "dvalues L = latest_views now evs"
    by (simp only: L(2) latest_views_def) (simp add: L(3))
  with L(1) show ?thesis by blast
qed

lemma score_fold:
  assumes "\<forall>e\<in>set views. \<not> tz_missing (pe_occurred_at e)"
  shows "\<exists>S. fold_res (score_step now) s views = Inr S \<and>
    dkeys S = dedup_onto (dkeys s) (concat (map named_topics views)) \<and>
    (\<forall>k. dget_default S k 0 = dget_default s k 0 + view_score now views k)"
  using assms
proof (induction views arbitrary: s)
  case Nil
  then show ?case by (simp add: view_score_def)
next
  case (Cons e views)
  let ?c = "recency now (wall_of (pe_occurred_at e)) / real (length (named_topics e))"
  let ?s = "foldl (\<lambda>s topic. dset s topic (dget_default s topic 0 + ?c)) s (named_topics e)"
  have step: "score_step now s e = Inr ?s"
    using Cons.prems by (auto simp: score_step_def Let_def)
  obtain S where S: "fold_res (score_step now) ?s views = Inr S"
    "dkeys S = dedup_onto (dkeys ?s) (concat (map named_topics views))"
    "\<And>k. dget_default S k 0 = dget_default ?s k 0 + view_score now views k"
    using Cons.IH[of ?s] Cons.prems by auto
  then show ?case
    unfolding fold_res.simps step bind_res.simps
    by (intro exI[of _ S])
      (auto simp: dget_default_add_all dkeys_fold_dset dedup_onto_append view_score_def)
qed

lemma ranked_view_topics_eq:
  assumes "\<forall>e\<in>set evs. \<not> tz_missing (pe_occurred_at e)"
  shows "ranked_view_topics l evs (Aware now) =
    Inr (take MAX_TOPICS (sort_key (\<lambda>t. (- view_score now (latest_views now evs) t, t))
           (dedup (concat (map named_topics (latest_views now evs))))))"
proof -
  obtain L where L: "fold_res (latest_step l now) [] evs = Inr L" "dvalues L = latest_views now evs"
    using latest_fold_values[OF assms] by blast
  have aw: "\<forall>e\<in>set (latest_views now evs). \<not> tz_missing (pe_occurred_at e)"
  proof
    fix e assume "e \<in> set (latest_views now evs)"
    then obtain p where "p \<in> pe_post_id ` set (seen_views now evs)" "e = the (latest_view now evs p)"
      by (auto simp: latest_views_def)
    then have "e \<in> set (seen_views now evs)"
      using latest_view_None[of now evs p] latest_view_in[of now evs p e] by auto
    then show "\<not> tz_missing (pe_occurred_at e)" using assms by (simp add: seen_views_def)
  qed
  obtain S where S: "fold_res (score_step now) [] (latest_views now evs) = Inr S"
    "dkeys S = dedup (concat (map named_topics (latest_views now evs)))"
    "\<And>k. dget_default S k 0 = view_score now (latest_views now evs) k"
    using score_fold[OF aw, of now "[]"] by (auto simp: dedup_def dget_default_def)
  show ?thesis
    by (simp add: ranked_view_topics_def L S)
qed


lemma distinct_prefs_sorted:
  "distinct (take n (sort_key f (dedup xs)))"
  by (simp add: distinct_sort)

text \<open>
  C22. The inferred topics are the five best-scored named topics of the latest view of each post seen
  in the window (each post counts once, its weight halving every week and shared among its topics),
  best first with ties by name: the list is duplicate-free, has at most five entries, never holds the
  empty or general topic, and every omitted topic scores no better than a listed one.
\<close>

theorem ranked_view_topics_top5:
  assumes "\<forall>e\<in>set evs. \<not> tz_missing (pe_occurred_at e)"
    and "ranked_view_topics l evs (Aware now) = Inr ts"
  shows "distinct ts \<and> length ts \<le> 5 \<and>
    set ts \<subseteq> (\<Union>e\<in>set (latest_views now evs). set (pe_topics e) - {[], GENERAL}) \<and>
    sorted (map (\<lambda>t. (- view_score now (latest_views now evs) t, t)) ts) \<and>
    (\<forall>e\<in>set (latest_views now evs). \<forall>t\<in>set (pe_topics e) - {[], GENERAL} - set ts. length ts = 5 \<and>
       (\<forall>t'\<in>set ts. view_score now (latest_views now evs) t \<le> view_score now (latest_views now evs) t'))"
proof -
  let ?V = "latest_views now evs"
  let ?f = "\<lambda>t. (- view_score now ?V t, t)"
  let ?all = "sort_key ?f (dedup (concat (map named_topics ?V)))"
  have ts: "ts = take 5 ?all" using assms(2) by (simp add: ranked_view_topics_eq[OF assms(1)] MAX_TOPICS_def)
  have set_all: "set ?all = (\<Union>e\<in>set ?V. set (pe_topics e) - {[], GENERAL})" by auto
  have split: "?all = ts @ drop 5 ?all" by (simp add: ts)
  have set_split: "set ?all = set ts \<union> set (drop 5 ?all)"
    unfolding ts by (metis append_take_drop_id set_append)
  have "sorted (map ?f ?all)" by simp
  then have srt: "sorted (map ?f (ts @ drop 5 ?all))" by (simp only: split[symmetric])
  have "length ts = 5 \<and> (\<forall>t'\<in>set ts. view_score now ?V t \<le> view_score now ?V t')"
    if "t \<in> set ?all - set ts" for t
  proof -
    have d: "t \<in> set (drop 5 ?all)" using that set_split by blast
    then have "length ts = 5" by (cases "length ?all \<le> 5") (auto simp: ts)
    moreover have "?f t' \<le> ?f t" if "t' \<in> set ts" for t'
      using srt d that unfolding map_append sorted_append by (auto simp del: less_eq_prod_simp)
    then have "view_score now ?V t \<le> view_score now ?V t'" if "t' \<in> set ts" for t'
      using that by (fastforce simp: less_eq_prod_def)
    ultimately show ?thesis by blast
  qed
  moreover have "distinct ts" unfolding ts by (rule distinct_prefs_sorted)
  moreover have "length ts \<le> 5" by (simp add: ts)
  moreover have "set ts \<subseteq> set ?all" unfolding ts by (rule set_take_subset)
  moreover have "sorted (map ?f ts)" using srt by (simp add: sorted_append)
  ultimately show ?thesis unfolding set_all by blast
qed

theorem ranked_view_topics_top5_witness:
  "\<exists>ts. ranked_view_topics 0 [demo_pref ''1'' ''p'' ''view'' 0, demo_pref ''2'' ''p'' ''view'' 5] (Aware 9) = Inr ts \<and>
     distinct ts \<and> length ts \<le> 5"
proof -
  let ?evs = "[demo_pref ''1'' ''p'' ''view'' 0, demo_pref ''2'' ''p'' ''view'' 5]"
  have aw: "\<forall>e\<in>set ?evs. \<not> tz_missing (pe_occurred_at e)" by simp
  obtain ts where ts: "ranked_view_topics 0 ?evs (Aware 9) = Inr ts"
    using ranked_view_topics_eq[OF aw] by blast
  from ranked_view_topics_top5[OF aw ts] ts show ?thesis by blast
qed

end
