(* ===== verification/FeatureEvents.thy ===== *)
theory FeatureEvents
  imports RecentTopics
begin

text \<open>
  The decoding half of \<open>workers/feature_store_worker/app/main.py\<close>: reading Kafka envelopes (JSON
  objects as dictionaries of dynamic values), the JSON form of stored vectors, and canonical
  preference events built from behaviour rows.
\<close>

type_synonym envelope = "(string, pyval) dict"

definition UUID_KEYS :: "string list" where
  "UUID_KEYS = [''user_id'', ''reporter_id'', ''commenter_id'']"

definition IGNORED_EVENT_TYPES :: "string set" where "IGNORED_EVENT_TYPES = {''visible''}"

section \<open>Envelopes\<close>

definition env_type :: "pylib \<Rightarrow> envelope \<Rightarrow> string" where
  "env_type lib env = py_str lib (py_or (py_or (vget env ''event_type'') (vget env ''type'')) (VStr []))"

definition env_id :: "pylib \<Rightarrow> envelope \<Rightarrow> uuid option" where
  "env_id lib env = uuid_of_string (py_str lib (vget env ''event_id''))"

definition extract_user :: "pylib \<Rightarrow> envelope \<Rightarrow> string option" where
  "extract_user lib env =
     (case vget env ''data'' of
        VMap data \<Rightarrow>
          (case find (\<lambda>key. key \<in> set (dkeys data)) UUID_KEYS of
             None \<Rightarrow> None
           | Some key \<Rightarrow> map_option str_uuid (uuid_of_string (py_str lib (vget data key))))
      | _ \<Rightarrow> None)"

definition identity_field_is_present :: "envelope \<Rightarrow> bool" where
  "identity_field_is_present env =
     (case vget env ''data'' of VMap data \<Rightarrow> list_ex (\<lambda>key. key \<in> set (dkeys data)) UUID_KEYS | _ \<Rightarrow> False)"

text \<open>\<open>True == 1\<close> and \<open>1.0 == 1\<close> in Python, so they pass the version test too.\<close>

definition version_is :: "int \<Rightarrow> string list \<Rightarrow> pyval \<Rightarrow> bool" where
  "version_is n texts v =
     (case v of VInt i \<Rightarrow> i = n | VBool b \<Rightarrow> (if b then 1 else 0) = n | VFloat r \<Rightarrow> r = of_int n
      | VStr s \<Rightarrow> s \<in> set texts | _ \<Rightarrow> False)"

fun int_at_least :: "pyval \<Rightarrow> int \<Rightarrow> bool" where
  "int_at_least (VInt i) n = (i \<ge> n)"
| "int_at_least (VBool b) n = ((if b then 1 else 0) \<ge> n)"
| "int_at_least _ n = False"

definition valid_feature_event :: "pylib \<Rightarrow> int \<Rightarrow> envelope \<Rightarrow> bool res" where
  "valid_feature_event lib qualified_read_ms env =
     (let event_type = env_type lib env; version = vget env ''event_version'' in
      if event_type = ''viewed''
      then Inr (version = VNone \<or> version_is 1 [''1'', ''v1''] version)
      else if event_type = ''qualified_read''
      then (case py_or (vget env ''data'') (VMap []) of
              VMap data \<Rightarrow> Inr (version_is 2 [''2'', ''v2''] version \<and>
                                int_at_least (vget data ''duration_ms'') qualified_read_ms)
            | _ \<Rightarrow> Inl (AttributeError ''get''))
      else Inr True)"

text \<open>\<open>now\<close> is the wall clock the function falls back to.\<close>

definition env_occurred_at :: "pylib \<Rightarrow> instant \<Rightarrow> envelope \<Rightarrow> instant" where
  "env_occurred_at lib now env =
     (case vget env ''occurred_at'' of
        VStr raw \<Rightarrow> (case parse_iso lib raw of Inr parsed \<Rightarrow> wall_of parsed | Inl _ \<Rightarrow> now)
      | _ \<Rightarrow> now)"

text \<open>\<open>env.get("data", {}).get("post_id")\<close>\<close>

definition env_post_id :: "envelope \<Rightarrow> pyval res" where
  "env_post_id env =
     (case map_of env ''data'' of
        None \<Rightarrow> Inr VNone
      | Some (VMap data) \<Rightarrow> Inr (vget data ''post_id'')
      | Some _ \<Rightarrow> Inl (AttributeError ''get''))"

section \<open>Stored vectors\<close>

definition encode_weights :: "channel \<Rightarrow> pyval" where
  "encode_weights ch = VMap (map (\<lambda>(k, w). (k, VFloat w)) ch)"

definition decode_weights :: "pylib \<Rightarrow> pyval \<Rightarrow> channel res" where
  "decode_weights lib value =
     (case py_or value (VMap []) of
        VMap d \<Rightarrow> map_res (\<lambda>(key, weight). bind_res (py_float lib weight) (\<lambda>w. Inr (key, w))) d
      | _ \<Rightarrow> Inl (AttributeError ''items''))"

definition vector_payload :: "pylib \<Rightarrow> pref_vector \<Rightarrow> pyval" where
  "vector_payload lib v =
     VMap [(''schema_version'', VStr PREFERENCE_SCHEMA_V2),
           (''positive'', encode_weights (pv_positive v)),
           (''negative'', encode_weights (pv_negative v)),
           (''reference_at'', VStr (isoformat lib (Aware (pv_reference_at v)))),
           (''source_event_count'', VInt (int (pv_source_event_count v)))]"

definition decode_reference :: "pylib \<Rightarrow> pyval \<Rightarrow> datetime option res" where
  "decode_reference lib v =
     (case v of
        VStr s \<Rightarrow> bind_res (parse_iso lib s) (\<lambda>d. Inr (Some d))
      | VTime d \<Rightarrow> Inr (Some d)
      | _ \<Rightarrow> Inr None)"

definition decode_vector_v2 :: "pylib \<Rightarrow> pyval \<Rightarrow> pref_vector option res" where
  "decode_vector_v2 lib value =
     (case value of
        VMap d \<Rightarrow>
          if vget d ''schema_version'' \<noteq> VStr PREFERENCE_SCHEMA_V2 then Inr None
          else bind_res (decode_reference lib (vget d ''reference_at'')) (\<lambda>reference.
            case reference of
              Some (Aware t) \<Rightarrow>
                bind_res (decode_weights lib (vget d ''positive'')) (\<lambda>pos.
                bind_res (decode_weights lib (vget d ''negative'')) (\<lambda>neg.
                bind_res (case map_of d ''source_event_count'' of None \<Rightarrow> Inr 0 | Some c \<Rightarrow> py_int c) (\<lambda>n.
                  Inr (Some \<lparr>pv_positive = pos, pv_negative = neg, pv_reference_at = t,
                             pv_source_event_count = nat n\<rparr>))))
            | _ \<Rightarrow> Inr None)
      | _ \<Rightarrow> Inr None)"

lemma decode_encode_weights [simp]: "decode_weights lib (encode_weights ch) = Inr ch"
proof -
  have "map_res (\<lambda>(key, weight). bind_res (py_float lib weight) (\<lambda>w. Inr (key, w)))
      (map (\<lambda>(k, w). (k, VFloat w)) ch) = Inr ch"
    by (induction ch) auto
  then show ?thesis by (cases ch) (simp_all add: decode_weights_def encode_weights_def py_or_def)
qed

lemma decode_weights_VNone [simp]: "decode_weights lib VNone = Inr []"
  by (simp add: decode_weights_def py_or_def)

lemma decode_vector_v2_VNone [simp]: "decode_vector_v2 lib VNone = Inr None"
  by (simp add: decode_vector_v2_def)

text \<open>
  C27. A stored vector survives its JSON round trip: decoding the payload written to the cache or the
  table gives back the vector, for every library whose \<open>fromisoformat\<close> reads back the UTC timestamps
  its \<open>isoformat\<close> prints.
\<close>

theorem vector_payload_roundtrip:
  assumes "parse_iso lib (isoformat lib (Aware (pv_reference_at v))) = Inr (Aware (pv_reference_at v))"
  shows "decode_vector_v2 lib (vector_payload lib v) = Inr (Some v)"
  using assms
  by (simp add: decode_vector_v2_def vector_payload_def vget_def decode_reference_def)

theorem vector_payload_roundtrip_witness:
  "decode_vector_v2 clock_lib (vector_payload clock_lib
     \<lparr>pv_positive = [(''ai'', 1)], pv_negative = [], pv_reference_at = 7, pv_source_event_count = 2\<rparr>) =
   Inr (Some \<lparr>pv_positive = [(''ai'', 1)], pv_negative = [], pv_reference_at = 7, pv_source_event_count = 2\<rparr>)"
  by (rule vector_payload_roundtrip)
    (simp add: clock_lib_def parse_iso_def str_int_def str_nat.simps digit_char_eval
      parse_int_def strip_def lstrip_def is_space_def parse_unsigned_def digit_val_def Let_def
      str_replace.simps)

section \<open>Canonical events\<close>

record post_row =
  post_topics :: "string list"
  post_tags :: "string list"

record behavior_row =
  b_id :: uuid
  b_user :: uuid
  b_post :: uuid
  b_impression :: "uuid option"
  b_session :: "uuid option"
  b_event_type :: string
  b_dwell_ms :: "int option"
  b_trigger :: "string option"
  b_visit :: "string option"
  b_topic_snapshot :: "string list option"
  b_occurred_at :: instant

definition nonblank :: "string list \<Rightarrow> string list" where
  "nonblank ts = filter (\<lambda>t. t \<noteq> []) ts"

definition meaningful_topics :: "string list \<Rightarrow> string list" where
  "meaningful_topics ts = filter (\<lambda>t. t \<noteq> [] \<and> t \<noteq> GENERAL) ts"

definition behavior_topics :: "post_row \<Rightarrow> behavior_row \<Rightarrow> string list" where
  "behavior_topics post row =
     (case b_topic_snapshot row of
        Some snapshot \<Rightarrow> nonblank snapshot
      | None \<Rightarrow>
          (let topics = meaningful_topics (post_topics post) in
           if topics \<noteq> [] then topics
           else let tags = nonblank (post_tags post) in if tags \<noteq> [] then tags else [GENERAL]))"

definition canonical_preference_event :: "post_row \<Rightarrow> behavior_row \<Rightarrow> pref_event" where
  "canonical_preference_event post row =
     \<lparr>pe_event_id = str_uuid (b_id row), pe_post_id = str_uuid (b_post row),
      pe_event_type = b_event_type row, pe_topics = behavior_topics post row,
      pe_occurred_at = Aware (b_occurred_at row),
      pe_impression_id = map_option str_uuid (b_impression row),
      pe_session_id = map_option str_uuid (b_session row), pe_visit_id = b_visit row,
      pe_dwell_ms = b_dwell_ms row, pe_read_trigger = b_trigger row\<rparr>"

text \<open>The topics the legacy delta uses: the post's own topics, unless they say nothing but \<open>general\<close>.\<close>

definition resolved_topics :: "post_row \<Rightarrow> string list" where
  "resolved_topics post =
     (if meaningful_topics (post_topics post) \<noteq> [] then post_topics post
      else if post_tags post \<noteq> [] then post_tags post else post_topics post)"

end
