(* ===== verification/FeatureStore.thy ===== *)
theory FeatureStore
  imports FeatureEvents
begin

text \<open>
  The database half of \<open>workers/feature_store_worker/app/main.py\<close> and \<open>rebuild_v2.py\<close>: the transaction
  that claims receipts and updates a user's vectors, the cache refresh after it, the rebuild of v2
  vectors and its keyset paging. Tables are dictionaries in a record; a SQL statement is the change it
  makes; \<open>faults\<close> says which database or cache calls raise. The locale \<open>receipt_store\<close> is the contract
  the idempotence of redelivery rests on.
\<close>

record feature_db =
  receipts :: "(uuid, uuid \<times> string \<times> instant) dict"
  user_topics :: "(uuid, string list) dict"
  vectors_v1 :: "(uuid, channel) dict"
  vectors_v2 :: "(uuid, pref_vector) dict"
  db_posts :: "(uuid, post_row) dict"
  behavior_events :: "behavior_row list"
  recent_prefs :: "(uuid, instant \<times> instant option) dict"

text \<open>
  \<open>fc_uuid_arg\<close> is how asyncpg encodes a value as an element of a \<open>uuid[]\<close> argument (\<open>None\<close>: it raises).
\<close>

record feature_cfg =
  fc_qualified_read_ms :: int
  fc_half_life_hours :: real
  fc_channel_bound :: real
  fc_pref_ttl_seconds :: int
  fc_trending_ttl_seconds :: int
  fc_backfill_batch_size :: nat
  fc_local_offset :: int
  fc_uuid_arg :: "pyval \<Rightarrow> uuid option"

type_synonym cache_store = "(string, pyval \<times> int) dict"

record feature_world =
  w_db :: feature_db
  w_cache :: cache_store

datatype db_call =
  ClaimReceipts | SelectUser | SelectPosts | SelectBehavior | UpsertV1 | UpsertV2 | RefreshRecent |
  CommitTxn | CacheCall nat

type_synonym faults = "db_call \<Rightarrow> bool"

definition calling :: "faults \<Rightarrow> db_call \<Rightarrow> 'a res \<Rightarrow> 'a res" where
  "calling faults c r = (if faults c then Inl (ServiceError ''call failed'') else r)"

section \<open>Receipts\<close>

text \<open>\<open>CLAIM_RECEIPTS_SQL\<close>: insert each unseen event id, return the ids inserted.\<close>

fun claim_receipts ::
    "uuid \<Rightarrow> (uuid \<times> string \<times> instant) list \<Rightarrow> (uuid, uuid \<times> string \<times> instant) dict \<Rightarrow>
     (uuid, uuid \<times> string \<times> instant) dict \<times> uuid list" where
  "claim_receipts user [] table = (table, [])"
| "claim_receipts user ((eid, ty, t) # batch) table =
     (if eid \<in> set (dkeys table) then claim_receipts user batch table
      else let (table', claimed) = claim_receipts user batch (dset table eid (user, ty, t)) in
           (table', eid # claimed))"

text \<open>The first envelope of each event id and the repeated ones; envelopes without an id are skipped.\<close>

definition unique_step ::
    "pylib \<Rightarrow> (uuid \<times> envelope) list \<times> envelope list \<Rightarrow> envelope \<Rightarrow>
     (uuid \<times> envelope) list \<times> envelope list" where
  "unique_step lib ud env =
     (case env_id lib env of
        None \<Rightarrow> ud
      | Some eid \<Rightarrow> if eid \<in> fst ` set (fst ud) then (fst ud, snd ud @ [env])
                    else (fst ud @ [(eid, env)], snd ud))"

definition unique_envelopes :: "pylib \<Rightarrow> envelope list \<Rightarrow> (uuid \<times> envelope) list \<times> envelope list" where
  "unique_envelopes lib envs = foldl (unique_step lib) ([], []) envs"

section \<open>Queries\<close>

definition v1_row_json :: "feature_db \<Rightarrow> uuid \<Rightarrow> pyval" where
  "v1_row_json db user = (case dget (vectors_v1 db) user of None \<Rightarrow> VNone | Some ch \<Rightarrow> encode_weights ch)"

definition v2_row_json :: "pylib \<Rightarrow> feature_db \<Rightarrow> uuid \<Rightarrow> pyval" where
  "v2_row_json lib db user =
     (case dget (vectors_v2 db) user of None \<Rightarrow> VNone | Some v \<Rightarrow> vector_payload lib v)"

text \<open>The behaviour rows of a user joined with their posts, \<open>ORDER BY occurred_at, id\<close>.\<close>

definition behavior_of :: "feature_db \<Rightarrow> uuid \<Rightarrow> behavior_row list" where
  "behavior_of db user =
     sort_key (\<lambda>r. (b_occurred_at r, b_id r))
       (filter (\<lambda>r. b_user r = user \<and> b_post r \<in> set (dkeys (db_posts db))) (behavior_events db))"

definition joined_event :: "feature_db \<Rightarrow> behavior_row \<Rightarrow> pref_event" where
  "joined_event db r =
     canonical_preference_event
       (case dget (db_posts db) (b_post r) of Some p \<Rightarrow> p | None \<Rightarrow> \<lparr>post_topics = [], post_tags = []\<rparr>) r"

definition canonical_preference_events :: "feature_db \<Rightarrow> behavior_row list \<Rightarrow> pref_event list" where
  "canonical_preference_events db rows = map (joined_event db) rows"

definition build_user_vector :: "feature_cfg \<Rightarrow> pref_event list \<Rightarrow> pref_vector res" where
  "build_user_vector cfg evs =
     build_preference_vector_v2 0 evs None (fc_half_life_hours cfg) (fc_channel_bound cfg)
       (fc_qualified_read_ms cfg)"

text \<open>\<open>SELECT id, topics, tags FROM posts WHERE id = ANY(ids)\<close>, keyed by the printed id.\<close>

definition topics_by_post :: "feature_db \<Rightarrow> uuid list \<Rightarrow> (string, string list) dict" where
  "topics_by_post db ids =
     map (\<lambda>(pid, post). (str_uuid pid, resolved_topics post))
       (filter (\<lambda>(pid, post). pid \<in> set ids) (db_posts db))"

section \<open>Recent topics\<close>

definition refresh_recent_topics ::
    "feature_cfg \<Rightarrow> instant \<Rightarrow> uuid \<Rightarrow> feature_db \<Rightarrow> (feature_db \<times> string list) res" where
  "refresh_recent_topics cfg now user db =
     (let rows = filter (\<lambda>r. b_event_type r \<in> {''view'', ''dwell''} \<and>
                             now - WINDOW_DAYS * us_per_day \<le> b_occurred_at r \<and> b_occurred_at r \<le> now)
                   (behavior_of db user) in
      bind_res (ranked_view_topics (fc_local_offset cfg) (canonical_preference_events db rows) (Aware now)) (\<lambda>topics.
        Inr (db\<lparr>user_topics := (if user \<in> set (dkeys (user_topics db)) then dset (user_topics db) user topics
                                 else user_topics db),
                recent_prefs := dset (recent_prefs db) user
                  (now, if topics \<noteq> [] then Some (now + us_per_hour) else None)\<rparr>, topics)))"

section \<open>Applying a user's events\<close>

record apply_result =
  ar_vector :: channel
  ar_vector_v2 :: "pref_vector option"
  ar_applied :: "envelope list"
  ar_duplicates :: "envelope list"
  ar_ignored :: "envelope list"

definition post_ids_of :: "feature_cfg \<Rightarrow> envelope list \<Rightarrow> uuid list res" where
  "post_ids_of cfg envs =
     bind_res (map_res env_post_id envs) (\<lambda>pids.
     bind_res (map_res (\<lambda>p. case p of VList _ \<Rightarrow> Inl (TypeError ''unhashable type'')
                                    | VMap _ \<Rightarrow> Inl (TypeError ''unhashable type'') | _ \<Rightarrow> Inr p) pids) (\<lambda>hashed.
       map_res (\<lambda>p. case fc_uuid_arg cfg p of None \<Rightarrow> Inl (ServiceError ''DataError'') | Some u \<Rightarrow> Inr u)
         (dedup (filter truthy hashed))))"

definition apply_delta :: "pylib \<Rightarrow> (string, string list) dict \<Rightarrow> channel \<Rightarrow> envelope \<Rightarrow> channel res" where
  "apply_delta lib topics vec env =
     bind_res (env_post_id env) (\<lambda>pid.
       Inr (apply_topic_delta vec (dget_default topics (py_str lib pid) []) (env_type lib env)))"

definition delta_vector ::
    "feature_cfg \<Rightarrow> pylib \<Rightarrow> faults \<Rightarrow> envelope list \<Rightarrow> channel \<Rightarrow> feature_db \<Rightarrow> channel res" where
  "delta_vector cfg lib faults applied vec db =
     bind_res (post_ids_of cfg applied) (\<lambda>post_ids.
     bind_res (if post_ids = [] then Inr [] else calling faults SelectPosts (Inr (topics_by_post db post_ids))) (\<lambda>topics.
       fold_res (apply_delta lib topics) vec applied))"

definition replayed_vector ::
    "feature_cfg \<Rightarrow> faults \<Rightarrow> uuid \<Rightarrow> pref_vector option \<Rightarrow> feature_db \<Rightarrow> pref_vector option res" where
  "replayed_vector cfg faults user vector_v2 db =
     bind_res (calling faults SelectBehavior (Inr (canonical_preference_events db (behavior_of db user)))) (\<lambda>evs.
       if evs = [] then Inr vector_v2 else bind_res (build_user_vector cfg evs) (\<lambda>v. Inr (Some v)))"

definition update_vectors ::
    "feature_cfg \<Rightarrow> pylib \<Rightarrow> faults \<Rightarrow> uuid \<Rightarrow> envelope list \<Rightarrow> channel \<Rightarrow> pref_vector option \<Rightarrow> feature_db \<Rightarrow>
     (feature_db \<times> channel \<times> pref_vector option) res" where
  "update_vectors cfg lib faults user applied vec vector_v2 db =
     bind_res (delta_vector cfg lib faults applied vec db) (\<lambda>vec'.
     bind_res (replayed_vector cfg faults user vector_v2 db) (\<lambda>v2.
     bind_res (calling faults UpsertV1 (Inr (db\<lparr>vectors_v1 := dset (vectors_v1 db) user vec'\<rparr>))) (\<lambda>db1.
     bind_res (case v2 of
                 None \<Rightarrow> Inr db1
               | Some v \<Rightarrow> calling faults UpsertV2 (Inr (db1\<lparr>vectors_v2 := dset (vectors_v2 db1) user v\<rparr>))) (\<lambda>db2.
       Inr (db2, vec', v2)))))"

definition changes_vectors :: "pylib \<Rightarrow> envelope list \<Rightarrow> bool" where
  "changes_vectors lib applied = list_ex (\<lambda>env. env_type lib env \<noteq> ''view_observed'') applied"

definition changes_recent :: "pylib \<Rightarrow> envelope list \<Rightarrow> bool" where
  "changes_recent lib applied =
     list_ex (\<lambda>env. env_type lib env \<in> {''viewed'', ''view_observed'', ''qualified_read'', ''dwell''}) applied"

text \<open>The transaction after the receipts are claimed (\<open>db1\<close> holds them), up to its commit.\<close>

definition apply_claimed ::
    "feature_cfg \<Rightarrow> pylib \<Rightarrow> instant \<Rightarrow> faults \<Rightarrow> uuid \<Rightarrow> envelope list \<Rightarrow> feature_db \<Rightarrow>
     (feature_db \<times> channel \<times> pref_vector option) res" where
  "apply_claimed cfg lib now faults user applied db1 =
     bind_res (calling faults SelectUser (decode_weights lib (v1_row_json db1 user))) (\<lambda>vec.
     bind_res (decode_vector_v2 lib (v2_row_json lib db1 user)) (\<lambda>vector_v2.
     bind_res (if changes_vectors lib applied
               then update_vectors cfg lib faults user applied vec vector_v2 db1
               else Inr (db1, vec, vector_v2)) (\<lambda>(db2, vec', v2').
     bind_res (if changes_recent lib applied
               then calling faults RefreshRecent
                      (bind_res (refresh_recent_topics cfg now user db2) (\<lambda>(db3, _). Inr db3))
               else Inr db2) (\<lambda>db3.
       calling faults CommitTxn (Inr (db3, vec', v2'))))))"

definition apply_transaction ::
    "feature_cfg \<Rightarrow> pylib \<Rightarrow> instant \<Rightarrow> faults \<Rightarrow> string \<Rightarrow> envelope list \<Rightarrow> feature_db \<Rightarrow>
     (feature_db \<times> bool \<times> apply_result) res" where
  "apply_transaction cfg lib now faults user_id envs db =
     (let (unique, dups) = unique_envelopes lib envs in
      bind_res (case uuid_of_string user_id of
                  None \<Rightarrow> Inl (ValueError ''badly formed hexadecimal UUID string'') | Some u \<Rightarrow> Inr u) (\<lambda>user.
      bind_res (calling faults ClaimReceipts
        (Inr (claim_receipts user (map (\<lambda>(eid, env). (eid, env_type lib env, env_occurred_at lib now env)) unique)
                (receipts db)))) (\<lambda>(table, claimed).
      let fresh = map snd (filter (\<lambda>(eid, env). eid \<in> set claimed) unique);
          stale = map snd (filter (\<lambda>(eid, env). eid \<notin> set claimed) unique);
          user_exists = (user \<in> set (dkeys (user_topics db)));
          applied = (if user_exists then fresh else []);
          ignored = (if user_exists then [] else fresh) in
      bind_res (apply_claimed cfg lib now faults user applied (db\<lparr>receipts := table\<rparr>)) (\<lambda>(db', vec, v2).
        Inr (db', user_exists,
          \<lparr>ar_vector = vec, ar_vector_v2 = v2, ar_applied = applied, ar_duplicates = dups @ stale,
           ar_ignored = ignored\<rparr>)))))"

subsection \<open>The preference cache\<close>

definition preference_cache_keys :: "string \<Rightarrow> string list" where
  "preference_cache_keys user_id =
     map (\<lambda>prefix. prefix @ user_id)
       [''pref:'', ''pref:v1:'', ''pref:v2:'', ''history:v1:'', ''history:v2:'', ''feed:'', ''feed:v1:'', ''feed:v2:'']"

datatype cache_cmd = CacheDelete "string list" | CacheSetex string int pyval

fun run_cache_cmd :: "cache_cmd \<Rightarrow> cache_store \<Rightarrow> cache_store" where
  "run_cache_cmd (CacheDelete ks) c = foldl dpop c ks"
| "run_cache_cmd (CacheSetex k ttl v) c = dset c k (v, ttl)"

text \<open>Commands run until the first that raises; the ones before it took effect.\<close>

fun run_cache :: "faults \<Rightarrow> nat \<Rightarrow> cache_cmd list \<Rightarrow> cache_store \<Rightarrow> cache_store \<times> bool" where
  "run_cache faults n [] c = (c, True)"
| "run_cache faults n (cmd # cmds) c =
     (if faults (CacheCall n) then (c, False)
      else run_cache faults (Suc n) cmds (run_cache_cmd cmd c))"

definition refresh_preference_cache ::
    "pylib \<Rightarrow> string \<Rightarrow> channel \<Rightarrow> pref_vector option \<Rightarrow> int \<Rightarrow> cache_cmd list" where
  "refresh_preference_cache lib user_id vector_v1 vector_v2 ttl =
     [CacheDelete (preference_cache_keys user_id),
      CacheSetex (''pref:'' @ user_id) ttl (encode_weights vector_v1),
      CacheSetex (''pref:v1:'' @ user_id) ttl (encode_weights vector_v1)] @
     (case vector_v2 of
        None \<Rightarrow> [] | Some v \<Rightarrow> [CacheSetex (''pref:v2:'' @ user_id) ttl (vector_payload lib v)])"

definition apply_for_user ::
    "feature_cfg \<Rightarrow> pylib \<Rightarrow> instant \<Rightarrow> faults \<Rightarrow> string \<Rightarrow> envelope list \<Rightarrow> feature_world \<Rightarrow>
     feature_world \<times> apply_result res" where
  "apply_for_user cfg lib now faults user_id envs w =
     (case apply_transaction cfg lib now faults user_id envs (w_db w) of
        Inl e \<Rightarrow> (w, Inl e)
      | Inr (db, user_exists, r) \<Rightarrow>
          if \<not> user_exists then (w\<lparr>w_db := db\<rparr>, Inr r)
          else let (c, ok) = run_cache faults 0
                     (refresh_preference_cache lib user_id (ar_vector r) (ar_vector_v2 r) (fc_pref_ttl_seconds cfg))
                     (w_cache w) in
               (w\<lparr>w_db := db, w_cache := c\<rparr>, if ok then Inr r else Inl (ServiceError ''cache'')))"


section \<open>The receipt contract\<close>

fun claim_all :: "('b list \<Rightarrow> 't \<Rightarrow> 't \<times> 'k list) \<Rightarrow> 'b list list \<Rightarrow> 't \<Rightarrow> 't \<times> 'k list" where
  "claim_all cl [] t = (t, [])"
| "claim_all cl (b # bs) t =
     (let (t', ks) = cl b t; (t'', ks') = claim_all cl bs t' in (t'', ks @ ks'))"

locale receipt_store =
  fixes known :: "'t \<Rightarrow> 'k set"
    and claim :: "('k \<times> 'v) list \<Rightarrow> 't \<Rightarrow> 't \<times> 'k list"
  assumes known_claim: "known (fst (claim b t)) = known t \<union> fst ` set b"
    and claimed_fresh: "set (snd (claim b t)) = fst ` set b - known t"
    and claimed_distinct: "distinct (snd (claim b t))"
    and claim_settled: "fst ` set b \<subseteq> known t \<Longrightarrow> claim b t = (t, [])"
begin

lemma redelivered:
  assumes "fst ` set b' \<subseteq> known t \<union> fst ` set b"
  shows "claim b' (fst (claim b t)) = (fst (claim b t), [])"
  using assms by (intro claim_settled) (simp add: known_claim)

text \<open>Over any sequence of batches an id is claimed at most once, and every id offered is known at the end.\<close>

lemma claimed_at_most_once:
  "distinct (snd (claim_all claim bs t)) \<and> set (snd (claim_all claim bs t)) \<inter> known t = {} \<and>
   known (fst (claim_all claim bs t)) = known t \<union> fst ` \<Union> (set ` set bs)"
proof (induction bs arbitrary: t)
  case Nil
  then show ?case by simp
next
  case (Cons b bs)
  show ?case
    using Cons.IH[of "fst (claim b t)"] known_claim[of b t] claimed_fresh[of b t] claimed_distinct[of b t]
    by (auto simp: case_prod_beta Let_def)
qed

end

lemma claim_receipts_known:
  "set (dkeys (fst (claim_receipts user b t))) = set (dkeys t) \<union> fst ` set b"
  by (induction user b t rule: claim_receipts.induct) (auto simp: Let_def case_prod_beta dkeys_dset split: if_splits)

lemma claim_receipts_fresh:
  "set (snd (claim_receipts user b t)) = fst ` set b - set (dkeys t) \<and> distinct (snd (claim_receipts user b t))"
  by (induction user b t rule: claim_receipts.induct) (auto simp: Let_def case_prod_beta dkeys_dset split: if_splits)

lemma claim_receipts_settled:
  "fst ` set b \<subseteq> set (dkeys t) \<Longrightarrow> claim_receipts user b t = (t, [])"
  by (induction user b t rule: claim_receipts.induct) auto

interpretation receipts: receipt_store "\<lambda>t. set (dkeys t)" "claim_receipts user" for user
  by unfold_locales
    (simp_all add: claim_receipts_known[simplified] claim_receipts_fresh[simplified] claim_receipts_settled)

section \<open>Facts about one application\<close>

lemma calling_Inr [simp]: "calling faults c r = Inr x \<longleftrightarrow> \<not> faults c \<and> r = Inr x"
  by (simp add: calling_def)

lemma unique_envelopes_snoc:
  "unique_envelopes lib (envs @ [e]) = unique_step lib (unique_envelopes lib envs) e"
  by (simp add: unique_envelopes_def)

lemma unique_envelopes_props:
  assumes "unique_envelopes lib envs = (u, d)"
  shows "distinct (map fst u)" "\<forall>(i, e)\<in>set u. env_id lib e = Some i"
    "mset (map snd u) + mset d = mset (filter (\<lambda>e. env_id lib e \<noteq> None) envs)"
    "fst ` set u = {i. \<exists>e\<in>set envs. env_id lib e = Some i}"
proof -
  have "distinct (map fst u) \<and> (\<forall>(i, e)\<in>set u. env_id lib e = Some i) \<and>
      mset (map snd u) + mset d = mset (filter (\<lambda>e. env_id lib e \<noteq> None) envs) \<and>
      fst ` set u = {i. \<exists>e\<in>set envs. env_id lib e = Some i}"
    using assms
  proof (induction envs arbitrary: u d rule: rev_induct)
    case Nil
    then show ?case by (simp add: unique_envelopes_def)
  next
    case (snoc e envs)
    obtain u0 d0 where ud: "unique_envelopes lib envs = (u0, d0)" by fastforce
    note IH = snoc.IH[OF ud]
    show ?case
    proof (cases "env_id lib e")
      case None
      then show ?thesis using IH snoc.prems by (simp add: unique_envelopes_snoc ud unique_step_def)
    next
      case (Some i)
      then show ?thesis
      proof (cases "i \<in> fst ` set u0")
        case True
        then have "u = u0" "d = d0 @ [e]"
          using snoc.prems Some by (simp_all add: unique_envelopes_snoc ud unique_step_def)
        moreover have "fst ` set u0 = {i. \<exists>e\<in>set (envs @ [e]). env_id lib e = Some i}"
          using IH True Some by auto
        ultimately show ?thesis using IH Some by simp
      next
        case False
        then have ud': "u = u0 @ [(i, e)]" "d = d0"
          using snoc.prems Some by (simp_all add: unique_envelopes_snoc ud unique_step_def)
        moreover have "fst ` set u = {i. \<exists>e\<in>set (envs @ [e]). env_id lib e = Some i}"
          using IH Some ud' by auto
        ultimately show ?thesis using IH Some False by simp
      qed
    qed
  qed
  then show "distinct (map fst u)" "\<forall>(i, e)\<in>set u. env_id lib e = Some i"
    "mset (map snd u) + mset d = mset (filter (\<lambda>e. env_id lib e \<noteq> None) envs)"
    "fst ` set u = {i. \<exists>e\<in>set envs. env_id lib e = Some i}" by blast+
qed

definition known_ids :: "feature_db \<Rightarrow> uuid set" where
  "known_ids db = set (dkeys (receipts db))"

definition ids_of :: "pylib \<Rightarrow> envelope list \<Rightarrow> uuid set" where
  "ids_of lib envs = {i. \<exists>e\<in>set envs. env_id lib e = Some i}"

lemma update_vectors_frame:
  assumes "update_vectors cfg lib faults user applied vec v2 db = Inr (db', vec', v2')"
  shows "receipts db' = receipts db \<and> db_posts db' = db_posts db \<and> behavior_events db' = behavior_events db \<and>
    user_topics db' = user_topics db \<and> vectors_v1 db' = dset (vectors_v1 db) user vec' \<and>
    delta_vector cfg lib faults applied vec db = Inr vec'"
  using assms unfolding update_vectors_def
  by (elim bind_resE) (auto split: option.split_asm)

lemma refresh_recent_topics_frame:
  assumes "refresh_recent_topics cfg now user db = Inr (db', ts)"
  shows "receipts db' = receipts db \<and> db_posts db' = db_posts db \<and> behavior_events db' = behavior_events db \<and>
    vectors_v1 db' = vectors_v1 db \<and> vectors_v2 db' = vectors_v2 db \<and> dkeys (user_topics db') = dkeys (user_topics db)"
  using assms by (auto simp: refresh_recent_topics_def Let_def dkeys_dset)

lemma apply_claimed_cases:
  assumes "apply_claimed cfg lib now faults user applied db1 = Inr (db', vec', v2')"
  obtains vec v2 db2 where
    "decode_weights lib (v1_row_json db1 user) = Inr vec" "decode_vector_v2 lib (v2_row_json lib db1 user) = Inr v2"
    "(if changes_vectors lib applied then update_vectors cfg lib faults user applied vec v2 db1
      else Inr (db1, vec, v2)) = Inr (db2, vec', v2')"
    "db' = db2 \<or> (changes_recent lib applied \<and> (\<exists>ts. refresh_recent_topics cfg now user db2 = Inr (db', ts)))"
  using assms unfolding apply_claimed_def
proof (elim bind_resE, goal_cases)
  case (1 vec v2 x)
  obtain db2 vec'' v2'' where x: "x = (db2, vec'', v2'')" by (cases x)
  from 1(5) show thesis
    unfolding x prod.case
    by (elim bind_resE) (rule 1(1)[of vec v2 db2]; use 1(2-4) x in \<open>auto split: if_splits\<close>)
qed


lemma apply_claimed_frame:
  assumes "apply_claimed cfg lib now faults user applied db1 = Inr (db', vec', v2')"
  shows "receipts db' = receipts db1 \<and> db_posts db' = db_posts db1 \<and> behavior_events db' = behavior_events db1 \<and>
    dkeys (user_topics db') = dkeys (user_topics db1)"
  using assms
proof (cases rule: apply_claimed_cases)
  case (1 vec v2 db2)
  have "receipts db2 = receipts db1 \<and> db_posts db2 = db_posts db1 \<and> behavior_events db2 = behavior_events db1 \<and>
      user_topics db2 = user_topics db1"
    using 1(3) update_vectors_frame by (auto split: if_splits)
  then show ?thesis using 1(4) refresh_recent_topics_frame by metis
qed

lemma apply_claimed_vector:
  assumes "apply_claimed cfg lib now faults user applied db1 = Inr (db', vec', v2')" "changes_vectors lib applied"
  shows "dget (vectors_v1 db') user = Some vec' \<and>
    delta_vector cfg lib faults applied (dget_default (vectors_v1 db1) user []) db1 = Inr vec'"
  using assms(1)
proof (cases rule: apply_claimed_cases)
  case (1 vec v2 db2)
  have "vec = dget_default (vectors_v1 db1) user []"
    using 1(1) by (auto simp: v1_row_json_def dget_default_def split: option.splits)
  moreover have "vectors_v1 db' = vectors_v1 db2" using 1(4) refresh_recent_topics_frame by metis
  moreover have "update_vectors cfg lib faults user applied vec v2 db1 = Inr (db2, vec', v2')"
    using 1(3) assms(2) by simp
  note update_vectors_frame[OF this]
  ultimately show ?thesis by simp
qed

lemma apply_claimed_nothing:
  assumes "apply_claimed cfg lib now faults user [] db1 = Inr (db', vec', v2')"
  shows "db' = db1"
  using assms by (cases rule: apply_claimed_cases) (auto simp: changes_vectors_def changes_recent_def)

definition receipt_rows :: "pylib \<Rightarrow> instant \<Rightarrow> (uuid \<times> envelope) list \<Rightarrow> (uuid \<times> string \<times> instant) list" where
  "receipt_rows lib now unique = map (\<lambda>(eid, env). (eid, env_type lib env, env_occurred_at lib now env)) unique"

lemma fst_receipt_rows [simp]: "fst ` set (receipt_rows lib now u) = fst ` set u"
  by (simp add: receipt_rows_def image_image case_prod_beta)

lemma apply_transaction_cases:
  assumes "apply_transaction cfg lib now faults user_id envs db = Inr (db', user_exists, r)"
  obtains user unique dups where
    "uuid_of_string user_id = Some user" "unique_envelopes lib envs = (unique, dups)"
    "user_exists \<longleftrightarrow> user \<in> set (dkeys (user_topics db))"
    "ar_applied r @ ar_ignored r = map snd (filter (\<lambda>(eid, env). eid \<notin> known_ids db) unique)"
    "ar_duplicates r = dups @ map snd (filter (\<lambda>(eid, env). eid \<in> known_ids db) unique)"
    "ar_applied r = (if user_exists then map snd (filter (\<lambda>(eid, env). eid \<notin> known_ids db) unique) else [])"
    "apply_claimed cfg lib now faults user (ar_applied r)
       (db\<lparr>receipts := fst (claim_receipts user (receipt_rows lib now unique) (receipts db))\<rparr>) =
     Inr (db', ar_vector r, ar_vector_v2 r)"
proof -
  obtain unique dups where ud: "unique_envelopes lib envs = (unique, dups)" by fastforce
  obtain user where u: "uuid_of_string user_id = Some user"
    using assms by (cases "uuid_of_string user_id") (auto simp: apply_transaction_def ud)
  obtain table claimed where tc: "claim_receipts user (receipt_rows lib now unique) (receipts db) = (table, claimed)"
    by fastforce
  have cl: "set claimed = fst ` set unique - known_ids db"
    using claim_receipts_fresh[of user "receipt_rows lib now unique" "receipts db"] by (simp add: tc known_ids_def)
  have fresh: "filter (\<lambda>(eid, env). eid \<in> set claimed) unique = filter (\<lambda>(eid, env). eid \<notin> known_ids db) unique"
    and stale: "filter (\<lambda>(eid, env). eid \<notin> set claimed) unique = filter (\<lambda>(eid, env). eid \<in> known_ids db) unique"
    unfolding cl by (auto intro!: filter_cong intro: rev_image_eqI)
  from assms show thesis
    unfolding apply_transaction_def ud u prod.case Let_def option.case bind_res.simps
      receipt_rows_def[symmetric] tc fresh stale
    by (elim bind_resE; simp add: case_prod_beta)
      (rule that[OF u ud]; (auto simp: tc fresh stale)?; force?)
qed

lemma apply_transaction_receipts:
  assumes "apply_transaction cfg lib now faults user_id envs db = Inr (db', user_exists, r)"
  shows "known_ids db' = known_ids db \<union> ids_of lib envs"
  using assms
proof (cases rule: apply_transaction_cases)
  case (1 user unique dups)
  have "known_ids db' = set (dkeys (fst (claim_receipts user (receipt_rows lib now unique) (receipts db))))"
    using apply_claimed_frame[OF 1(7)] by (simp add: known_ids_def)
  also have "\<dots> = known_ids db \<union> fst ` set unique"
    unfolding claim_receipts_known by (simp add: known_ids_def)
  finally show ?thesis using unique_envelopes_props(4)[OF 1(2)] by (simp add: ids_of_def)
qed

text \<open>
  C12. Redelivery is idempotent: after an application whose transaction committed (even if the cache
  refresh then failed), applying any envelopes with the same event ids again, in any order, batch or
  number, with whatever faults, never changes the database.
\<close>

theorem redelivery_idempotent:
  assumes "apply_transaction cfg lib now faults user_id envs (w_db w) = Inr (db', user_exists, r)"
    and "ids_of lib envs' \<subseteq> ids_of lib envs" "w_db w' = db'"
  shows "w_db (fst (apply_for_user cfg lib now' faults' user_id envs' w')) = db'"
proof (cases "apply_transaction cfg lib now' faults' user_id envs' db'")
  case (Inl e)
  then show ?thesis using assms(3) by (simp add: apply_for_user_def)
next
  case (Inr x)
  obtain db2 ue2 r2 where x: "x = (db2, ue2, r2)" by (cases x)
  from Inr[unfolded x] have "db2 = db'"
  proof (cases rule: apply_transaction_cases)
    case (1 user unique dups)
    have sub: "fst ` set unique \<subseteq> known_ids db'"
      using unique_envelopes_props(4)[OF 1(2)] assms(2) apply_transaction_receipts[OF assms(1)]
      by (auto simp: ids_of_def)
    then have "filter (\<lambda>(eid, env). eid \<notin> known_ids db') unique = []"
      by (force simp: filter_empty_conv)
    then have "ar_applied r2 = []" using 1(6) by simp
    moreover have "claim_receipts user (receipt_rows lib now' unique) (receipts db') = (receipts db', [])"
      using sub by (intro receipts.claim_settled) (simp add: known_ids_def)
    ultimately show ?thesis using apply_claimed_nothing 1(7) by fastforce
  qed
  then show ?thesis
    using assms(3) Inr by (auto simp: apply_for_user_def x split: prod.splits)
qed


definition demo_db :: feature_db where
  "demo_db = \<lparr>receipts = [], user_topics = [(9, [])], vectors_v1 = [], vectors_v2 = [], db_posts = [],
     behavior_events = [], recent_prefs = []\<rparr>"

definition demo_cfg :: feature_cfg where
  "demo_cfg = \<lparr>fc_qualified_read_ms = 10000, fc_half_life_hours = 720, fc_channel_bound = 10,
     fc_pref_ttl_seconds = 1800, fc_trending_ttl_seconds = 86400, fc_backfill_batch_size = 500,
     fc_local_offset = 0, fc_uuid_arg = (\<lambda>v. case v of VStr s \<Rightarrow> uuid_of_string s | _ \<Rightarrow> None)\<rparr>"

definition demo_env :: "uuid \<Rightarrow> string \<Rightarrow> envelope" where
  "demo_env i ty = [(''event_id'', VStr (str_uuid i)), (''event_type'', VStr ty),
     (''data'', VMap [(''user_id'', VStr (str_uuid 9))])]"

lemma demo_env_fields [simp]:
  "env_id lib (demo_env i ty) = Some i" "ty \<noteq> [] \<Longrightarrow> env_type lib (demo_env i ty) = ty"
  "env_post_id (demo_env i ty) = Inr VNone" "env_occurred_at lib now (demo_env i ty) = now"
  "extract_user lib (demo_env i ty) = Some (str_uuid 9)"
  by (simp_all add: demo_env_def env_id_def env_type_def env_post_id_def env_occurred_at_def vget_def py_or_def
      extract_user_def UUID_KEYS_def uuid_of_str_uuid)

lemma apply_topic_delta_liked: "apply_topic_delta [] [] ''liked'' = [(GENERAL, py_round 4 (3/2))]"
  by (simp add: apply_topic_delta_def WEIGHTS_def dget_default_def)

lemma demo_apply:
  "apply_transaction demo_cfg clock_lib 0 (\<lambda>_. False) (str_uuid 9) [demo_env 1 ''liked''] demo_db =
   Inr (demo_db\<lparr>receipts := [(1, 9, ''liked'', 0)], vectors_v1 := [(9, [(GENERAL, py_round 4 (3/2))])]\<rparr>, True,
     \<lparr>ar_vector = [(GENERAL, py_round 4 (3/2))], ar_vector_v2 = None, ar_applied = [demo_env 1 ''liked''],
      ar_duplicates = [], ar_ignored = []\<rparr>)"
  by (simp add: apply_transaction_def unique_envelopes_def unique_step_def calling_def demo_db_def
      apply_claimed_def changes_vectors_def changes_recent_def v1_row_json_def v2_row_json_def update_vectors_def
      delta_vector_def replayed_vector_def post_ids_of_def apply_delta_def apply_topic_delta_liked
      behavior_of_def canonical_preference_events_def dget_default_def uuid_of_str_uuid Let_def)

theorem redelivery_idempotent_witness:
  "w_db (fst (apply_for_user demo_cfg clock_lib 5 (\<lambda>c. c = CacheCall 1) (str_uuid 9)
     [demo_env 1 ''liked'', demo_env 1 ''saved'']
     \<lparr>w_db = demo_db\<lparr>receipts := [(1, 9, ''liked'', 0)], vectors_v1 := [(9, [(GENERAL, py_round 4 (3/2))])]\<rparr>,
      w_cache = []\<rparr>)) =
   demo_db\<lparr>receipts := [(1, 9, ''liked'', 0)], vectors_v1 := [(9, [(GENERAL, py_round 4 (3/2))])]\<rparr>"
  by (rule redelivery_idempotent[where w = "\<lparr>w_db = demo_db, w_cache = []\<rparr>" and envs = "[demo_env 1 ''liked'']"])
    (simp_all, rule demo_apply, simp_all add: ids_of_def)

lemma partition_mset: "mset (map g (filter P xs)) + mset (map g (filter (\<lambda>x. \<not> P x) xs)) = mset (map g xs)"
  by (induction xs) auto

text \<open>
  C23. A committed application accounts for every envelope that carries an event id exactly once, as
  applied, duplicate or ignored; the receipts gain exactly the ids of the batch; and the applied and
  ignored envelopes are the first ones of the ids not seen before, one per id.
\<close>

theorem apply_accounts:
  assumes "apply_transaction cfg lib now faults user_id envs db = Inr (db', user_exists, r)"
  shows "mset (ar_applied r @ ar_ignored r @ ar_duplicates r) = mset (filter (\<lambda>e. env_id lib e \<noteq> None) envs) \<and>
    known_ids db' = known_ids db \<union> ids_of lib envs \<and>
    distinct (map (env_id lib) (ar_applied r @ ar_ignored r)) \<and>
    env_id lib ` set (ar_applied r @ ar_ignored r) = Some ` (ids_of lib envs - known_ids db) \<and>
    (user_exists \<longrightarrow> ar_ignored r = []) \<and> (\<not> user_exists \<longrightarrow> ar_applied r = [])"
  using assms
proof (cases rule: apply_transaction_cases)
  case (1 user unique dups)
  note u = unique_envelopes_props[OF 1(2)]
  let ?new = "filter (\<lambda>x. fst x \<notin> known_ids db) unique" and ?old = "filter (\<lambda>x. \<not> fst x \<notin> known_ids db) unique"
  have split: "ar_applied r @ ar_ignored r = map snd ?new" "ar_duplicates r = dups @ map snd ?old"
    using 1(4,5) by (simp_all add: case_prod_beta')
  have ids: "map (env_id lib) (map snd ?new) = map Some (map fst ?new)"
    using u(2) by (auto simp: case_prod_beta)
  have "mset (ar_applied r @ ar_ignored r @ ar_duplicates r) = mset (map snd unique) + mset dups"
    using split partition_mset[of snd "\<lambda>x. fst x \<notin> known_ids db" unique]
    by (simp only: append_assoc[symmetric] mset_append) (simp add: ac_simps)
  moreover have "distinct (map (env_id lib) (ar_applied r @ ar_ignored r))"
    unfolding split(1) ids using u(1) by (simp add: distinct_map distinct_filter inj_on_def)
  moreover have "env_id lib ` set (ar_applied r @ ar_ignored r) = Some ` (ids_of lib envs - known_ids db)"
  proof -
    have "env_id lib ` set (ar_applied r @ ar_ignored r) = set (map (env_id lib) (map snd ?new))"
      unfolding split(1) set_map ..
    also have "\<dots> = Some ` (fst ` set unique - known_ids db)" unfolding ids by auto
    finally show ?thesis unfolding u(4) ids_of_def .
  qed
  moreover have "(user_exists \<longrightarrow> ar_ignored r = []) \<and> (\<not> user_exists \<longrightarrow> ar_applied r = [])"
    using 1(4,6) by auto
  ultimately show ?thesis using u(3) apply_transaction_receipts[OF assms] by simp
qed

theorem apply_accounts_witness:
  "\<exists>db' r. apply_transaction demo_cfg clock_lib 0 (\<lambda>_. False) (str_uuid 9) [demo_env 1 ''liked''] demo_db =
     Inr (db', True, r) \<and> known_ids db' = {1} \<and> ar_ignored r = []"
  using apply_accounts[OF demo_apply] by (auto simp: demo_apply known_ids_def)

end
