(* ===== verification/MicroBatch.thy ===== *)
theory MicroBatch
  imports PyValues
begin

text \<open>
  \<open>workers/common/oecophylla_worker_common/kafka.py\<close>: the micro-batch buffer both workers read Kafka
  into. The monotonic clock is an argument (\<open>now\<close>) of the operations that read it. The locale
  \<open>batch_queue\<close> is the contract the workers use: what \<open>extend\<close>, \<open>prepend\<close> and \<open>drain\<close> do to the
  buffered values.
\<close>

record 'a micro_batch =
  batch_size :: int
  flush_interval_seconds :: real
  buffered :: "'a list"
  last_flush :: real

definition mb_init :: "int \<Rightarrow> real \<Rightarrow> real \<Rightarrow> 'a micro_batch res" where
  "mb_init max_size interval now =
     (if max_size < 1 then Inl (ValueError ''batch_size must be at least 1'')
      else if interval \<le> 0 then Inl (ValueError ''flush_interval_seconds must be positive'')
      else Inr \<lparr>batch_size = max_size, flush_interval_seconds = interval, buffered = [], last_flush = now\<rparr>)"

definition mb_timeout_ms :: "'a micro_batch \<Rightarrow> int" where
  "mb_timeout_ms b = max 1 \<lfloor>flush_interval_seconds b * 1000\<rfloor>"

text \<open>Records by partition; a tombstone has the value \<open>None\<close>.\<close>

definition mb_extend_records :: "'a micro_batch \<Rightarrow> ('p \<times> 'a option list) list \<Rightarrow> 'a micro_batch" where
  "mb_extend_records b records =
     foldl (\<lambda>b (p, recs).
              foldl (\<lambda>b v. case v of None \<Rightarrow> b | Some x \<Rightarrow> b\<lparr>buffered := buffered b @ [x]\<rparr>) b recs)
       b records"

definition mb_extend_values :: "'a micro_batch \<Rightarrow> 'a list \<Rightarrow> 'a micro_batch" where
  "mb_extend_values b vs = b\<lparr>buffered := buffered b @ vs\<rparr>"

definition mb_replace :: "'a micro_batch \<Rightarrow> 'a list \<Rightarrow> 'a micro_batch" where
  "mb_replace b vs = b\<lparr>buffered := vs\<rparr>"

definition mb_prepend :: "'a micro_batch \<Rightarrow> 'a list \<Rightarrow> 'a micro_batch" where
  "mb_prepend b vs = b\<lparr>buffered := vs @ buffered b\<rparr>"

definition mb_ready :: "'a micro_batch \<Rightarrow> real \<Rightarrow> bool" where
  "mb_ready b now \<longleftrightarrow>
     buffered b \<noteq> [] \<and>
     (int (length (buffered b)) \<ge> batch_size b \<or> now - last_flush b \<ge> flush_interval_seconds b)"

definition mb_touch :: "'a micro_batch \<Rightarrow> real \<Rightarrow> 'a micro_batch" where
  "mb_touch b now = b\<lparr>last_flush := now\<rparr>"

definition mb_drain :: "'a micro_batch \<Rightarrow> real \<Rightarrow> 'a list \<times> 'a micro_batch" where
  "mb_drain b now = (buffered b, mb_touch (b\<lparr>buffered := []\<rparr>) now)"

lemma buffered_extend_inner:
  "foldl (\<lambda>b v. case v of None \<Rightarrow> b | Some x \<Rightarrow> b\<lparr>buffered := buffered b @ [x]\<rparr>) b recs =
     b\<lparr>buffered := buffered b @ List.map_filter id recs\<rparr>"
  by (induction recs arbitrary: b) (auto simp: List.map_filter_def split: option.splits)

lemma buffered_extend_records:
  "mb_extend_records b records =
     b\<lparr>buffered := buffered b @ List.map_filter id (concat (map snd records))\<rparr>"
proof (induction records arbitrary: b)
  case Nil
  then show ?case by (simp add: mb_extend_records_def List.map_filter_def)
next
  case (Cons r records)
  then show ?case
    by (simp add: mb_extend_records_def buffered_extend_inner List.map_filter_def case_prod_beta)
qed

section \<open>The queue contract\<close>

locale batch_queue =
  fixes contents :: "'q \<Rightarrow> 'a list"
    and extend :: "'q \<Rightarrow> 'a list \<Rightarrow> 'q"
    and prepend :: "'q \<Rightarrow> 'a list \<Rightarrow> 'q"
    and drain :: "'q \<Rightarrow> real \<Rightarrow> 'a list \<times> 'q"
  assumes contents_extend: "contents (extend q xs) = contents q @ xs"
    and contents_prepend: "contents (prepend q xs) = xs @ contents q"
    and drain_all: "fst (drain q t) = contents q"
    and drain_empties: "contents (snd (drain q t)) = []"
begin

text \<open>Draining, settling some values and putting the failed ones back loses nothing.\<close>

lemma requeue_conserves:
  assumes "mset (fst (drain q t)) = mset settled + mset failed"
  shows "mset (contents (prepend (snd (drain q t)) failed)) + mset settled = mset (contents q)"
  using assms by (simp add: contents_prepend drain_empties drain_all)

lemma requeue_first:
  "contents (extend (prepend (snd (drain q t)) failed) xs) = failed @ xs"
  by (simp add: contents_prepend contents_extend drain_empties)

lemma extend_then_drain:
  "fst (drain (extend q xs) t) = contents q @ xs \<and> contents (snd (drain (extend q xs) t)) = []"
  by (simp add: drain_all drain_empties contents_extend)

end

interpretation mb: batch_queue buffered mb_extend_values mb_prepend mb_drain
  by unfold_locales
    (simp_all add: mb_extend_values_def mb_prepend_def mb_drain_def mb_touch_def)

section \<open>Runs of the buffer\<close>

datatype 'a buffer_op = Extend "('a option list)" | Drain real | Touch real

fun buffer_run :: "'a micro_batch \<Rightarrow> 'a buffer_op list \<Rightarrow> 'a list list \<times> 'a micro_batch" where
  "buffer_run b [] = ([], b)"
| "buffer_run b (Extend recs # ops) = buffer_run (mb_extend_records b [((), recs)]) ops"
| "buffer_run b (Touch t # ops) = buffer_run (mb_touch b t) ops"
| "buffer_run b (Drain t # ops) =
     (let (vs, b') = mb_drain b t; (outs, b'') = buffer_run b' ops in (vs # outs, b''))"

lemma buffer_run_Drain [simp]:
  "buffer_run b (Drain t # ops) =
     (fst (mb_drain b t) # fst (buffer_run (snd (mb_drain b t)) ops),
      snd (buffer_run (snd (mb_drain b t)) ops))"
  by (simp add: case_prod_beta Let_def)

declare buffer_run.simps(4) [simp del]

fun op_values :: "'a buffer_op \<Rightarrow> 'a list" where
  "op_values (Extend recs) = List.map_filter id recs"
| "op_values _ = []"

text \<open>
  C19. The buffer is a FIFO: over any run of extends, drains and touches, the drained batches in order
  followed by what is still buffered are exactly the initial contents followed by the non-tombstone
  values received, in order. Nothing is lost, duplicated or reordered.
\<close>

theorem buffer_run_fifo:
  "concat (fst (buffer_run b ops)) @ buffered (snd (buffer_run b ops)) =
     buffered b @ concat (map op_values ops)"
proof (induction ops arbitrary: b)
  case (Cons x ops)
  then show ?case
    by (cases x) (simp_all add: buffered_extend_records mb_touch_def mb.drain_all mb.drain_empties)
qed simp

text \<open>
  A constructed buffer is ready exactly when it holds a value and either the batch is full or the
  flush interval has passed; draining leaves it not ready until a new value arrives.
\<close>

theorem ready_then_drained:
  assumes "mb_init max_size interval t0 = Inr (b0 :: 'a micro_batch)"
  shows "mb_ready (snd (buffer_run b0 (ops @ [Drain t]))) now = False \<and>
    (let b = snd (buffer_run b0 ops) in
       mb_ready b now \<longleftrightarrow> buffered b \<noteq> [] \<and>
         (max_size \<le> int (length (buffered b)) \<or> interval \<le> now - last_flush b))"
proof -
  have app: "snd (buffer_run b (ops @ [Drain t])) = snd (mb_drain (snd (buffer_run b ops)) t)" for b :: "'a micro_batch"
  proof (induction ops arbitrary: b)
    case (Cons x ops)
    then show ?case by (cases x) auto
  qed simp
  have frame: "batch_size (snd (buffer_run b ops)) = batch_size b \<and>
      flush_interval_seconds (snd (buffer_run b ops)) = flush_interval_seconds b" for b :: "'a micro_batch"
  proof (induction ops arbitrary: b)
    case (Cons x ops)
    then show ?case
      by (cases x) (auto simp: mb_drain_def mb_touch_def buffered_extend_records)
  qed simp
  have "batch_size b0 = max_size \<and> flush_interval_seconds b0 = interval"
    using assms by (auto simp: mb_init_def split: if_splits)
  then show ?thesis
    using frame[of b0] by (auto simp: app mb.drain_empties mb_ready_def Let_def)
qed

theorem ready_then_drained_witness:
  "let b0 = \<lparr>batch_size = 2, flush_interval_seconds = 5, buffered = [], last_flush = 0\<rparr> in
   mb_ready (snd (buffer_run b0 ([Extend [Some (7::int), None, Some 8]] @ [Drain 1]))) 9 = False \<and>
   mb_ready (snd (buffer_run b0 [Extend [Some (7::int), None, Some 8]])) 1"
  using ready_then_drained[of 2 5 0 "\<lparr>batch_size = 2, flush_interval_seconds = 5, buffered = [], last_flush = 0\<rparr>"
      "[Extend [Some (7::int), None, Some 8]]" 1 9]
    ready_then_drained[of 2 5 0 "\<lparr>batch_size = 2, flush_interval_seconds = 5, buffered = [], last_flush = 0\<rparr>"
      "[Extend [Some (7::int), None, Some 8]]" 1 1]
  by (simp add: mb_init_def Let_def buffered_extend_records List.map_filter_def)

end
