(* ===== verification/FeatureWorker.thy ===== *)
theory FeatureWorker
  imports FeatureStore MicroBatch
begin

text \<open>
  \<open>Worker._flush\<close>, \<open>Worker._update_trending\<close>, \<open>Worker._refresh_due_recent_topics\<close> and the consume loop
  \<open>Worker.run\<close> of \<open>workers/feature_store_worker/app/main.py\<close>. The loop is a step relation over the Kafka
  partition, the committed offset and the worker; polls, flushes, failed commits and crashes interleave
  arbitrarily. The invariant gives at-least-once processing: no offset is committed past a record that
  is not settled.
\<close>

record worker_state =
  ws_batch :: "envelope micro_batch"
  ws_world :: feature_world
  ws_trending :: "(string, real) dict"
  ws_outcomes :: "(string \<times> string) list"

section \<open>Flush\<close>

datatype routing = RouteUser string | RouteDrop string string

definition route_event :: "pylib \<Rightarrow> int \<Rightarrow> envelope \<Rightarrow> routing res" where
  "route_event lib qualified_read_ms env =
     (let event_type = env_type lib env in
      if event_type \<in> IGNORED_EVENT_TYPES then Inr (RouteDrop ''ignored'' event_type)
      else if event_type \<notin> set (dkeys WEIGHTS)
      then Inr (RouteDrop ''unknown'' (if event_type = [] then ''missing'' else event_type))
      else bind_res (valid_feature_event lib qualified_read_ms env) (\<lambda>ok.
        if \<not> ok then Inr (RouteDrop ''invalid'' event_type)
        else case extract_user lib env of
          None \<Rightarrow> Inr (RouteDrop (if identity_field_is_present env then ''invalid'' else ''unknown'') event_type)
        | Some user \<Rightarrow>
            if env_id lib env = None then Inr (RouteDrop ''unknown'' event_type)
            else Inr (RouteUser user)))"

definition route_step ::
    "pylib \<Rightarrow> int \<Rightarrow> (string, envelope list) dict \<times> (string \<times> string) list \<Rightarrow> envelope \<Rightarrow>
     ((string, envelope list) dict \<times> (string \<times> string) list) res" where
  "route_step lib q st env =
     (let (per_user, outcomes) = st in
      bind_res (route_event lib q env) (\<lambda>r.
        case r of
          RouteDrop outcome ty \<Rightarrow> Inr (per_user, outcomes @ [(outcome, ty)])
        | RouteUser user \<Rightarrow> Inr (dset per_user user (dget_default per_user user [] @ [env]), outcomes)))"

record flush_acc =
  fa_world :: feature_world
  fa_trending :: "envelope list"
  fa_outcomes :: "(string \<times> string) list"
  fa_failed :: "envelope list"

definition outcome_rows :: "pylib \<Rightarrow> string \<Rightarrow> envelope list \<Rightarrow> (string \<times> string) list" where
  "outcome_rows lib outcome envs = map (\<lambda>env. (outcome, env_type lib env)) envs"

definition flush_user ::
    "feature_cfg \<Rightarrow> pylib \<Rightarrow> instant \<Rightarrow> (string \<Rightarrow> faults) \<Rightarrow> flush_acc \<Rightarrow> string \<times> envelope list \<Rightarrow> flush_acc" where
  "flush_user cfg lib now faults acc ue =
     (let (user_id, user_events) = ue;
          (w, result) = apply_for_user cfg lib now (faults user_id) user_id user_events (fa_world acc) in
      case result of
        Inl _ \<Rightarrow> acc\<lparr>fa_world := w, fa_failed := fa_failed acc @ user_events\<rparr>
      | Inr r \<Rightarrow>
          acc\<lparr>fa_world := w, fa_trending := fa_trending acc @ ar_applied r,
              fa_outcomes := fa_outcomes acc @ outcome_rows lib ''applied'' (ar_applied r) @
                outcome_rows lib ''duplicate'' (ar_duplicates r) @ outcome_rows lib ''ignored'' (ar_ignored r)\<rparr>)"

text \<open>\<open>_update_trending\<close>; the pipeline is one atomic Redis transaction, \<open>redis_down\<close> says it raises.\<close>

definition trending_scores :: "pylib \<Rightarrow> envelope list \<Rightarrow> (string, real) dict res" where
  "trending_scores lib envs =
     fold_res (\<lambda>scores env. bind_res (env_post_id env) (\<lambda>pid.
         let delta = dget_default WEIGHTS (env_type lib env) 0 in
         if \<not> truthy pid \<or> delta = 0 then Inr scores
         else Inr (dset scores (py_str lib pid) (dget_default scores (py_str lib pid) 0 + delta))))
       [] envs"

definition update_trending ::
    "pylib \<Rightarrow> bool \<Rightarrow> envelope list \<Rightarrow> (string, real) dict \<Rightarrow> (string, real) dict res" where
  "update_trending lib redis_down envs trending =
     bind_res (trending_scores lib envs) (\<lambda>scores.
       if scores = [] then Inr trending
       else if redis_down then Inl (ServiceError ''redis'')
       else Inr (foldl (\<lambda>t (pid, delta). if delta \<noteq> 0 then dset t pid (dget_default t pid 0 + delta) else t)
                   trending scores))"

definition flush ::
    "feature_cfg \<Rightarrow> pylib \<Rightarrow> instant \<Rightarrow> real \<Rightarrow> (string \<Rightarrow> faults) \<Rightarrow> bool \<Rightarrow> worker_state \<Rightarrow>
     worker_state \<times> bool res" where
  "flush cfg lib now tick faults redis_down st =
     (if buffered (ws_batch st) = [] then (st\<lparr>ws_batch := mb_touch (ws_batch st) tick\<rparr>, Inr True)
      else
        let (events, batch) = mb_drain (ws_batch st) tick in
        case fold_res (route_step lib (fc_qualified_read_ms cfg)) ([], []) events of
          Inl e \<Rightarrow> (st\<lparr>ws_batch := batch\<rparr>, Inl e)
        | Inr (per_user, dropped) \<Rightarrow>
            let acc = foldl (flush_user cfg lib now faults)
                        \<lparr>fa_world = ws_world st, fa_trending = [], fa_outcomes = dropped, fa_failed = []\<rparr> per_user;
                trending = (if fa_trending acc = [] then ws_trending st
                            else case update_trending lib redis_down (fa_trending acc) (ws_trending st) of
                              Inl _ \<Rightarrow> ws_trending st | Inr t \<Rightarrow> t);
                batch = (if fa_failed acc = [] then batch else mb_prepend batch (fa_failed acc)) in
            (st\<lparr>ws_batch := batch, ws_world := fa_world acc, ws_trending := trending,
                ws_outcomes := ws_outcomes st @ fa_outcomes acc\<rparr>, Inr (fa_failed acc = [])))"

section \<open>Periodic refresh of recent topics\<close>

text \<open>The first 100 due users, \<open>ORDER BY next_refresh_at, user_id\<close>.\<close>

definition due_users :: "instant \<Rightarrow> feature_db \<Rightarrow> uuid list" where
  "due_users now db =
     map snd (take 100 (sort_key id
       (List.map_filter (\<lambda>(u, (_, next)). case next of
            None \<Rightarrow> None | Some t \<Rightarrow> if t \<le> now then Some (t, u) else None) (recent_prefs db))))"

definition refresh_due_user ::
    "feature_cfg \<Rightarrow> instant \<Rightarrow> (uuid \<Rightarrow> bool) \<Rightarrow> feature_world \<Rightarrow> uuid \<Rightarrow> feature_world res" where
  "refresh_due_user cfg now cache_down w user =
     (case dget (recent_prefs (w_db w)) user of
        None \<Rightarrow> Inr w
      | Some _ \<Rightarrow>
          bind_res (refresh_recent_topics cfg now user (w_db w)) (\<lambda>(db, _).
            if cache_down user
            then Inr (w\<lparr>w_db := db\<lparr>recent_prefs := dset (recent_prefs db) user
                          (case dget (recent_prefs db) user of Some (r, _) \<Rightarrow> (r, Some now) | None \<Rightarrow> (now, Some now))\<rparr>\<rparr>)
            else Inr (w\<lparr>w_db := db,
                        w_cache := run_cache_cmd (CacheDelete (preference_cache_keys (str_uuid user))) (w_cache w)\<rparr>)))"

definition refresh_due_recent_topics ::
    "feature_cfg \<Rightarrow> instant \<Rightarrow> (uuid \<Rightarrow> bool) \<Rightarrow> feature_world \<Rightarrow> feature_world res" where
  "refresh_due_recent_topics cfg now cache_down w =
     fold_res (refresh_due_user cfg now cache_down) w (due_users now (w_db w))"

section \<open>The consume loop\<close>

record run_state =
  position :: nat
  committed :: nat
  worker :: worker_state

text \<open>
  \<open>part\<close> is the partition: the decoded value of each record, \<open>None\<close> for a tombstone. A crash or restart
  loses the buffer and resumes at the committed offset; the database survives.
\<close>

definition restarted :: "real \<Rightarrow> run_state \<Rightarrow> run_state" where
  "restarted t st = st\<lparr>position := committed st,
     worker := (worker st)\<lparr>ws_batch := mb_touch (mb_replace (ws_batch (worker st)) []) t\<rparr>\<rparr>"

inductive kafka_step :: "feature_cfg \<Rightarrow> pylib \<Rightarrow> envelope option list \<Rightarrow> run_state \<Rightarrow> run_state \<Rightarrow> bool"
  for cfg lib part where
  poll: "position st + k \<le> length part \<Longrightarrow>
    kafka_step cfg lib part st
      (st\<lparr>position := position st + k,
          worker := (worker st)\<lparr>ws_batch :=
            mb_extend_records (ws_batch (worker st)) [((), take k (drop (position st) part))]\<rparr>\<rparr>)"
| flushed: "\<lbrakk>mb_ready (ws_batch (worker st)) tick \<or> stopping;
    flush cfg lib now tick faults redis_down (worker st) = (w, Inr True)\<rbrakk> \<Longrightarrow>
    kafka_step cfg lib part st
      (st\<lparr>worker := w, committed := (if commit_fails then committed st else position st)\<rparr>)"
| requeued: "flush cfg lib now tick faults redis_down (worker st) = (w, Inr False) \<Longrightarrow>
    kafka_step cfg lib part st (st\<lparr>worker := w\<rparr>)"
| flush_raises: "flush cfg lib now tick faults redis_down (worker st) = (w, Inl e) \<Longrightarrow>
    kafka_step cfg lib part st (restarted t (st\<lparr>worker := w\<rparr>))"
| refreshed: "refresh_due_recent_topics cfg now cache_down (ws_world (worker st)) = Inr w \<Longrightarrow>
    kafka_step cfg lib part st (st\<lparr>worker := (worker st)\<lparr>ws_world := w\<rparr>\<rparr>)"
| crash: "kafka_step cfg lib part st (restarted t st)"

inductive_cases kafka_stepE: "kafka_step cfg lib part st st'"

inductive kafka_reachable :: "feature_cfg \<Rightarrow> pylib \<Rightarrow> envelope option list \<Rightarrow> run_state \<Rightarrow> run_state \<Rightarrow> bool"
  for cfg lib part st0 where
  start: "kafka_reachable cfg lib part st0 st0"
| more: "kafka_reachable cfg lib part st0 st \<Longrightarrow> kafka_step cfg lib part st st' \<Longrightarrow> kafka_reachable cfg lib part st0 st'"


section \<open>Settled events\<close>

definition droppable :: "pylib \<Rightarrow> int \<Rightarrow> envelope \<Rightarrow> bool" where
  "droppable lib q env \<longleftrightarrow> (\<exists>outcome ty. route_event lib q env = Inr (RouteDrop outcome ty))"

definition settled :: "feature_cfg \<Rightarrow> pylib \<Rightarrow> feature_world \<Rightarrow> envelope \<Rightarrow> bool" where
  "settled cfg lib w env \<longleftrightarrow>
     droppable lib (fc_qualified_read_ms cfg) env \<or> (\<exists>i. env_id lib env = Some i \<and> i \<in> known_ids (w_db w))"

lemma settled_mono: "settled cfg lib w env \<Longrightarrow> known_ids (w_db w) \<subseteq> known_ids (w_db w') \<Longrightarrow> settled cfg lib w' env"
  by (auto simp: settled_def)

lemma apply_for_user_known:
  assumes "apply_for_user cfg lib now faults user_id envs w = (w', res)"
  shows "known_ids (w_db w) \<subseteq> known_ids (w_db w')"
    and "res = Inr r \<Longrightarrow> ids_of lib envs \<subseteq> known_ids (w_db w')"
    and "res = Inr r \<Longrightarrow> length (ar_applied r) + length (ar_duplicates r) + length (ar_ignored r) =
           length (filter (\<lambda>e. env_id lib e \<noteq> None) envs)"
proof -
  let ?tx = "apply_transaction cfg lib now faults user_id envs (w_db w)"
  show "known_ids (w_db w) \<subseteq> known_ids (w_db w')"
    using assms apply_transaction_receipts[of cfg lib now faults user_id envs "w_db w"]
    by (auto simp: apply_for_user_def split: sum.splits if_splits prod.splits)
  assume r: "res = Inr r"
  then obtain db ue where tx: "?tx = Inr (db, ue, r)" and db: "w_db w' = db"
    using assms by (auto simp: apply_for_user_def split: sum.splits if_splits prod.splits)
  show "ids_of lib envs \<subseteq> known_ids (w_db w')"
    using apply_transaction_receipts[OF tx] by (simp add: db)
  have "mset (ar_applied r @ ar_ignored r @ ar_duplicates r) = mset (filter (\<lambda>e. env_id lib e \<noteq> None) envs)"
    using tx
  proof (cases rule: apply_transaction_cases)
    case (1 user unique dups)
    have "ar_applied r @ ar_ignored r = map snd (filter (\<lambda>x. fst x \<notin> known_ids (w_db w)) unique)"
      "ar_duplicates r = dups @ map snd (filter (\<lambda>x. \<not> fst x \<notin> known_ids (w_db w)) unique)"
      using 1(4,5) by (simp_all add: case_prod_beta')
    then show ?thesis
      using unique_envelopes_props(3)[OF 1(2)] partition_mset[of snd "\<lambda>x. fst x \<notin> known_ids (w_db w)" unique]
      by (simp only: append_assoc[symmetric] mset_append) (simp add: ac_simps)
  qed
  from arg_cong[OF this, of size] show "length (ar_applied r) + length (ar_duplicates r) + length (ar_ignored r) =
      length (filter (\<lambda>e. env_id lib e \<noteq> None) envs)"
    unfolding size_mset by simp
qed

lemma route_event_user:
  "route_event lib q env = Inr (RouteUser u) \<Longrightarrow> env_id lib env \<noteq> None"
  by (auto simp: route_event_def Let_def split: if_splits option.splits)

definition group_values :: "('k, 'a list) dict \<Rightarrow> 'a multiset" where
  "group_values d = mset (concat (dvalues d))"

lemma group_values_add:
  "distinct (dkeys d) \<Longrightarrow> group_values (dset d k (dget_default d k [] @ [x])) = group_values d + {#x#}"
proof (induction d)
  case Nil
  then show ?case by (simp add: group_values_def dget_default_def)
next
  case (Cons kv d)
  obtain k' v where kv: "kv = (k', v)" by fastforce
  show ?case
    using Cons by (cases "k = k'") (simp_all add: kv group_values_def dget_default_def)
qed

lemma route_fold:
  assumes "fold_res (route_step lib q) ([], []) evs = Inr (per_user, dropped)"
  shows "distinct (dkeys per_user) \<and> length dropped + size (group_values per_user) = length evs \<and>
    (\<forall>e\<in>set evs. droppable lib q e \<or> e \<in># group_values per_user) \<and>
    (\<forall>e\<in>#group_values per_user. e \<in> set evs \<and> env_id lib e \<noteq> None)"
  using assms
proof (induction evs arbitrary: per_user dropped rule: rev_induct)
  case Nil
  then show ?case by (simp add: group_values_def)
next
  case (snoc e evs)
  from snoc.prems obtain pu dr where IHs: "fold_res (route_step lib q) ([], []) evs = Inr (pu, dr)"
    and step: "route_step lib q (pu, dr) e = Inr (per_user, dropped)"
    by (auto simp: fold_res_snoc)
  note IH = snoc.IH[OF IHs]
  from step obtain r where r: "route_event lib q e = Inr r" by (auto simp: route_step_def)
  show ?case
  proof (cases r)
    case (RouteUser u)
    then have "per_user = dset pu u (dget_default pu u [] @ [e])" "dropped = dr"
      using step r by (simp_all add: route_step_def)
    with IH route_event_user r RouteUser show ?thesis by (auto simp: group_values_add)
  next
    case (RouteDrop o' t)
    then have "per_user = pu" "dropped = dr @ [(o', t)]" using step r by (simp_all add: route_step_def)
    with IH r RouteDrop show ?thesis by (auto simp: droppable_def)
  qed
qed

lemma flush_user_fold:
  assumes "foldl (flush_user cfg lib now faults) acc groups = acc'"
    and "\<forall>e\<in>set (concat (map snd groups)). env_id lib e \<noteq> None"
  shows "known_ids (w_db (fa_world acc)) \<subseteq> known_ids (w_db (fa_world acc')) \<and>
    length (fa_outcomes acc') + length (fa_failed acc') =
      length (fa_outcomes acc) + length (fa_failed acc) + length (concat (map snd groups)) \<and>
    set (fa_failed acc') \<subseteq> set (fa_failed acc) \<union> set (concat (map snd groups)) \<and>
    set (fa_failed acc) \<subseteq> set (fa_failed acc') \<and>
    (\<forall>e\<in>set (concat (map snd groups)). e \<in> set (fa_failed acc') \<or>
       (\<exists>i. env_id lib e = Some i \<and> i \<in> known_ids (w_db (fa_world acc'))))"
  using assms
proof (induction groups arbitrary: acc)
  case Nil
  then show ?case by simp
next
  case (Cons g groups)
  obtain u evs where g: "g = (u, evs)" by fastforce
  let ?acc1 = "flush_user cfg lib now faults acc g"
  obtain w res where ap: "apply_for_user cfg lib now (faults u) u evs (fa_world acc) = (w, res)" by fastforce
  note known = apply_for_user_known[OF ap]
  have all: "filter (\<lambda>e. env_id lib e \<noteq> None) evs = evs" using Cons.prems(2) by (simp add: g)
  have step: "known_ids (w_db (fa_world acc)) \<subseteq> known_ids (w_db (fa_world ?acc1)) \<and>
      length (fa_outcomes ?acc1) + length (fa_failed ?acc1) =
        length (fa_outcomes acc) + length (fa_failed acc) + length evs \<and>
      set (fa_failed ?acc1) \<subseteq> set (fa_failed acc) \<union> set evs \<and> set (fa_failed acc) \<subseteq> set (fa_failed ?acc1) \<and>
      (\<forall>e\<in>set evs. e \<in> set (fa_failed ?acc1) \<or>
        (\<exists>i. env_id lib e = Some i \<and> i \<in> known_ids (w_db (fa_world ?acc1))))"
  proof (cases res)
    case (Inl e)
    then show ?thesis using known(1) by (simp add: flush_user_def g ap)
  next
    case (Inr r)
    then have "\<forall>e\<in>set evs. \<exists>i. env_id lib e = Some i \<and> i \<in> known_ids (w_db w)"
      using known(2)[OF Inr] Cons.prems(2) unfolding ids_of_def g by fastforce
    then show ?thesis using known(1) known(3)[OF Inr] Inr all
      by (simp add: flush_user_def g ap outcome_rows_def)
  qed
  have IH: "known_ids (w_db (fa_world ?acc1)) \<subseteq> known_ids (w_db (fa_world acc')) \<and>
    length (fa_outcomes acc') + length (fa_failed acc') =
      length (fa_outcomes ?acc1) + length (fa_failed ?acc1) + length (concat (map snd groups)) \<and>
    set (fa_failed acc') \<subseteq> set (fa_failed ?acc1) \<union> set (concat (map snd groups)) \<and>
    set (fa_failed ?acc1) \<subseteq> set (fa_failed acc') \<and>
    (\<forall>e\<in>set (concat (map snd groups)). e \<in> set (fa_failed acc') \<or>
       (\<exists>i. env_id lib e = Some i \<and> i \<in> known_ids (w_db (fa_world acc'))))"
    using Cons.prems by (intro Cons.IH) auto
  have c: "concat (map snd (g # groups)) = evs @ concat (map snd groups)" by (simp add: g)
  show ?case unfolding c set_append length_append using step IH by (fastforce simp del: set_concat length_concat)
qed


lemma flush_result:
  assumes "flush cfg lib now tick faults redis_down st = (st', Inr ok)"
  shows "known_ids (w_db (ws_world st)) \<subseteq> known_ids (w_db (ws_world st')) \<and>
    (ok \<longleftrightarrow> buffered (ws_batch st') = []) \<and>
    set (buffered (ws_batch st')) \<subseteq> set (buffered (ws_batch st)) \<and>
    length (ws_outcomes st') + length (buffered (ws_batch st')) = length (ws_outcomes st) + length (buffered (ws_batch st)) \<and>
    (\<forall>e\<in>set (buffered (ws_batch st)). settled cfg lib (ws_world st') e \<or> e \<in> set (buffered (ws_batch st')))"
proof (cases "buffered (ws_batch st) = []")
  case True
  with assms show ?thesis by (auto simp: flush_def mb_touch_def)
next
  case False
  let ?evs = "buffered (ws_batch st)" and ?batch = "snd (mb_drain (ws_batch st) tick)"
  obtain per_user dropped where route:
    "fold_res (route_step lib (fc_qualified_read_ms cfg)) ([], []) ?evs = Inr (per_user, dropped)"
    using assms False by (auto simp: flush_def mb_drain_def split: sum.splits)
  note rf = route_fold[OF route]
  define acc where "acc = foldl (flush_user cfg lib now faults)
      \<lparr>fa_world = ws_world st, fa_trending = [], fa_outcomes = dropped, fa_failed = []\<rparr> per_user"
  have groups: "set (concat (map snd per_user)) = set_mset (group_values per_user)"
    "length (concat (map snd per_user)) = size (group_values per_user)"
    by (simp_all add: group_values_def del: set_concat length_concat)
  have ids: "\<forall>e\<in>set (concat (map snd per_user)). env_id lib e \<noteq> None" unfolding groups(1) using rf by blast
  note ff = flush_user_fold[OF acc_def[symmetric] ids, unfolded groups flush_acc.select_convs]
  define b where "b = (if fa_failed acc = [] then ?batch else mb_prepend ?batch (fa_failed acc))"
  have buf: "buffered b = fa_failed acc"
    using mb.contents_prepend[of ?batch "fa_failed acc"] mb.drain_empties[of "ws_batch st" tick] by (simp add: b_def)
  have st': "ws_batch st' = b" "ws_world st' = fa_world acc" "ws_outcomes st' = ws_outcomes st @ fa_outcomes acc"
    "ok \<longleftrightarrow> fa_failed acc = []"
    using assms False mb.drain_all[of "ws_batch st" tick]
    by (auto simp: flush_def case_prod_beta Let_def route acc_def b_def)
  have "settled cfg lib (fa_world acc) e \<or> e \<in> set (fa_failed acc)" if "e \<in> set ?evs" for e
    using that rf ff by (auto simp: settled_def)
  moreover have "set (fa_failed acc) \<subseteq> set ?evs" using ff rf by auto
  moreover have "length (fa_outcomes acc) + length (fa_failed acc) = length ?evs" using ff rf by simp
  ultimately show ?thesis using ff by (simp add: st' buf)
qed

lemma flush_raises_world:
  "flush cfg lib now tick faults redis_down st = (st', Inl e) \<Longrightarrow> ws_world st' = ws_world st"
  by (auto simp: flush_def mb_drain_def Let_def split: sum.splits if_splits prod.splits)

lemma refresh_due_known:
  assumes "refresh_due_recent_topics cfg now cache_down w = Inr w'"
  shows "known_ids (w_db w') = known_ids (w_db w)"
proof -
  have "known_ids (w_db w2) = known_ids (w_db w1)" if step: "refresh_due_user cfg now cache_down w1 u = Inr w2" for w1 w2 u
  proof (cases "dget (recent_prefs (w_db w1)) u")
    case None
    then show ?thesis using step by (simp add: refresh_due_user_def)
  next
    case (Some p)
    then obtain db ts where r: "refresh_recent_topics cfg now u (w_db w1) = Inr (db, ts)"
      using step by (cases "refresh_recent_topics cfg now u (w_db w1)") (auto simp: refresh_due_user_def)
    then have "receipts (w_db w2) = receipts db"
      using step Some by (auto simp: refresh_due_user_def split: if_splits)
    with refresh_recent_topics_frame[OF r] show ?thesis by (simp add: known_ids_def)
  qed
  then have "fold_res (refresh_due_user cfg now cache_down) w us = Inr w' \<Longrightarrow>
      known_ids (w_db w') = known_ids (w_db w)" for us
    by (induction us arbitrary: w) fastforce+
  with assms show ?thesis by (simp add: refresh_due_recent_topics_def)
qed

section \<open>At-least-once processing\<close>

definition loop_inv :: "feature_cfg \<Rightarrow> pylib \<Rightarrow> envelope option list \<Rightarrow> run_state \<Rightarrow> bool" where
  "loop_inv cfg lib part st \<longleftrightarrow>
     committed st \<le> position st \<and> position st \<le> length part \<and>
     (\<forall>e. Some e \<in> set (take (committed st) part) \<longrightarrow> settled cfg lib (ws_world (worker st)) e) \<and>
     (\<forall>e. Some e \<in> set (take (position st) part) \<longrightarrow>
        settled cfg lib (ws_world (worker st)) e \<or> e \<in> set (buffered (ws_batch (worker st))))"

lemma take_committed_subset:
  "n \<le> m \<Longrightarrow> set (take n xs) \<subseteq> set (take m xs)"
  by (simp add: set_take_subset_set_take)

lemma loop_inv_step:
  assumes "kafka_step cfg lib part st st'" "loop_inv cfg lib part st"
  shows "loop_inv cfg lib part st' \<and>
    known_ids (w_db (ws_world (worker st))) \<subseteq> known_ids (w_db (ws_world (worker st')))"
  using assms
proof (cases rule: kafka_step.cases)
  case (poll k)
  let ?new = "take k (drop (position st) part)"
  have take: "take (position st + k) part = take (position st) part @ ?new" by (simp add: take_add)
  have "set (List.map_filter id ?new) = {e. Some e \<in> set ?new}"
    by (force simp: List.map_filter_def)
  then show ?thesis using assms(2) poll
    by (auto simp: loop_inv_def buffered_extend_records take)
next
  case (flushed tick stopping now faults redis_down w commit_fails)
  note fr = flush_result[OF flushed(3)]
  have "settled cfg lib (ws_world w) e" if "Some e \<in> set (take (position st) part)" for e
    using that assms(2) fr settled_mono unfolding loop_inv_def by (metis empty_iff list.set(1))
  then show ?thesis
    using assms(2) flushed(1) fr take_committed_subset[of "committed st" "position st" part]
    by (auto simp: loop_inv_def)
next
  case (requeued now tick faults redis_down w)
  note fr = flush_result[OF requeued(2)]
  then show ?thesis
    using assms(2) requeued(1) settled_mono[of cfg lib "ws_world (worker st)" _ "ws_world w"]
    by (auto simp: loop_inv_def)
next
  case (flush_raises now tick faults redis_down w e t)
  then show ?thesis
    using assms(2) flush_raises_world[OF flush_raises(2)] by (auto simp: loop_inv_def restarted_def)
next
  case (refreshed now cache_down w)
  then show ?thesis
    using assms(2) refresh_due_known[OF refreshed(2)] by (auto simp: loop_inv_def settled_def)
next
  case (crash t)
  then show ?thesis using assms(2) by (auto simp: loop_inv_def restarted_def)
qed

lemma loop_inv_reachable:
  assumes "kafka_reachable cfg lib part st0 st" "loop_inv cfg lib part st0"
  shows "loop_inv cfg lib part st \<and>
    known_ids (w_db (ws_world (worker st0))) \<subseteq> known_ids (w_db (ws_world (worker st)))"
  using assms by (induction rule: kafka_reachable.induct) (auto dest!: loop_inv_step)

definition loop_start :: "envelope micro_batch \<Rightarrow> feature_world \<Rightarrow> run_state" where
  "loop_start b w = \<lparr>position = 0, committed = 0,
     worker = \<lparr>ws_batch = mb_replace b [], ws_world = w, ws_trending = [], ws_outcomes = []\<rparr>\<rparr>"

lemma loop_inv_start: "loop_inv cfg lib part (loop_start b w)"
  by (simp add: loop_inv_def loop_start_def)


text \<open>
  C24. A flush that returns accounts for every buffered envelope: each gets exactly one recorded outcome
  or is put back, in front, for the next flush; it reports success exactly when nothing was put back,
  and every envelope not put back is settled.
\<close>

theorem flush_accounts:
  assumes "flush cfg lib now tick faults redis_down st = (st', Inr ok)"
  shows "length (ws_outcomes st') + length (buffered (ws_batch st')) =
      length (ws_outcomes st) + length (buffered (ws_batch st)) \<and>
    (ok \<longleftrightarrow> buffered (ws_batch st') = []) \<and>
    set (buffered (ws_batch st')) \<subseteq> set (buffered (ws_batch st)) \<and>
    (\<forall>e\<in>set (buffered (ws_batch st)) - set (buffered (ws_batch st')). settled cfg lib (ws_world st') e)"
  using flush_result[OF assms] by auto


definition demo_worker :: "envelope list \<Rightarrow> worker_state" where
  "demo_worker envs = \<lparr>ws_batch = \<lparr>batch_size = 1, flush_interval_seconds = 5, buffered = envs, last_flush = 0\<rparr>,
     ws_world = \<lparr>w_db = demo_db, w_cache = []\<rparr>, ws_trending = [], ws_outcomes = []\<rparr>"

lemma demo_route: "route_event lib 10000 (demo_env i ''liked'') = Inr (RouteUser (str_uuid 9))"
  by (simp add: route_event_def IGNORED_EVENT_TYPES_def WEIGHTS_def valid_feature_event_def)

lemma run_cache_ok: "snd (run_cache (\<lambda>_. False) n cmds c)"
  by (induction cmds arbitrary: n c) auto

lemma demo_apply_for_user:
  "\<exists>w'. apply_for_user demo_cfg clock_lib 0 (\<lambda>_. False) (str_uuid 9) [demo_env 1 ''liked'']
     \<lparr>w_db = demo_db, w_cache = []\<rparr> =
   (w', Inr \<lparr>ar_vector = [(GENERAL, py_round 4 (3/2))], ar_vector_v2 = None, ar_applied = [demo_env 1 ''liked''],
      ar_duplicates = [], ar_ignored = []\<rparr>)"
proof -
  have ok: "run_cache (\<lambda>_. False) n cmds c = (fst (run_cache (\<lambda>_. False) n cmds c), True)" for n cmds c
    using run_cache_ok[of n cmds c] by (metis prod.collapse)
  show ?thesis by (simp add: apply_for_user_def demo_apply) (subst ok, simp)
qed

lemma demo_flush:
  "\<exists>w'. flush demo_cfg clock_lib 0 1 (\<lambda>_ _. False) False (demo_worker [demo_env 1 ''liked'']) = (w', Inr True)"
proof -
  obtain w' where w': "apply_for_user demo_cfg clock_lib 0 (\<lambda>_. False) (str_uuid 9) [demo_env 1 ''liked'']
     \<lparr>w_db = demo_db, w_cache = []\<rparr> =
   (w', Inr \<lparr>ar_vector = [(GENERAL, py_round 4 (3/2))], ar_vector_v2 = None, ar_applied = [demo_env 1 ''liked''],
      ar_duplicates = [], ar_ignored = []\<rparr>)" using demo_apply_for_user by blast
  have q: "fc_qualified_read_ms demo_cfg = 10000" by (simp add: demo_cfg_def)
  show ?thesis
    by (simp add: flush_def demo_worker_def mb_drain_def mb_touch_def route_step_def demo_route q dget_default_def
        flush_user_def w' Let_def)
qed

theorem flush_accounts_witness:
  "\<exists>st'. flush demo_cfg clock_lib 0 1 (\<lambda>_ _. False) False (demo_worker [demo_env 1 ''liked'']) = (st', Inr True) \<and>
     length (ws_outcomes st') = 1 \<and> settled demo_cfg clock_lib (ws_world st') (demo_env 1 ''liked'')"
proof -
  obtain st' where st': "flush demo_cfg clock_lib 0 1 (\<lambda>_ _. False) False (demo_worker [demo_env 1 ''liked'']) =
      (st', Inr True)" using demo_flush by blast
  from flush_accounts[OF this] st' show ?thesis by (auto simp: demo_worker_def)
qed


end
