(* ===== verification/FeatureRebuild.thy ===== *)
theory FeatureRebuild
  imports FeatureStore
begin

text \<open>
  Rebuilding stored v2 vectors: \<open>Worker._rebuild_v2_for_user\<close>, the restart-safe backfill loop
  \<open>Worker._backfill_v2\<close>, and the keyset-paged \<open>replay_all\<close> of \<open>rebuild_v2.py\<close>. The \<open>while True\<close>
  loops take fuel; the theorems give the fuel that suffices.
\<close>

definition rebuild_v2_for_user :: "feature_cfg \<Rightarrow> uuid \<Rightarrow> feature_world \<Rightarrow> feature_world res" where
  "rebuild_v2_for_user cfg user w =
     (let evs = canonical_preference_events (w_db w) (behavior_of (w_db w) user) in
      if evs = [] then Inr w
      else bind_res (build_user_vector cfg evs) (\<lambda>vector.
        Inr (w\<lparr>w_db := (w_db w)\<lparr>vectors_v2 := dset (vectors_v2 (w_db w)) user vector\<rparr>,
               w_cache := run_cache_cmd (CacheDelete (preference_cache_keys (str_uuid user))) (w_cache w)\<rparr>)))"

definition source_users :: "feature_db \<Rightarrow> uuid set" where
  "source_users db = b_user ` set (behavior_events db)"

definition vector_users :: "feature_db \<Rightarrow> uuid set" where
  "vector_users db = set (dkeys (vectors_v2 db))"

section \<open>Operator replay\<close>

definition replay_user :: "feature_cfg \<Rightarrow> bool \<Rightarrow> uuid \<Rightarrow> feature_world \<Rightarrow> feature_world res" where
  "replay_user cfg replace_existing user w =
     (if user \<notin> source_users (w_db w)
      then Inl (RuntimeError ''no canonical behavior_events remain for user'')
      else if user \<in> vector_users (w_db w) \<and> \<not> replace_existing
      then Inl (RuntimeError ''user already has a v2 vector'')
      else rebuild_v2_for_user cfg user w)"

text \<open>\<open>PAGE_USERS_SQL\<close>\<close>

definition page_users :: "feature_db \<Rightarrow> uuid option \<Rightarrow> nat \<Rightarrow> uuid list" where
  "page_users db cursor n =
     take n (filter (\<lambda>u. case cursor of None \<Rightarrow> True | Some c \<Rightarrow> u > c)
               (sorted_list_of_set (source_users db \<union> vector_users db)))"

definition replay_page_step ::
    "feature_cfg \<Rightarrow> bool \<Rightarrow> feature_world \<times> uuid option \<times> nat \<Rightarrow> uuid \<Rightarrow>
     (feature_world \<times> uuid option \<times> nat) res" where
  "replay_page_step cfg replace_existing st user =
     (let (w, cursor, rebuilt) = st in
      bind_res (replay_user cfg replace_existing user w) (\<lambda>w'. Inr (w', Some user, Suc rebuilt)))"

fun replay_pages ::
    "nat \<Rightarrow> feature_cfg \<Rightarrow> bool \<Rightarrow> nat \<Rightarrow> feature_world \<times> uuid option \<times> nat \<Rightarrow> (feature_world \<times> nat) res option" where
  "replay_pages 0 cfg replace_existing batch st = None"
| "replay_pages (Suc fuel) cfg replace_existing batch (w, cursor, rebuilt) =
     (let page = page_users (w_db w) cursor batch in
      if page = [] then Some (Inr (w, rebuilt))
      else case fold_res (replay_page_step cfg replace_existing) (w, cursor, rebuilt) page of
             Inl e \<Rightarrow> Some (Inl e)
           | Inr st \<Rightarrow> replay_pages fuel cfg replace_existing batch st)"

definition replay_all ::
    "nat \<Rightarrow> feature_cfg \<Rightarrow> nat \<Rightarrow> bool \<Rightarrow> feature_world \<Rightarrow> (feature_world \<times> nat) res option" where
  "replay_all fuel cfg batch_size replace_existing w =
     (if \<not> replace_existing \<and> vectors_v2 (w_db w) \<noteq> []
      then Some (Inl (RuntimeError ''v2 vectors already exist''))
      else replay_pages fuel cfg replace_existing batch_size (w, None, 0))"

definition run_rebuild ::
    "nat \<Rightarrow> feature_cfg \<Rightarrow> uuid option \<Rightarrow> bool \<Rightarrow> int \<Rightarrow> bool \<Rightarrow> feature_world \<Rightarrow> (feature_world \<times> nat) res option" where
  "run_rebuild fuel cfg user_id all_users batch_size replace_existing w =
     (if \<not> all_users \<and> user_id = None then Some (Inl (ValueError ''choose --all or --user-id''))
      else if batch_size \<le> 0 then Some (Inl (ValueError ''batch size must be positive''))
      else if all_users then replay_all fuel cfg (nat batch_size) replace_existing w
      else case user_id of
        None \<Rightarrow> Some (Inl (AssertionError []))
      | Some u \<Rightarrow> Some (bind_res (replay_user cfg replace_existing u w) (\<lambda>w'. Inr (w', 1))))"

section \<open>Backfill at start\<close>

definition last_behavior_at :: "feature_db \<Rightarrow> uuid \<Rightarrow> instant" where
  "last_behavior_at db user = Max (b_occurred_at ` {r \<in> set (behavior_events db). b_user r = user})"

definition backfill_page :: "feature_db \<Rightarrow> nat \<Rightarrow> uuid list" where
  "backfill_page db n =
     take n (sort_key (\<lambda>u. (last_behavior_at db u, u)) (sorted_list_of_set (source_users db - vector_users db)))"

fun backfill_v2 :: "nat \<Rightarrow> feature_cfg \<Rightarrow> feature_world \<Rightarrow> feature_world res option" where
  "backfill_v2 0 cfg w = None"
| "backfill_v2 (Suc fuel) cfg w =
     (let rows = backfill_page (w_db w) (fc_backfill_batch_size cfg) in
      if rows = [] then Some (Inr w)
      else case fold_res (\<lambda>w u. rebuild_v2_for_user cfg u w) w rows of
             Inl e \<Rightarrow> Some (Inl e)
           | Inr w' \<Rightarrow> backfill_v2 fuel cfg w')"

section \<open>What a rebuild stores\<close>

definition user_events :: "feature_db \<Rightarrow> uuid \<Rightarrow> pref_event list" where
  "user_events db user = canonical_preference_events db (behavior_of db user)"

definition rebuilt_vector :: "feature_cfg \<Rightarrow> feature_db \<Rightarrow> uuid \<Rightarrow> pref_vector option" where
  "rebuilt_vector cfg db user =
     (if user_events db user = [] then None else Some (projr (build_user_vector cfg (user_events db user))))"

definition cfg_ok :: "feature_cfg \<Rightarrow> bool" where
  "cfg_ok cfg \<longleftrightarrow> fc_half_life_hours cfg > 0 \<and> fc_channel_bound cfg > 0"

text \<open>\<open>behavior_events.post_id\<close> references \<open>posts\<close>.\<close>

definition posts_referenced :: "feature_db \<Rightarrow> bool" where
  "posts_referenced db \<longleftrightarrow> b_post ` set (behavior_events db) \<subseteq> set (dkeys (db_posts db))"

lemma pe_occurred_at_joined [simp]: "pe_occurred_at (joined_event db r) = Aware (b_occurred_at r)"
  by (simp add: joined_event_def canonical_preference_event_def)

lemma max_datetime_aware:
  "\<exists>t. max_datetime (Aware t0) (map (\<lambda>r. Aware (f r)) rs) = Inr (Aware t)"
  by (induction rs arbitrary: t0) (simp_all add: max_datetime_def)

lemma build_user_vector_total:
  assumes "cfg_ok cfg"
  shows "\<exists>v. build_user_vector cfg (user_events db user) = Inr v"
proof -
  let ?evs = "user_events db user"
  have "\<exists>os. order_events ?evs = Inr os"
    using order_events_Inl[of ?evs]
    by (cases "order_events ?evs") (auto simp: user_events_def canonical_preference_events_def)
  moreover have "\<exists>t. (case map pe_occurred_at ?evs of [] \<Rightarrow> Inr (Aware 0) | d # ds \<Rightarrow> max_datetime d ds) = Inr (Aware t)"
    using max_datetime_aware
    by (cases "behavior_of db user") (simp_all add: user_events_def canonical_preference_events_def o_def)
  ultimately show ?thesis
    using assms by (auto simp: build_user_vector_def build_preference_vector_v2_def cfg_ok_def)
qed


text \<open>The database after rebuilding a set of users: only their v2 vectors may differ.\<close>

definition rebuilt_for :: "feature_cfg \<Rightarrow> feature_db \<Rightarrow> uuid set \<Rightarrow> feature_db \<Rightarrow> bool" where
  "rebuilt_for cfg db us db' \<longleftrightarrow>
     db' = db\<lparr>vectors_v2 := vectors_v2 db'\<rparr> \<and>
     (\<forall>u. dget (vectors_v2 db') u =
        (if u \<in> us \<and> rebuilt_vector cfg db u \<noteq> None then rebuilt_vector cfg db u else dget (vectors_v2 db) u))"

lemma user_events_v2 [simp]: "user_events (db\<lparr>vectors_v2 := V\<rparr>) u = user_events db u"
  by (simp add: user_events_def canonical_preference_events_def behavior_of_def joined_event_def)

lemma rebuilt_vector_v2 [simp]: "rebuilt_vector cfg (db\<lparr>vectors_v2 := V\<rparr>) u = rebuilt_vector cfg db u"
  by (simp add: rebuilt_vector_def)

lemma source_users_v2 [simp]: "source_users (db\<lparr>vectors_v2 := V\<rparr>) = source_users db"
  by (simp add: source_users_def)

lemma rebuilt_for_frame:
  assumes "rebuilt_for cfg db us db'"
  shows "source_users db' = source_users db" "rebuilt_vector cfg db' u = rebuilt_vector cfg db u"
    "user_events db' u = user_events db u" "db_posts db' = db_posts db" "behavior_events db' = behavior_events db"
proof -
  obtain V where "db' = db\<lparr>vectors_v2 := V\<rparr>" using assms by (auto simp: rebuilt_for_def)
  then show "source_users db' = source_users db" "rebuilt_vector cfg db' u = rebuilt_vector cfg db u"
    "user_events db' u = user_events db u" "db_posts db' = db_posts db" "behavior_events db' = behavior_events db"
    by simp_all
qed

lemma rebuilt_for_refl: "rebuilt_for cfg db {} db"
  by (simp add: rebuilt_for_def)

lemma rebuilt_for_trans:
  assumes "rebuilt_for cfg db us db1" "rebuilt_for cfg db1 us' db2"
  shows "rebuilt_for cfg db (us \<union> us') db2"
proof -
  from assms obtain V where V: "db1 = db\<lparr>vectors_v2 := V\<rparr>" by (auto simp: rebuilt_for_def)
  from assms(2) obtain V' where V': "db2 = db\<lparr>vectors_v2 := V'\<rparr>" by (auto simp: rebuilt_for_def V)
  show ?thesis using assms by (auto simp: rebuilt_for_def V V')
qed

lemma rebuilt_for_vector_users:
  assumes "rebuilt_for cfg db us db'"
  shows "vector_users db' = vector_users db \<union> {u \<in> us. user_events db u \<noteq> []}"
proof -
  have *: "u \<in> vector_users d \<longleftrightarrow> dget (vectors_v2 d) u \<noteq> None" for u d
    by (simp add: vector_users_def map_of_eq_None_iff)
  have **: "rebuilt_vector cfg db u \<noteq> None \<longleftrightarrow> user_events db u \<noteq> []" for u
    by (simp add: rebuilt_vector_def)
  show ?thesis using assms unfolding set_eq_iff Un_iff mem_Collect_eq * rebuilt_for_def **[symmetric] by (metis (full_types))
qed

lemma rebuild_v2_for_user_step:
  assumes "cfg_ok cfg"
  shows "\<exists>w'. rebuild_v2_for_user cfg u w = Inr w' \<and> rebuilt_for cfg (w_db w) {u} (w_db w')"
proof -
  obtain v where "build_user_vector cfg (user_events (w_db w) u) = Inr v"
    using build_user_vector_total[OF assms] by blast
  then show ?thesis
    by (auto simp: rebuild_v2_for_user_def user_events_def[symmetric] rebuilt_for_def rebuilt_vector_def Let_def)
qed

lemma rebuild_fold:
  assumes "cfg_ok cfg"
  shows "\<exists>w'. fold_res (\<lambda>w u. rebuild_v2_for_user cfg u w) w us = Inr w' \<and> rebuilt_for cfg (w_db w) (set us) (w_db w')"
proof (induction us arbitrary: w)
  case Nil
  then show ?case by (simp add: rebuilt_for_refl)
next
  case (Cons u us)
  obtain w1 where w1: "rebuild_v2_for_user cfg u w = Inr w1" "rebuilt_for cfg (w_db w) {u} (w_db w1)"
    using rebuild_v2_for_user_step[OF assms] by blast
  obtain w2 where "fold_res (\<lambda>w u. rebuild_v2_for_user cfg u w) w1 us = Inr w2"
      "rebuilt_for cfg (w_db w1) (set us) (w_db w2)"
    using Cons.IH by blast
  with rebuilt_for_trans[OF w1(2)] w1(1) show ?case by auto
qed

lemma replay_page_fold:
  assumes "cfg_ok cfg" "distinct us" "set us \<subseteq> source_users (w_db w)"
    and "replace_existing \<or> set us \<inter> vector_users (w_db w) = {}"
  shows "\<exists>w'. fold_res (replay_page_step cfg replace_existing) (w, c, n) us =
      Inr (w', if us = [] then c else Some (last us), n + length us) \<and>
    rebuilt_for cfg (w_db w) (set us) (w_db w')"
  using assms(2-)
proof (induction us arbitrary: w c n)
  case Nil
  then show ?case by (simp add: rebuilt_for_refl)
next
  case (Cons u us)
  obtain w1 where w1: "rebuild_v2_for_user cfg u w = Inr w1" "rebuilt_for cfg (w_db w) {u} (w_db w1)"
    using rebuild_v2_for_user_step[OF assms(1)] by blast
  have step: "replay_page_step cfg replace_existing (w, c, n) u = Inr (w1, Some u, Suc n)"
    using w1(1) Cons.prems by (auto simp: replay_page_step_def replay_user_def)
  have "set us \<subseteq> source_users (w_db w1)" "replace_existing \<or> set us \<inter> vector_users (w_db w1) = {}"
    using Cons.prems rebuilt_for_frame(1)[OF w1(2)] rebuilt_for_vector_users[OF w1(2)] by auto
  then obtain w2 where "fold_res (replay_page_step cfg replace_existing) (w1, Some u, Suc n) us =
      Inr (w2, if us = [] then Some u else Some (last us), Suc n + length us)"
    "rebuilt_for cfg (w_db w1) (set us) (w_db w2)"
    using Cons.IH[of w1 "Some u" "Suc n"] Cons.prems(1) by auto
  with rebuilt_for_trans[OF w1(2)] step show ?case by (auto simp: insert_is_Un[symmetric])
qed

definition replay_users :: "feature_db \<Rightarrow> uuid set" where
  "replay_users db = source_users db \<union> vector_users db"

lemma above_done:
  assumes "sorted (d @ todo)" "distinct (d @ todo)" "d \<noteq> []"
  shows "filter (\<lambda>u. u > last d) (d @ todo) = todo"
proof -
  have d: "d = butlast d @ [last d]" using assms(3) by simp
  have "\<not> u > last d" if "u \<in> set d" for u
  proof -
    have "sorted (butlast d @ [last d])" using assms(1) d by (metis sorted_append)
    then show ?thesis using that arg_cong[OF d, of set] by (auto simp: sorted_append leD)
  qed
  moreover have "u > last d" if "u \<in> set todo" for u
  proof -
    have "last d \<in> set d" using assms(3) by simp
    then have "last d \<le> u" "last d \<noteq> u" using assms(1,2) that by (auto simp: sorted_append)
    then show ?thesis by simp
  qed
  ultimately show ?thesis by (auto simp: filter_empty_conv filter_id_conv)
qed

lemma replay_pages_complete:
  fixes db :: feature_db
  assumes cfg: "cfg_ok cfg" and batch: "0 < batch"
    and src: "vector_users db \<subseteq> source_users db"
    and repl: "replace_existing \<or> vector_users db = {}"
  shows "\<lbrakk>sorted_list_of_set (replay_users db) = d @ todo; rebuilt_for cfg db (set d) (w_db w);
     fuel > length todo\<rbrakk> \<Longrightarrow>
    \<exists>w'. replay_pages fuel cfg replace_existing batch (w, if d = [] then None else Some (last d), length d) =
        Some (Inr (w', card (replay_users db))) \<and> rebuilt_for cfg db (replay_users db) (w_db w')"
proof (induction fuel arbitrary: d todo w)
  case 0
  then show ?case by simp
next
  case (Suc fuel)
  let ?U = "replay_users db"
  have fin: "finite ?U" by (simp add: replay_users_def source_users_def vector_users_def)
  have sd: "sorted (d @ todo)" "distinct (d @ todo)" "set (d @ todo) = ?U"
    using fin by (simp_all flip: Suc.prems(1))
  have users: "source_users (w_db w) \<union> vector_users (w_db w) = ?U"
    using rebuilt_for_frame(1)[OF Suc.prems(2)] rebuilt_for_vector_users[OF Suc.prems(2)] sd(3)
    by (auto simp: replay_users_def)
  have page: "page_users (w_db w) (if d = [] then None else Some (last d)) batch = take batch todo"
    using above_done[OF sd(1,2)] by (cases "d = []") (simp_all add: page_users_def users Suc.prems(1) del: filter_append)
  show ?case
  proof (cases "todo = []")
    case True
    then have "card ?U = length d" using sd by (metis append_Nil2 distinct_card)
    then show ?thesis using True page Suc.prems(2) sd(3) by auto
  next
    case False
    let ?p = "take batch todo"
    have p: "?p \<noteq> []" "distinct ?p" "set ?p \<subseteq> set todo"
      using False batch sd(2) set_take_subset[of batch todo] by simp_all
    have src': "set ?p \<subseteq> source_users (w_db w)"
      using p(3) sd(3) src rebuilt_for_frame(1)[OF Suc.prems(2)] by (auto simp: replay_users_def)
    have new: "replace_existing \<or> set ?p \<inter> vector_users (w_db w) = {}"
      using repl rebuilt_for_vector_users[OF Suc.prems(2)] p(3) sd(2) by auto
    obtain w1 where w1: "fold_res (replay_page_step cfg replace_existing)
        (w, if d = [] then None else Some (last d), length d) ?p = Inr (w1, Some (last ?p), length d + length ?p)"
      "rebuilt_for cfg (w_db w) (set ?p) (w_db w1)"
      using replay_page_fold[OF cfg p(2) src' new, of "if d = [] then None else Some (last d)" "length d"] p(1)
      by (auto simp: Let_def)
    have "sorted_list_of_set ?U = (d @ ?p) @ drop batch todo" using Suc.prems(1) by simp
    moreover have "rebuilt_for cfg db (set (d @ ?p)) (w_db w1)"
      using rebuilt_for_trans[OF Suc.prems(2) w1(2)] by simp
    moreover have "fuel > length (drop batch todo)" using Suc.prems(3) False batch by (cases todo) auto
    ultimately obtain w2 where w2: "replay_pages fuel cfg replace_existing batch
         (w1, Some (last (d @ ?p)), length (d @ ?p)) = Some (Inr (w2, card ?U))"
      "rebuilt_for cfg db ?U (w_db w2)"
      using Suc.IH[of "d @ ?p" "drop batch todo" w1] p(1) by auto
    have "replay_pages (Suc fuel) cfg replace_existing batch (w, if d = [] then None else Some (last d), length d) =
        Some (Inr (w2, card ?U))"
      using w1(1) w2(1) p(1) by (simp only: replay_pages.simps page Let_def) simp
    with w2(2) show ?thesis by blast
  qed
qed



definition demo_row :: "uuid \<Rightarrow> uuid \<Rightarrow> behavior_row" where
  "demo_row i user = \<lparr>b_id = i, b_user = user, b_post = 3, b_impression = None, b_session = None,
     b_event_type = ''like'', b_dwell_ms = None, b_trigger = None, b_visit = None,
     b_topic_snapshot = Some [''ai''], b_occurred_at = 0\<rparr>"

definition demo_world :: feature_world where
  "demo_world = \<lparr>w_db = demo_db\<lparr>db_posts := [(3, \<lparr>post_topics = [''ai''], post_tags = []\<rparr>)],
     behavior_events := [demo_row 1 7, demo_row 2 8, demo_row 4 7]\<rparr>, w_cache = []\<rparr>"

lemma demo_world_facts [simp]:
  "cfg_ok demo_cfg" "fc_backfill_batch_size demo_cfg = 500" "source_users (w_db demo_world) = {7, 8}" "vector_users (w_db demo_world) = {}"
  "vectors_v2 (w_db demo_world) = []" "replay_users (w_db demo_world) = {7, 8}" "posts_referenced (w_db demo_world)"
  by (auto simp: cfg_ok_def demo_cfg_def demo_world_def demo_db_def source_users_def vector_users_def demo_row_def
      replay_users_def posts_referenced_def)


text \<open>
  C26. The start-up backfill ends: since behaviour events reference existing posts, every user it selects
  gets a vector, so one round per pending user suffices; afterwards no user with events is without a v2
  vector, new vectors are the replay of the user's events and existing vectors are untouched.
\<close>

theorem backfill_terminates:
  assumes "cfg_ok cfg" "0 < fc_backfill_batch_size cfg" "posts_referenced (w_db w)"
    and "fuel > card (source_users (w_db w) - vector_users (w_db w))"
  shows "\<exists>w'. backfill_v2 fuel cfg w = Some (Inr w') \<and>
    source_users (w_db w) \<subseteq> vector_users (w_db w') \<and>
    rebuilt_for cfg (w_db w) (source_users (w_db w) - vector_users (w_db w)) (w_db w')"
  using assms(3,4)
proof (induction fuel arbitrary: w)
  case 0
  then show ?case by simp
next
  case (Suc fuel)
  let ?pend = "source_users (w_db w) - vector_users (w_db w)"
  let ?page = "backfill_page (w_db w) (fc_backfill_batch_size cfg)"
  have fin: "finite ?pend" by (simp add: source_users_def)
  have sub: "set ?page \<subseteq> ?pend"
    using fin set_take_subset by (fastforce simp: backfill_page_def)
  show ?case
  proof (cases "?page = []")
    case True
    then have "?pend = {}"
      using assms(2) fin by (metis (no_types, lifting) backfill_page_def neq0_conv take_eq_Nil set_empty set_sort
          set_sorted_list_of_set)
    then have "source_users (w_db w) \<subseteq> vector_users (w_db w)" by blast
    moreover have "rebuilt_for cfg (w_db w) ?pend (w_db w)" unfolding \<open>?pend = {}\<close> by (rule rebuilt_for_refl)
    ultimately show ?thesis using True by simp
  next
    case False
    obtain w1 where w1: "fold_res (\<lambda>w u. rebuild_v2_for_user cfg u w) w ?page = Inr w1"
      "rebuilt_for cfg (w_db w) (set ?page) (w_db w1)"
      using rebuild_fold[OF assms(1)] by blast
    have ev: "user_events (w_db w) u \<noteq> []" if "u \<in> source_users (w_db w)" for u
    proof -
      have "\<exists>r\<in>set (behavior_events (w_db w)). b_user r = u" using that by (auto simp: source_users_def)
      moreover have "b_post r \<in> set (dkeys (db_posts (w_db w)))" if "r \<in> set (behavior_events (w_db w))" for r
        using that Suc.prems(1) by (auto simp: posts_referenced_def)
      ultimately have "set (behavior_of (w_db w) u) \<noteq> {}" by (auto simp: behavior_of_def)
      then show ?thesis by (auto simp: user_events_def canonical_preference_events_def)
    qed
    have vu: "vector_users (w_db w1) = vector_users (w_db w) \<union> set ?page"
      using rebuilt_for_vector_users[OF w1(2)] ev sub by auto
    have su: "source_users (w_db w1) = source_users (w_db w)" by (rule rebuilt_for_frame(1)[OF w1(2)])
    let ?pend1 = "source_users (w_db w1) - vector_users (w_db w1)"
    have ne: "set ?page \<noteq> {}" using False by simp
    have shrink: "S - (V \<union> P) \<subset> S - V" if "P \<noteq> {}" "P \<subseteq> S - V" for S V P :: "uuid set"
    proof -
      from that obtain x where "x \<in> P" "x \<in> S - V" by blast
      then have "x \<notin> S - (V \<union> P)" by simp
      then show ?thesis using \<open>x \<in> S - V\<close> by blast
    qed
    have "?pend1 \<subset> ?pend" unfolding su vu by (rule shrink[OF ne sub])
    then have "card ?pend1 < card ?pend" by (rule psubset_card_mono[OF fin])
    then have "fuel > card ?pend1" using Suc.prems(2) by linarith
    moreover have "posts_referenced (w_db w1)"
      using Suc.prems(1) rebuilt_for_frame(4,5)[OF w1(2)] by (simp add: posts_referenced_def)
    ultimately obtain w2 where w2: "backfill_v2 fuel cfg w1 = Some (Inr w2)"
      "source_users (w_db w1) \<subseteq> vector_users (w_db w2)" "rebuilt_for cfg (w_db w1) ?pend1 (w_db w2)"
      using Suc.IH[of w1] by blast
    have "set ?page \<union> ?pend1 = ?pend" using sub unfolding su vu by blast
    then have "rebuilt_for cfg (w_db w) ?pend (w_db w2)" using rebuilt_for_trans[OF w1(2) w2(3)] by simp
    then show ?thesis using False w1(1) w2 su by (simp add: Let_def)
  qed
qed

theorem backfill_terminates_witness:
  "\<exists>w'. backfill_v2 3 demo_cfg demo_world = Some (Inr w') \<and> {7, 8} \<subseteq> vector_users (w_db w')"
  using backfill_terminates[of demo_cfg demo_world 3] by simp blast

end
