(* ===== verification/RecommendationLabel.thy ===== *)
theory RecommendationLabel
  imports PyValues
begin

text \<open>
  \<open>recommendation_label/__init__.py\<close>: the engagement label derived from the behaviour events of one
  impression. An event is either a mapping or an object with attributes; both are normalised to one
  dictionary, deduplicated by event id, replayed in event-time order and reduced to the semantic of
  highest precedence. The lemmas show that the label is total, depends only on the set of events,
  and how reversals, reports and window closing decide it.
\<close>

section \<open>Vocabulary\<close>

datatype semantic =
  Exposure | Click | QualifiedRead | Positive | StrongPositive | Negative | StrongNegative

datatype event_src = EMapping "(string, pyval) dict" | EObject "(string, pyval) dict"

record label_result =
  res_semantic :: semantic
  training_target :: "int option"
  accepted_events :: nat
  deduplicated_events :: nat
  reversed_event_types :: "string list"
  processing_order :: "string list"

definition QUALIFIED_READ_MS :: int where "QUALIFIED_READ_MS = 10000"

definition PRECEDENCE :: "semantic list" where
  "PRECEDENCE =
     [StrongNegative, StrongPositive, Positive, QualifiedRead, Click, Negative, Exposure]"

definition label_reversals :: "(string, string) dict" where
  "label_reversals =
     [(''unlike'', ''like''), (''unsave'', ''save''), (''unshare'', ''share''), (''unhide'', ''hide'')]"

section \<open>Reading events\<close>

definition meta_get :: "pyval \<Rightarrow> string \<Rightarrow> pyval option" where
  "meta_get m name = (case m of VMap d \<Rightarrow> map_of d name | _ \<Rightarrow> None)"

text \<open>\<open>_value(event, name)\<close> with the default \<open>None\<close>.\<close>

fun event_value :: "event_src \<Rightarrow> string \<Rightarrow> pyval" where
  "event_value (EMapping d) name =
     (case map_of d name of
        Some v \<Rightarrow> v
      | None \<Rightarrow> (case meta_get (vget d ''metadata'') name of Some v \<Rightarrow> v | None \<Rightarrow> VNone))"
| "event_value (EObject d) name =
     (if vget d name \<noteq> VNone then vget d name
      else (case meta_get (vget d ''metadata'') name of Some v \<Rightarrow> v | None \<Rightarrow> VNone))"

definition object_fields :: "string list" where
  "object_fields =
     [''id'', ''event_id'', ''event_type'', ''event_version'', ''occurred_at'', ''ingested_at'',
      ''dwell_ms'', ''continuous_visible_ms'', ''metadata'']"

definition dmerge :: "('k, 'v) dict \<Rightarrow> ('k, 'v) dict \<Rightarrow> ('k, 'v) dict" where
  "dmerge d e = foldl (\<lambda>d (k, v). dset d k v) d e"

fun event_mapping :: "event_src \<Rightarrow> (string, pyval) dict \<Rightarrow> (string, pyval) dict" where
  "event_mapping (EMapping d) defaults = dmerge defaults d"
| "event_mapping (EObject d) defaults =
     foldl (\<lambda>values name.
              if vget d name \<noteq> VNone
              then dset values (if name = ''id'' then ''event_id'' else name) (vget d name)
              else values)
       defaults object_fields"

definition datetime_min :: int where "datetime_min = - 62135596800 * us_per_second"

fun timestamp :: "pylib \<Rightarrow> pyval \<Rightarrow> instant res" where
  "timestamp lib (VTime d) = Inr (wall_of d)"
| "timestamp lib (VStr s) = bind_res (parse_iso lib s) (\<lambda>d. Inr (wall_of d))"
| "timestamp lib _ = Inr datetime_min"

text \<open>
  \<open>_canonical_payload\<close> prints \<open>_canonical_json_value\<close> with sorted keys; printing is injective on
  canonical values, so payloads are compared as values.
\<close>

primrec canonical_json_value :: "pylib \<Rightarrow> pyval \<Rightarrow> pyval" where
  "canonical_json_value lib VNone = VNone"
| "canonical_json_value lib (VBool b) = VBool b"
| "canonical_json_value lib (VInt i) = VInt i"
| "canonical_json_value lib (VFloat r) = VFloat r"
| "canonical_json_value lib (VStr s) = VStr s"
| "canonical_json_value lib (VTime d) = VStr (isoformat lib d)"
| "canonical_json_value lib (VUuid u) = VStr (str_uuid u)"
| "canonical_json_value lib (VList vs) = VList (map (canonical_json_value lib) vs)"
| "canonical_json_value lib (VMap d) =
     VMap (sort_key fst (map (map_prod id (canonical_json_value lib)) d))"

definition canonical_payload :: "pylib \<Rightarrow> (string, pyval) dict \<Rightarrow> pyval" where
  "canonical_payload lib event = canonical_json_value lib (VMap event)"

definition event_label_version :: "pylib \<Rightarrow> event_src \<Rightarrow> string res" where
  "event_label_version lib event =
     (let version = event_value event ''event_version'' in
      if version = VNone then Inr ''v1''
      else let normalized = py_str lib version in
           if normalized \<notin> {''v1'', ''v2''}
           then Inl (ValueError (''unsupported persisted event version: '' @ normalized))
           else Inr normalized)"

section \<open>Deduplication and event-time order\<close>

record dedup_state =
  uniq :: "(string, (string, pyval) dict) dict"
  anonymous :: "(string, pyval) dict list"
  duplicates :: nat

definition dedup_step :: "pylib \<Rightarrow> dedup_state \<Rightarrow> (string, pyval) dict \<Rightarrow> dedup_state res" where
  "dedup_step lib st event =
     (let event_id = vget event ''event_id'' in
      if event_id = VNone then Inr (st\<lparr>anonymous := anonymous st @ [event]\<rparr>)
      else let key = py_str lib event_id in
           case dget (uniq st) key of
             None \<Rightarrow> Inr (st\<lparr>uniq := dset (uniq st) key event\<rparr>)
           | Some existing \<Rightarrow>
               if canonical_payload lib existing = canonical_payload lib event
               then Inr (st\<lparr>duplicates := Suc (duplicates st)\<rparr>)
               else Inl (ValueError (''conflicting duplicate event: '' @ key)))"

definition dedup_init :: dedup_state where
  "dedup_init = \<lparr>uniq = [], anonymous = [], duplicates = 0\<rparr>"

definition dedup_events :: "pylib \<Rightarrow> (string, pyval) dict list \<Rightarrow> dedup_state res" where
  "dedup_events lib expanded = fold_res (dedup_step lib) dedup_init expanded"

definition event_id_text :: "pylib \<Rightarrow> (string, pyval) dict \<Rightarrow> string" where
  "event_id_text lib event =
     (case map_of event ''event_id'' of None \<Rightarrow> [] | Some v \<Rightarrow> py_str lib v)"

definition event_sort_key ::
    "pylib \<Rightarrow> (string, pyval) dict \<Rightarrow> (instant \<times> instant \<times> string) res" where
  "event_sort_key lib event =
     bind_res (timestamp lib (vget event ''occurred_at'')) (\<lambda>occurred.
     bind_res (timestamp lib (vget event ''ingested_at'')) (\<lambda>ingested.
       Inr (occurred, ingested, event_id_text lib event)))"

definition sort_events ::
    "pylib \<Rightarrow> (string, pyval) dict list \<Rightarrow> (string, pyval) dict list res" where
  "sort_events lib accepted =
     bind_res (sorted_res (event_sort_key lib) accepted) (\<lambda>keyed. Inr (map snd keyed))"

section \<open>Replay\<close>

record label_state =
  active :: "(string, bool) dict"
  irreversible :: "semantic set"
  visible_seen :: bool
  reversed_types :: "string list"

definition label_init :: label_state where
  "label_init =
     \<lparr>active = [(''like'', False), (''save'', False), (''share'', False), (''hide'', False)],
      irreversible = {}, visible_seen = False, reversed_types = []\<rparr>"

definition event_type_of :: "pylib \<Rightarrow> (string, pyval) dict \<Rightarrow> string" where
  "event_type_of lib event =
     (case map_of event ''event_type'' of None \<Rightarrow> [] | Some v \<Rightarrow> py_str lib v)"

definition add_irreversible :: "semantic \<Rightarrow> label_state \<Rightarrow> label_state" where
  "add_irreversible s st = st\<lparr>irreversible := insert s (irreversible st)\<rparr>"

definition apply_event_type :: "string \<Rightarrow> label_state \<Rightarrow> label_state" where
  "apply_event_type event_type st =
     (if event_type \<in> set (dkeys (active st)) then st\<lparr>active := dset (active st) event_type True\<rparr>
      else case dget label_reversals event_type of
        Some reversed_type \<Rightarrow>
          st\<lparr>active := dset (active st) reversed_type False,
             reversed_types :=
               (if reversed_type \<in> set (reversed_types st) then reversed_types st
                else reversed_types st @ [reversed_type])\<rparr>
      | None \<Rightarrow>
          if event_type = ''visible'' then st\<lparr>visible_seen := True\<rparr>
          else if event_type = ''click'' then add_irreversible Click st
          else if event_type = ''comment'' then add_irreversible Positive st
          else if event_type = ''report'' then add_irreversible StrongNegative st
          else st)"

definition event_duration :: "(string, pyval) dict \<Rightarrow> pyval" where
  "event_duration event =
     (let d = event_value (EMapping event) ''continuous_visible_ms'' in
      if d = VNone then event_value (EMapping event) ''dwell_ms'' else d)"

definition qualifies_read :: "string \<Rightarrow> pyval \<Rightarrow> int \<Rightarrow> bool res" where
  "qualifies_read event_type duration qualified_read_ms =
     (if event_type \<in> {''view'', ''dwell''} \<and> duration \<noteq> VNone
      then bind_res (py_int duration) (\<lambda>ms. Inr (ms \<ge> qualified_read_ms))
      else Inr False)"

definition label_step ::
    "pylib \<Rightarrow> string \<Rightarrow> int \<Rightarrow> bool \<Rightarrow> label_state \<Rightarrow> (string, pyval) dict \<Rightarrow> label_state res" where
  "label_step lib label_version qualified_read_ms v1_any_view_positive st event =
     (let event_type = event_type_of lib event;
          st1 = apply_event_type event_type st;
          st2 = (if label_version = ''v1'' \<and> v1_any_view_positive \<and> event_type = ''view''
                 then add_irreversible Positive st1 else st1)
      in bind_res (qualifies_read event_type (event_duration event) qualified_read_ms) (\<lambda>q.
           Inr (if q then add_irreversible (if label_version = ''v2'' then QualifiedRead else Positive) st2
                else st2)))"

definition active_flag :: "label_state \<Rightarrow> string \<Rightarrow> bool" where
  "active_flag st k = dget_default (active st) k False"

definition label_candidates :: "string \<Rightarrow> bool \<Rightarrow> label_state \<Rightarrow> semantic set" where
  "label_candidates label_version label_window_closed st =
     (let c0 = irreversible st;
          c1 = (if active_flag st ''hide'' then insert StrongNegative c0 else c0);
          c2 = (if active_flag st ''save'' \<or> active_flag st ''share''
                then insert StrongPositive c1 else c1);
          c3 = (if active_flag st ''like'' then insert Positive c2 else c2);
          c4 = (if label_version = ''v1'' \<and> Click \<in> c3 then insert Positive (c3 - {Click}) else c3);
          unseen = (if label_window_closed then Negative else Exposure)
      in if visible_seen st then insert unseen c4 else if c4 = {} then insert unseen c4 else c4)"

definition target_of :: "semantic \<Rightarrow> int option" where
  "target_of s =
     (if s = Exposure then None
      else Some (if s \<in> {Click, QualifiedRead, Positive, StrongPositive} then 1 else 0))"

definition derive_label ::
    "pylib \<Rightarrow> event_src list \<Rightarrow> string \<Rightarrow> int \<Rightarrow> bool \<Rightarrow> (string, pyval) dict \<Rightarrow> bool \<Rightarrow> label_result res" where
  "derive_label lib events label_version qualified_read_ms label_window_closed defaults
      v1_any_view_positive =
     (if label_version \<notin> {''v1'', ''v2''} then Inl (ValueError ''label_version must be v1 or v2'')
      else if qualified_read_ms \<le> 0 then Inl (ValueError ''qualified_read_ms must be positive'')
      else
        bind_res (dedup_events lib (map (\<lambda>e. event_mapping e defaults) events)) (\<lambda>dd.
        bind_res (sort_events lib (dvalues (uniq dd) @ anonymous dd)) (\<lambda>accepted.
        bind_res (fold_res (label_step lib label_version qualified_read_ms v1_any_view_positive)
                    label_init accepted) (\<lambda>st.
          let candidates = label_candidates label_version label_window_closed st in
          case find (\<lambda>s. s \<in> candidates) PRECEDENCE of
            None \<Rightarrow> Inl (RuntimeError ''StopIteration'')
          | Some s \<Rightarrow>
              Inr \<lparr>res_semantic = s, training_target = target_of s,
                   accepted_events = length accepted, deduplicated_events = duplicates dd,
                   reversed_event_types = reversed_types st,
                   processing_order = map (event_id_text lib) accepted\<rparr>))))"

section \<open>Specification of the semantic\<close>

text \<open>
  Read off the accepted events directly: a reversible reaction holds when the last event of its
  like/unlike pair is the reaction itself; reports, comments, clicks and qualified reads never
  expire.
\<close>

definition spec_active :: "string \<Rightarrow> string list \<Rightarrow> bool" where
  "spec_active k types = (find (\<lambda>t. t = k \<or> t = ''un'' @ k) (rev types) = Some k)"

definition spec_read :: "pylib \<Rightarrow> int \<Rightarrow> (string, pyval) dict list \<Rightarrow> bool" where
  "spec_read lib q acc =
     list_ex (\<lambda>e. qualifies_read (event_type_of lib e) (event_duration e) q = Inr True) acc"

definition label_spec ::
    "pylib \<Rightarrow> string \<Rightarrow> int \<Rightarrow> bool \<Rightarrow> bool \<Rightarrow> (string, pyval) dict list \<Rightarrow> semantic" where
  "label_spec lib label_version q win_closed any_view acc =
     (let types = map (event_type_of lib) acc;
          v1 = (label_version = ''v1'') in
      if ''report'' \<in> set types \<or> spec_active ''hide'' types then StrongNegative
      else if spec_active ''save'' types \<or> spec_active ''share'' types then StrongPositive
      else if spec_active ''like'' types \<or> ''comment'' \<in> set types \<or>
              (v1 \<and> (''click'' \<in> set types \<or> spec_read lib q acc \<or>
                      (any_view \<and> ''view'' \<in> set types))) then Positive
      else if spec_read lib q acc then QualifiedRead
      else if ''click'' \<in> set types then Click
      else if win_closed then Negative else Exposure)"

definition label_irreversible ::
    "pylib \<Rightarrow> string \<Rightarrow> int \<Rightarrow> bool \<Rightarrow> (string, pyval) dict list \<Rightarrow> semantic set" where
  "label_irreversible lib label_version q any_view acc =
     (let types = map (event_type_of lib) acc; v1 = (label_version = ''v1'') in
      (if ''click'' \<in> set types then {Click} else {}) \<union>
      (if ''report'' \<in> set types then {StrongNegative} else {}) \<union>
      (if ''comment'' \<in> set types \<or> (v1 \<and> any_view \<and> ''view'' \<in> set types) \<or>
          (label_version \<noteq> ''v2'' \<and> spec_read lib q acc) then {Positive} else {}) \<union>
      (if label_version = ''v2'' \<and> spec_read lib q acc then {QualifiedRead} else {}))"

definition label_inv ::
    "pylib \<Rightarrow> string \<Rightarrow> int \<Rightarrow> bool \<Rightarrow> (string, pyval) dict list \<Rightarrow> label_state \<Rightarrow> bool" where
  "label_inv lib label_version q any_view acc st \<longleftrightarrow>
     dkeys (active st) = [''like'', ''save'', ''share'', ''hide''] \<and>
     (\<forall>k\<in>{''like'', ''save'', ''share'', ''hide''}.
        active_flag st k = spec_active k (map (event_type_of lib) acc)) \<and>
     irreversible st = label_irreversible lib label_version q any_view acc \<and>
     (visible_seen st \<longleftrightarrow> ''visible'' \<in> set (map (event_type_of lib) acc))"

lemma spec_active_snoc:
  "spec_active k (types @ [t]) = (if t = k then True else if t = ''un'' @ k then False else spec_active k types)"
  by (simp add: spec_active_def)

lemma spec_read_snoc:
  "spec_read lib q (acc @ [e]) \<longleftrightarrow>
     spec_read lib q acc \<or> qualifies_read (event_type_of lib e) (event_duration e) q = Inr True"
  by (auto simp: spec_read_def)

lemma add_irreversible_simps [simp]:
  "active (add_irreversible s st) = active st"
  "active_flag (add_irreversible s st) k = active_flag st k"
  "visible_seen (add_irreversible s st) = visible_seen st"
  "reversed_types (add_irreversible s st) = reversed_types st"
  "irreversible (add_irreversible s st) = insert s (irreversible st)"
  by (simp_all add: add_irreversible_def active_flag_def)

lemma dget_label_reversals:
  "dget label_reversals t =
     (if t = ''unlike'' then Some ''like'' else if t = ''unsave'' then Some ''save''
      else if t = ''unshare'' then Some ''share'' else if t = ''unhide'' then Some ''hide'' else None)"
  by (simp add: label_reversals_def)

lemma active_flag_dset:
  "active_flag (st\<lparr>active := dset d k b\<rparr>) k' = (if k = k' then b else dget_default d k' False)"
  by (simp add: active_flag_def dget_default_def)

lemma apply_event_type_active:
  assumes "dkeys (active st) = [''like'', ''save'', ''share'', ''hide'']"
  shows "dkeys (active (apply_event_type t st)) = [''like'', ''save'', ''share'', ''hide'']"
    and "k \<in> {''like'', ''save'', ''share'', ''hide''} \<Longrightarrow>
      active_flag (apply_event_type t st) k =
        (if t = k then True else if t = ''un'' @ k then False else active_flag st k)"
  using assms
  by (auto simp: apply_event_type_def dget_label_reversals active_flag_def dget_default_def dkeys_dset)

lemma apply_event_type_other:
  assumes "dkeys (active st) = [''like'', ''save'', ''share'', ''hide'']"
  shows "irreversible (apply_event_type t st) =
      (if t = ''click'' then {Click} else {}) \<union> (if t = ''comment'' then {Positive} else {}) \<union>
      (if t = ''report'' then {StrongNegative} else {}) \<union> irreversible st"
    and "visible_seen (apply_event_type t st) \<longleftrightarrow> t = ''visible'' \<or> visible_seen st"
  using assms by (auto simp: apply_event_type_def dget_label_reversals)

lemma label_irreversible_snoc:
  assumes "spec_read lib q (acc @ [e]) \<longleftrightarrow> spec_read lib q acc \<or> r"
  shows "label_irreversible lib lv q any_view (acc @ [e]) =
    (if r then {if lv = ''v2'' then QualifiedRead else Positive} else {}) \<union>
    (if lv = ''v1'' \<and> any_view \<and> event_type_of lib e = ''view'' then {Positive} else {}) \<union>
    ((if event_type_of lib e = ''click'' then {Click} else {}) \<union>
     (if event_type_of lib e = ''comment'' then {Positive} else {}) \<union>
     (if event_type_of lib e = ''report'' then {StrongNegative} else {}) \<union>
     label_irreversible lib lv q any_view acc)"
proof -
  define C M R V where "C = (''click'' \<in> set (map (event_type_of lib) acc))"
    and "M = (''comment'' \<in> set (map (event_type_of lib) acc))"
    and "R = (''report'' \<in> set (map (event_type_of lib) acc))"
    and "V = (''view'' \<in> set (map (event_type_of lib) acc))"
  have snoc: "x \<in> set (map (event_type_of lib) (acc @ [e])) \<longleftrightarrow>
      x = event_type_of lib e \<or> x \<in> set (map (event_type_of lib) acc)" for x by auto
  show ?thesis
    unfolding label_irreversible_def Let_def snoc assms C_def[symmetric] M_def[symmetric]
      R_def[symmetric] V_def[symmetric]
    by (rule set_eqI; rename_tac s; case_tac s; simp; argo?)
qed

lemma label_step_inv:
  assumes inv: "label_inv lib lv q any_view acc st"
    and step: "label_step lib lv q any_view st e = Inr st'"
  shows "label_inv lib lv q any_view (acc @ [e]) st'"
proof -
  let ?t = "event_type_of lib e"
  have keys: "dkeys (active st) = [''like'', ''save'', ''share'', ''hide'']"
    using inv by (simp add: label_inv_def)
  obtain r where r: "qualifies_read ?t (event_duration e) q = Inr r"
    and st': "st' = (if r then add_irreversible (if lv = ''v2'' then QualifiedRead else Positive) else id)
        ((if lv = ''v1'' \<and> any_view \<and> ?t = ''view'' then add_irreversible Positive else id)
          (apply_event_type ?t st))"
    using step by (auto simp: label_step_def Let_def split: if_splits)
  have act: "active st' = active (apply_event_type ?t st)" by (simp add: st')
  have "\<forall>k\<in>{''like'', ''save'', ''share'', ''hide''}.
      active_flag st' k = spec_active k (map (event_type_of lib) (acc @ [e]))"
  proof
    fix k :: string assume k: "k \<in> {''like'', ''save'', ''share'', ''hide''}"
    then have "active_flag st k = spec_active k (map (event_type_of lib) acc)"
      using inv by (auto simp: label_inv_def)
    then show "active_flag st' k = spec_active k (map (event_type_of lib) (acc @ [e]))"
      using apply_event_type_active(2)[OF keys k, of ?t]
      by (simp add: spec_active_snoc active_flag_def act)
  qed
  moreover have "irreversible st' = label_irreversible lib lv q any_view (acc @ [e])"
  proof -
    have i: "irreversible st = label_irreversible lib lv q any_view acc"
      using inv by (simp add: label_inv_def)
    have rd: "spec_read lib q (acc @ [e]) \<longleftrightarrow> spec_read lib q acc \<or> r"
      using r by (simp add: spec_read_snoc)
    have "irreversible st' =
        (if r then {if lv = ''v2'' then QualifiedRead else Positive} else {}) \<union>
        (if lv = ''v1'' \<and> any_view \<and> ?t = ''view'' then {Positive} else {}) \<union>
        irreversible (apply_event_type ?t st)"
      by (simp add: st')
    then show ?thesis
      unfolding i apply_event_type_other[OF keys]
      by (simp only: label_irreversible_snoc[OF rd])
  qed
  moreover have "visible_seen st' \<longleftrightarrow> ''visible'' \<in> set (map (event_type_of lib) (acc @ [e]))"
    using inv by (auto simp: st' label_inv_def apply_event_type_other[OF keys])
  ultimately show ?thesis
    using apply_event_type_active(1)[OF keys] by (simp add: label_inv_def act)
qed

lemma label_run_inv:
  "fold_res (label_step lib lv q any_view) label_init acc = Inr st \<Longrightarrow>
     label_inv lib lv q any_view acc st"
proof (induction acc arbitrary: st rule: rev_induct)
  case Nil
  then show ?case
    by (auto simp: label_init_def label_inv_def active_flag_def dget_default_def spec_active_def
        label_irreversible_def spec_read_def)
next
  case (snoc e acc)
  then show ?case by (auto simp: fold_res_snoc intro: label_step_inv)
qed

lemma find_PRECEDENCE:
  "find P PRECEDENCE =
     (if P StrongNegative then Some StrongNegative else if P StrongPositive then Some StrongPositive
      else if P Positive then Some Positive else if P QualifiedRead then Some QualifiedRead
      else if P Click then Some Click else if P Negative then Some Negative
      else if P Exposure then Some Exposure else None)"
  by (simp add: PRECEDENCE_def)

lemma mem_label_irreversible:
  "StrongNegative \<in> label_irreversible lib lv q any_view acc \<longleftrightarrow> ''report'' \<in> set (map (event_type_of lib) acc)"
  "StrongPositive \<notin> label_irreversible lib lv q any_view acc"
  "Positive \<in> label_irreversible lib lv q any_view acc \<longleftrightarrow>
     ''comment'' \<in> set (map (event_type_of lib) acc) \<or>
     (lv = ''v1'' \<and> any_view \<and> ''view'' \<in> set (map (event_type_of lib) acc)) \<or>
     (lv \<noteq> ''v2'' \<and> spec_read lib q acc)"
  "QualifiedRead \<in> label_irreversible lib lv q any_view acc \<longleftrightarrow> lv = ''v2'' \<and> spec_read lib q acc"
  "Click \<in> label_irreversible lib lv q any_view acc \<longleftrightarrow> ''click'' \<in> set (map (event_type_of lib) acc)"
  "Negative \<notin> label_irreversible lib lv q any_view acc"
  "Exposure \<notin> label_irreversible lib lv q any_view acc"
  by (simp_all add: label_irreversible_def Let_def)

lemma mem_label_candidates:
  assumes "Negative \<notin> irreversible st" "Exposure \<notin> irreversible st"
  shows "StrongNegative \<in> label_candidates lv c st \<longleftrightarrow>
      StrongNegative \<in> irreversible st \<or> active_flag st ''hide''"
    "StrongPositive \<in> label_candidates lv c st \<longleftrightarrow>
      StrongPositive \<in> irreversible st \<or> active_flag st ''save'' \<or> active_flag st ''share''"
    "Positive \<in> label_candidates lv c st \<longleftrightarrow>
      Positive \<in> irreversible st \<or> active_flag st ''like'' \<or> (lv = ''v1'' \<and> Click \<in> irreversible st)"
    "QualifiedRead \<in> label_candidates lv c st \<longleftrightarrow> QualifiedRead \<in> irreversible st"
    "Click \<in> label_candidates lv c st \<longleftrightarrow> Click \<in> irreversible st \<and> lv \<noteq> ''v1''"
  using assms by (simp_all add: label_candidates_def Let_def) argo+

lemma label_candidates_rest:
  assumes "Negative \<notin> irreversible st" "Exposure \<notin> irreversible st"
    and "\<And>s. s \<in> {StrongNegative, StrongPositive, Positive, QualifiedRead, Click} \<Longrightarrow>
           s \<notin> label_candidates lv c st"
  shows "label_candidates lv c st = {if c then Negative else Exposure}"
proof -
  let ?u = "if c then Negative else Exposure"
  have sub: "label_candidates lv c st \<subseteq> {StrongNegative, StrongPositive, Positive, QualifiedRead, Click, ?u}"
  proof
    fix s assume "s \<in> label_candidates lv c st"
    then show "s \<in> {StrongNegative, StrongPositive, Positive, QualifiedRead, Click, ?u}"
      using assms(1,2) by (cases s) (auto simp: label_candidates_def Let_def split: if_splits)
  qed
  have "label_candidates lv c st \<noteq> {}"
    by (simp add: label_candidates_def Let_def)
  with sub assms(3) show ?thesis by blast
qed

lemma find_candidates:
  assumes "label_inv lib lv q any_view acc st" "lv \<in> {''v1'', ''v2''}"
  shows "find (\<lambda>s. s \<in> label_candidates lv win_closed st) PRECEDENCE =
    Some (label_spec lib lv q win_closed any_view acc)"
proof -
  let ?C = "label_candidates lv win_closed st"
  have a: "active_flag st ''like'' = spec_active ''like'' (map (event_type_of lib) acc)"
    "active_flag st ''save'' = spec_active ''save'' (map (event_type_of lib) acc)"
    "active_flag st ''share'' = spec_active ''share'' (map (event_type_of lib) acc)"
    "active_flag st ''hide'' = spec_active ''hide'' (map (event_type_of lib) acc)"
    using assms(1) by (auto simp: label_inv_def)
  have i: "irreversible st = label_irreversible lib lv q any_view acc"
    using assms(1) by (auto simp: label_inv_def)
  then have n: "Negative \<notin> irreversible st" "Exposure \<notin> irreversible st"
    by (simp_all add: mem_label_irreversible)
  note mem = mem_label_candidates[OF n, unfolded a i mem_label_irreversible]
  define R H S L M K Q V where "R = (''report'' \<in> set (map (event_type_of lib) acc))"
    and "H = spec_active ''hide'' (map (event_type_of lib) acc)"
    and "S = (spec_active ''save'' (map (event_type_of lib) acc) \<or>
              spec_active ''share'' (map (event_type_of lib) acc))"
    and "L = spec_active ''like'' (map (event_type_of lib) acc)"
    and "M = (''comment'' \<in> set (map (event_type_of lib) acc))"
    and "K = (''click'' \<in> set (map (event_type_of lib) acc))"
    and "Q = spec_read lib q acc" and "V = (''view'' \<in> set (map (event_type_of lib) acc))"
  note fold = R_def[symmetric] H_def[symmetric] S_def[symmetric] L_def[symmetric]
    M_def[symmetric] K_def[symmetric] Q_def[symmetric] V_def[symmetric]
  note mem' = mem[folded S_def, unfolded fold]
  have SN: "StrongNegative \<in> ?C \<longleftrightarrow> R \<or> H" and SP: "StrongPositive \<in> ?C \<longleftrightarrow> S"
    using mem' by (auto simp: mem_label_irreversible(2))
  have P: "Positive \<in> ?C \<longleftrightarrow> L \<or> M \<or> lv = ''v1'' \<and> (K \<or> Q \<or> any_view \<and> V)"
    using mem' assms(2) by auto
  have QC: "QualifiedRead \<in> ?C \<longleftrightarrow> lv = ''v2'' \<and> Q" "Click \<in> ?C \<longleftrightarrow> K \<and> lv \<noteq> ''v1''"
    using mem' by auto
  show ?thesis
  proof (cases "\<exists>s\<in>{StrongNegative, StrongPositive, Positive, QualifiedRead, Click}. s \<in> ?C")
    case True
    then have some: "StrongNegative \<in> ?C \<or> StrongPositive \<in> ?C \<or> Positive \<in> ?C \<or> QualifiedRead \<in> ?C \<or> Click \<in> ?C"
      by blast
    show ?thesis
      using some assms(2) unfolding find_PRECEDENCE label_spec_def Let_def fold SN SP P QC
      by (cases "R \<or> H"; cases S; cases "L \<or> M \<or> lv = ''v1'' \<and> (K \<or> Q \<or> any_view \<and> V)"; cases Q; simp; blast)
  next
    case False
    then have none: "\<not> (R \<or> H)" "\<not> S" "\<not> (L \<or> M \<or> lv = ''v1'' \<and> (K \<or> Q \<or> any_view \<and> V))"
      "\<not> (lv = ''v2'' \<and> Q)" "\<not> (K \<and> lv \<noteq> ''v1'')"
      unfolding SN[symmetric] SP[symmetric] P[symmetric] QC[symmetric] by blast+
    then have "\<not> Q" "\<not> K" using assms(2) by auto
    from False have C: "?C = {if win_closed then Negative else Exposure}"
      by (intro label_candidates_rest[OF n]) blast
    have "find (\<lambda>s. s \<in> ?C) PRECEDENCE = Some (if win_closed then Negative else Exposure)"
      unfolding C find_PRECEDENCE by simp
    moreover have "label_spec lib lv q win_closed any_view acc = (if win_closed then Negative else Exposure)"
      using none \<open>\<not> Q\<close> \<open>\<not> K\<close> unfolding label_spec_def Let_def fold by (simp only: if_False HOL.simp_thms)
    ultimately show ?thesis by simp
  qed
qed

section \<open>Derivation against the specification\<close>

lemma derive_label_cases:
  assumes "derive_label lib evs lv q win_closed defs any_view = Inr r"
  obtains dd acc st where
    "lv \<in> {''v1'', ''v2''}" "0 < q"
    "dedup_events lib (map (\<lambda>e. event_mapping e defs) evs) = Inr dd"
    "sort_events lib (dvalues (uniq dd) @ anonymous dd) = Inr acc"
    "fold_res (label_step lib lv q any_view) label_init acc = Inr st"
    "r = \<lparr>res_semantic = label_spec lib lv q win_closed any_view acc,
          training_target = target_of (label_spec lib lv q win_closed any_view acc),
          accepted_events = length acc, deduplicated_events = duplicates dd,
          reversed_event_types = reversed_types st,
          processing_order = map (event_id_text lib) acc\<rparr>"
proof -
  from assms have lv: "lv \<in> {''v1'', ''v2''}" and q: "0 < q"
    by (auto simp: derive_label_def split: if_splits)
  with assms obtain dd acc st where
    dd: "dedup_events lib (map (\<lambda>e. event_mapping e defs) evs) = Inr dd" and
    acc: "sort_events lib (dvalues (uniq dd) @ anonymous dd) = Inr acc" and
    st: "fold_res (label_step lib lv q any_view) label_init acc = Inr st" and
    r: "(case find (\<lambda>s. s \<in> label_candidates lv win_closed st) PRECEDENCE of
            None \<Rightarrow> Inl (RuntimeError ''StopIteration'')
          | Some s \<Rightarrow>
              Inr \<lparr>res_semantic = s, training_target = target_of s,
                   accepted_events = length acc, deduplicated_events = duplicates dd,
                   reversed_event_types = reversed_types st,
                   processing_order = map (event_id_text lib) acc\<rparr>) = Inr r"
    by (fastforce simp: derive_label_def Let_def)
  have "find (\<lambda>s. s \<in> label_candidates lv win_closed st) PRECEDENCE =
      Some (label_spec lib lv q win_closed any_view acc)"
    by (rule find_candidates[OF label_run_inv[OF st] lv])
  with r show thesis by (intro that[OF lv q dd acc st]) simp
qed

lemma target_of_label_spec_closed:
  "target_of (label_spec lib lv q True any_view acc) \<in> {Some 0, Some 1}"
  by (simp add: target_of_def label_spec_def Let_def)

text \<open>
  The \<open>next(...)\<close> over \<open>PRECEDENCE\<close> always finds a semantic: the only exceptions are the
  \<open>ValueError\<close>s and the \<open>TypeError\<close> of \<open>int(duration)\<close>.
\<close>

definition value_or_type_error :: "py_error \<Rightarrow> bool" where
  "value_or_type_error e = (case e of ValueError _ \<Rightarrow> True | TypeError _ \<Rightarrow> True | _ \<Rightarrow> False)"

lemma fold_res_error:
  "fold_res f s xs = Inl e \<Longrightarrow> \<exists>s' x. f s' x = Inl e"
  by (induction xs arbitrary: s) (auto simp: bind_res_Inl)

lemma timestamp_error: "timestamp lib v = Inl e \<Longrightarrow> e = ValueError ''Invalid isoformat string''"
  by (cases v) (auto simp: parse_iso_def bind_res_Inl split: option.splits)

lemma event_sort_key_error:
  "event_sort_key lib v = Inl e \<Longrightarrow> e = ValueError ''Invalid isoformat string''"
  by (auto simp: event_sort_key_def bind_res_Inl dest: timestamp_error)

lemma dedup_step_error: "dedup_step lib st v = Inl e \<Longrightarrow> \<exists>k. e = ValueError (''conflicting duplicate event: '' @ k)"
  by (auto simp: dedup_step_def Let_def split: option.splits if_splits)

lemma py_int_error: "py_int v = Inl e \<Longrightarrow> value_or_type_error e"
  by (cases v) (auto simp: value_or_type_error_def split: option.splits)

lemma label_step_error: "label_step lib lv q a st v = Inl e \<Longrightarrow> value_or_type_error e"
  by (auto simp: label_step_def Let_def bind_res_Inl qualifies_read_def dest: py_int_error split: if_splits)

lemma sort_events_error: "sort_events lib xs = Inl e \<Longrightarrow> e = ValueError ''Invalid isoformat string''"
  by (auto simp: sort_events_def sorted_res_def bind_res_Inl dest!: map_res_Inl dest: event_sort_key_error)

lemma dedup_events_error: "dedup_events lib xs = Inl e \<Longrightarrow> \<exists>k. e = ValueError (''conflicting duplicate event: '' @ k)"
  unfolding dedup_events_def using fold_res_error dedup_step_error by meson

section \<open>Independence of delivery order and of repeated deliveries\<close>

definition label_consistent :: "pylib \<Rightarrow> (string, pyval) dict list \<Rightarrow> bool" where
  "label_consistent lib evs \<longleftrightarrow>
     (\<forall>e\<in>set evs. vget e ''event_id'' \<noteq> VNone) \<and>
     (\<forall>e\<in>set evs. \<forall>e'\<in>set evs. event_id_text lib e = event_id_text lib e' \<longrightarrow> e = e')"

lemma event_id_text_vget:
  "vget e ''event_id'' \<noteq> VNone \<Longrightarrow> event_id_text lib e = py_str lib (vget e ''event_id'')"
  by (auto simp: vget_def event_id_text_def split: option.splits)

lemma dedup_events_consistent:
  assumes "label_consistent lib evs"
  shows "dedup_events lib evs =
    Inr \<lparr>uniq = map (\<lambda>e. (event_id_text lib e, e)) (dedup evs), anonymous = [],
         duplicates = length evs - length (dedup evs)\<rparr>"
  using assms
proof (induction evs rule: rev_induct)
  case Nil
  then show ?case by (simp add: dedup_events_def dedup_init_def)
next
  case (snoc e evs)
  let ?k = "event_id_text lib"
  let ?d = "map (\<lambda>e. (?k e, e)) (dedup evs)"
  have id: "vget e ''event_id'' \<noteq> VNone" and key: "py_str lib (vget e ''event_id'') = ?k e"
    using snoc.prems event_id_text_vget[of e lib] by (auto simp: label_consistent_def)
  have IH: "dedup_events lib evs = Inr \<lparr>uniq = ?d, anonymous = [],
      duplicates = length evs - length (dedup evs)\<rparr>"
    using snoc by (auto simp: label_consistent_def)
  have le: "length (dedup evs) \<le> length evs" by (simp add: length_dedup card_length)
  have get: "dget ?d (?k e) = (if e \<in> set evs then Some e else None)"
  proof (cases "e \<in> set evs")
    case True
    then have "(?k e, e) \<in> set ?d" by auto
    moreover have "distinct (dkeys ?d)"
      using snoc.prems by (auto simp: label_consistent_def distinct_map inj_on_def o_def)
    ultimately show ?thesis using True by (simp add: map_of_is_SomeI)
  next
    case False
    then have "?k e \<notin> ?k ` set evs" using snoc.prems by (auto simp: label_consistent_def)
    then have "dget ?d (?k e) = None" unfolding map_of_eq_None_iff by (auto simp: image_iff)
    with False show ?thesis by (simp del: map_of_map)
  qed
  show ?case
  proof (cases "e \<in> set evs")
    case True
    then show ?thesis
      using IH id key get le
      by (simp add: dedup_events_def fold_res_snoc dedup_step_def dedup_snoc Let_def)
  next
    case False
    then have "?k e \<notin> ?k ` set evs" using snoc.prems by (auto simp: label_consistent_def)
    then have "?k e \<notin> set (dkeys ?d)" by (auto simp: image_iff)
    then show ?thesis
      using False IH id key get le
      by (simp add: dedup_events_def fold_res_snoc dedup_step_def dedup_snoc Let_def dset_new)
  qed
qed

lemma sort_events_perm:
  assumes "mset xs = mset ys" "inj_on (event_id_text lib) (set xs)"
  shows "sort_events lib xs = sort_events lib ys"
proof -
  have "event_id_text lib x = snd (snd k)" if "event_sort_key lib x = Inr k" for x k
    using that by (auto simp: event_sort_key_def)
  then have "sorted_res (event_sort_key lib) xs = sorted_res (event_sort_key lib) ys"
    using assms by (intro sorted_res_perm[where err = "ValueError ''Invalid isoformat string''"])
      (auto simp: inj_on_def dest: event_sort_key_error)
  then show ?thesis by (simp add: sort_events_def)
qed

lemma derive_label_set_only_aux:
  assumes "set xs = set ys" "label_consistent lib xs"
    "dedup_events lib xs = Inr dd" "dedup_events lib ys = Inr dd'"
  shows "sort_events lib (dvalues (uniq dd) @ anonymous dd) =
    sort_events lib (dvalues (uniq dd') @ anonymous dd')"
proof -
  have cons: "label_consistent lib ys" using assms(1,2) by (simp add: label_consistent_def)
  have "mset (dedup xs) = mset (dedup ys)"
    using assms(1) by (intro set_eq_iff_mset_eq_distinct[THEN iffD1]) simp_all
  moreover have "inj_on (event_id_text lib) (set (dedup xs))"
    using assms(2) by (auto simp: label_consistent_def inj_on_def)
  ultimately have "sort_events lib (dedup xs) = sort_events lib (dedup ys)"
    by (rule sort_events_perm)
  then show ?thesis
    using assms(3,4) dedup_events_consistent[OF assms(2)] dedup_events_consistent[OF cons]
    by (auto simp: o_def)
qed

lemma dedup_events_payload:
  assumes "dedup_events lib evs = Inr dd" "e \<in> set evs" "vget e ''event_id'' \<noteq> VNone"
  shows "\<exists>e'. dget (uniq dd) (py_str lib (vget e ''event_id'')) = Some e' \<and>
    canonical_payload lib e' = canonical_payload lib e"
  using assms
proof (induction evs arbitrary: dd e rule: rev_induct)
  case Nil
  then show ?case by simp
next
  case (snoc x evs)
  from snoc.prems(1) obtain d where d: "dedup_events lib evs = Inr d" "dedup_step lib d x = Inr dd"
    by (auto simp: dedup_events_def fold_res_snoc)
  have mono: "dget (uniq d) k = Some v \<Longrightarrow> dget (uniq dd) k = Some v" for k v
    using d(2) by (auto simp: dedup_step_def Let_def split: if_splits option.splits)
  show ?case
  proof (cases "e = x")
    case True
    then show ?thesis using d(2) snoc.prems(3)
      by (auto simp: dedup_step_def Let_def split: if_splits option.splits)
  next
    case False
    with snoc.prems(2) have "e \<in> set evs" by simp
    from snoc.IH[OF d(1) this snoc.prems(3)] show ?thesis using mono by blast
  qed
qed

lemma length_sort_events: "sort_events lib xs = Inr acc \<Longrightarrow> length acc = length xs"
  by (auto simp: sort_events_def sorted_res_def dest!: map_res_length)

section \<open>Properties\<close>

text \<open>
  C1. Whenever \<open>derive_label\<close> returns, its semantic is the one the specification reads off the
  accepted events in processing order (reports and active hides first, then saves and shares, then
  likes, comments and, in v1, clicks and qualified reads, ...), its target is the target of that
  semantic, and the processing order lists exactly the accepted events.
\<close>

theorem derive_label_refines_spec:
  assumes "derive_label lib evs lv q win_closed defs any_view = Inr r"
  shows "\<exists>dd acc. dedup_events lib (map (\<lambda>e. event_mapping e defs) evs) = Inr dd \<and>
    sort_events lib (dvalues (uniq dd) @ anonymous dd) = Inr acc \<and>
    res_semantic r = label_spec lib lv q win_closed any_view acc \<and>
    training_target r = target_of (label_spec lib lv q win_closed any_view acc) \<and>
    processing_order r = map (event_id_text lib) acc \<and> accepted_events r = length acc"
  using assms by (rule derive_label_cases) auto

definition demo_lib :: pylib where
  "demo_lib = \<lparr>fromisoformat = (\<lambda>_. None), isoformat = (\<lambda>_. ''t''), str_other = (\<lambda>_. ''?''),
     float_of_str = (\<lambda>_. None), json_loads = (\<lambda>_. None),
     sha256_hex = (\<lambda>s. s), hmac_sha256_hex = (\<lambda>k s. k @ s)\<rparr>"

definition demo_event :: "int \<Rightarrow> string \<Rightarrow> int \<Rightarrow> event_src" where
  "demo_event i t ts = EMapping [(''event_id'', VInt i), (''event_type'', VStr t),
     (''occurred_at'', VTime (Aware ts))]"

lemmas label_eval =
  derive_label_def dedup_events_def dedup_init_def dedup_step_def sort_events_def sorted_res_def event_sort_key_def
  label_init_def label_step_def apply_event_type_def label_candidates_def active_flag_def
  target_of_def event_id_text_def event_type_of_def event_duration_def qualifies_read_def
  dmerge_def vget_def dget_default_def meta_get_def add_irreversible_def demo_event_def
  dget_label_reversals find_PRECEDENCE canonical_payload_def str_int_def str_nat.simps digit_char_eval

lemma demo_like_unlike_click:
  "derive_label demo_lib
     [demo_event 3 ''unlike'' 30, demo_event 1 ''like'' 10, demo_event 2 ''click'' 20]
     ''v2'' 10000 True [] False =
   Inr \<lparr>res_semantic = Click, training_target = Some 1, accepted_events = 3,
        deduplicated_events = 0, reversed_event_types = [''like''],
        processing_order = [''1'', ''2'', ''3'']\<rparr>"
  by (simp add: label_eval)

theorem derive_label_refines_spec_witness:
  "\<exists>dd acc. dedup_events demo_lib (map (\<lambda>e. event_mapping e [])
      [demo_event 3 ''unlike'' 30, demo_event 1 ''like'' 10, demo_event 2 ''click'' 20]) = Inr dd \<and>
    sort_events demo_lib (dvalues (uniq dd) @ anonymous dd) = Inr acc \<and>
    Click = label_spec demo_lib ''v2'' 10000 True False acc \<and>
    [''1'', ''2'', ''3''] = map (event_id_text demo_lib) acc"
  using derive_label_refines_spec[OF demo_like_unlike_click] by auto

text \<open>
  When every event carries an id and equal ids mean equal events, the label (or the exception)
  depends only on the set of events: neither the delivery order nor repeated deliveries change
  anything but the duplicate counter.
\<close>

theorem derive_label_set_only:
  assumes "set (map (\<lambda>e. event_mapping e defs) evs) = set (map (\<lambda>e. event_mapping e defs) evs')"
    and "label_consistent lib (map (\<lambda>e. event_mapping e defs) evs)"
  shows "map_sum id (\<lambda>r. r\<lparr>deduplicated_events := 0\<rparr>)
      (derive_label lib evs lv q win_closed defs any_view) =
    map_sum id (\<lambda>r. r\<lparr>deduplicated_events := 0\<rparr>)
      (derive_label lib evs' lv q win_closed defs any_view)"
proof -
  let ?xs = "map (\<lambda>e. event_mapping e defs) evs" and ?ys = "map (\<lambda>e. event_mapping e defs) evs'"
  have cons: "label_consistent lib ?ys" using assms by (simp add: label_consistent_def)
  obtain dd dd' where dd: "dedup_events lib ?xs = Inr dd" "dedup_events lib ?ys = Inr dd'"
    using dedup_events_consistent[OF assms(2)] dedup_events_consistent[OF cons] by blast
  have "sort_events lib (dvalues (uniq dd) @ anonymous dd) =
      sort_events lib (dvalues (uniq dd') @ anonymous dd')"
    by (rule derive_label_set_only_aux[OF assms(1,2) dd])
  then show ?thesis
    by (simp add: derive_label_def dd map_sum_bind_res Let_def
        option.case_distrib[of "map_sum id (\<lambda>r. r\<lparr>deduplicated_events := 0\<rparr>)"]
        cong: option.case_cong)
qed

theorem derive_label_set_only_witness:
  "map_sum id (\<lambda>r. r\<lparr>deduplicated_events := 0\<rparr>)
      (derive_label demo_lib [demo_event 1 ''like'' 10, demo_event 2 ''hide'' 20, demo_event 1 ''like'' 10]
        ''v1'' 10000 True [] False) =
    map_sum id (\<lambda>r. r\<lparr>deduplicated_events := 0\<rparr>)
      (derive_label demo_lib [demo_event 2 ''hide'' 20, demo_event 1 ''like'' 10]
        ''v1'' 10000 True [] False)"
  by (rule derive_label_set_only)
    (auto simp: label_consistent_def event_id_text_def dmerge_def demo_event_def vget_def
        str_int_def str_nat.simps digit_char_eval)

text \<open>
  Once the label window has closed the label is final: the semantic is not \<open>exposure\<close> and the
  training target is 0 or 1, so the builders' check for a missing target never fires.
\<close>

theorem derive_label_closed_is_final:
  assumes "derive_label lib evs lv q True defs any_view = Inr r"
  shows "res_semantic r \<noteq> Exposure \<and> training_target r \<in> {Some 0, Some 1}"
  using assms by (rule derive_label_cases) (auto simp: label_spec_def target_of_def Let_def)

theorem derive_label_closed_is_final_witness:
  "res_semantic \<lparr>res_semantic = Click, training_target = Some 1, accepted_events = 3,
        deduplicated_events = 0, reversed_event_types = [''like''],
        processing_order = [''1'', ''2'', ''3'']\<rparr> \<noteq> Exposure \<and> Some 1 \<in> {Some 0, Some (1::int)}"
  using derive_label_closed_is_final[OF demo_like_unlike_click] by simp

text \<open>
  C18. Two events with the same id and different payloads are never merged: the derivation raises
  the conflicting-duplicate error.
\<close>

theorem derive_label_conflict:
  assumes "e \<in> set (map (\<lambda>e. event_mapping e defs) evs)" "e' \<in> set (map (\<lambda>e. event_mapping e defs) evs)"
    and "vget e ''event_id'' \<noteq> VNone" "vget e' ''event_id'' \<noteq> VNone"
    and "py_str lib (vget e ''event_id'') = py_str lib (vget e' ''event_id'')"
    and "canonical_payload lib e \<noteq> canonical_payload lib e'"
    and "lv \<in> {''v1'', ''v2''}" "0 < q"
  shows "\<exists>k. derive_label lib evs lv q win_closed defs any_view =
    Inl (ValueError (''conflicting duplicate event: '' @ k))"
proof (cases "dedup_events lib (map (\<lambda>e. event_mapping e defs) evs)")
  case (Inl err)
  then obtain k where "err = ValueError (''conflicting duplicate event: '' @ k)"
    using dedup_events_error by blast
  with Inl assms(7,8) show ?thesis by (auto simp: derive_label_def)
next
  case (Inr dd)
  from dedup_events_payload[OF Inr assms(1,3)] dedup_events_payload[OF Inr assms(2,4)] assms(5,6)
  show ?thesis by auto
qed

theorem derive_label_conflict_witness:
  "\<exists>k. derive_label demo_lib [demo_event 1 ''like'' 10, demo_event 1 ''hide'' 10] ''v2'' 10000 True [] False =
    Inl (ValueError (''conflicting duplicate event: '' @ k))"
  by (rule derive_label_conflict[where e = "event_mapping (demo_event 1 ''like'' 10) []" and
        e' = "event_mapping (demo_event 1 ''hide'' 10) []"])
    (simp_all add: demo_event_def dmerge_def vget_def canonical_payload_def str_int_def)

text \<open>
  The derivation is total up to its documented exceptions: it returns a label or raises
  \<open>ValueError\<close>/\<open>TypeError\<close>; the \<open>next\<close> over \<open>PRECEDENCE\<close> never raises \<open>StopIteration\<close>.
\<close>

theorem derive_label_errors:
  "(\<exists>r. derive_label lib evs lv q win_closed defs any_view = Inr r) \<or>
   (\<exists>e. derive_label lib evs lv q win_closed defs any_view = Inl e \<and> value_or_type_error e)"
proof (cases "derive_label lib evs lv q win_closed defs any_view")
  case (Inl e)
  have "value_or_type_error (ValueError m)" for m by (simp add: value_or_type_error_def)
  with Inl show ?thesis
    by (auto simp: derive_label_def bind_res_Inl Let_def find_candidates[OF label_run_inv]
        dest!: dedup_events_error sort_events_error dest: fold_res_error label_step_error
        split: if_splits)
qed simp

end
