(* ===== verification/DatasetSchemas.thy ===== *)
theory DatasetSchemas
  imports RecommendationLabel
begin

text \<open>
  \<open>ai_pipeline/schemas.py\<close> and \<open>ai_pipeline/config.py\<close>: the rows the dataset builders read from
  telemetry, the records they write, and the validated configuration. \<open>parse_datetime\<close> refuses naive
  timestamps, so the timestamps of loaded rows are instants.
\<close>

section \<open>Telemetry rows\<close>

fun parse_datetime :: "pylib \<Rightarrow> pyval \<Rightarrow> instant res" where
  "parse_datetime lib (VTime (Aware t)) = Inr t"
| "parse_datetime lib (VTime (Naive _)) = Inl (ValueError ''timestamp must include a timezone'')"
| "parse_datetime lib (VStr s) =
     bind_res (parse_iso lib s) (\<lambda>d. case d of
        Aware t \<Rightarrow> Inr t | Naive _ \<Rightarrow> Inl (ValueError ''timestamp must include a timezone''))"
| "parse_datetime lib _ = Inl (TypeError ''timestamp must be a datetime or ISO-8601 string'')"

definition json_object :: "pylib \<Rightarrow> pyval \<Rightarrow> (string, pyval) dict res" where
  "json_object lib value =
     bind_res (case value of
                 VStr s \<Rightarrow> (case json_loads lib s of None \<Rightarrow> Inl (ValueError ''JSONDecodeError'') | Some v \<Rightarrow> Inr v)
               | v \<Rightarrow> Inr v) (\<lambda>decoded.
       case decoded of VMap d \<Rightarrow> Inr d | _ \<Rightarrow> Inl (ValueError ''expected a JSON object''))"

record impression =
  imp_id :: uuid
  imp_request_id :: uuid
  imp_user_id :: uuid
  imp_post_id :: uuid
  imp_position :: int
  imp_feed_source :: string
  imp_model_version :: string
  imp_snapshot :: "(string, pyval) dict"
  imp_served_at :: instant

definition uuid_item :: "pylib \<Rightarrow> (string, pyval) dict \<Rightarrow> string \<Rightarrow> uuid res" where
  "uuid_item lib row key = bind_res (vitem row key) (py_uuid lib)"

definition str_item :: "pylib \<Rightarrow> (string, pyval) dict \<Rightarrow> string \<Rightarrow> string res" where
  "str_item lib row key = bind_res (vitem row key) (\<lambda>v. Inr (py_str lib v))"

definition time_item :: "pylib \<Rightarrow> (string, pyval) dict \<Rightarrow> string \<Rightarrow> instant res" where
  "time_item lib row key = bind_res (vitem row key) (parse_datetime lib)"

definition impression_from_mapping :: "pylib \<Rightarrow> (string, pyval) dict \<Rightarrow> impression res" where
  "impression_from_mapping lib row =
     bind_res (uuid_item lib row ''id'') (\<lambda>i.
     bind_res (uuid_item lib row ''request_id'') (\<lambda>rid.
     bind_res (uuid_item lib row ''user_id'') (\<lambda>user.
     bind_res (uuid_item lib row ''post_id'') (\<lambda>post.
     bind_res (bind_res (vitem row ''position'') py_int) (\<lambda>pos.
     bind_res (str_item lib row ''feed_source'') (\<lambda>feed.
     bind_res (str_item lib row ''model_version'') (\<lambda>model.
     bind_res (bind_res (vitem row ''feature_snapshot'') (json_object lib)) (\<lambda>snap.
     bind_res (time_item lib row ''served_at'') (\<lambda>served.
       Inr \<lparr>imp_id = i, imp_request_id = rid, imp_user_id = user, imp_post_id = post, imp_position = pos,
            imp_feed_source = feed, imp_model_version = model, imp_snapshot = snap,
            imp_served_at = served\<rparr>)))))))))"

record behavior_event =
  ev_id :: uuid
  ev_impression_id :: "uuid option"
  ev_user_id :: uuid
  ev_post_id :: uuid
  ev_event_type :: string
  ev_dwell_ms :: "int option"
  ev_occurred_at :: instant
  ev_ingested_at :: "instant option"
  ev_event_version :: "string option"
  ev_metadata :: "(string, pyval) dict option"

definition behavior_from_mapping :: "pylib \<Rightarrow> (string, pyval) dict \<Rightarrow> behavior_event res" where
  "behavior_from_mapping lib row =
     (let impression_id = vget row ''impression_id''; dwell_ms = vget row ''dwell_ms'' in
      bind_res (py_optional (json_object lib) (vget row ''metadata'')) (\<lambda>metadata.
      let persisted = (case metadata of
            Some m \<Rightarrow> if vget row ''event_version'' = VNone then vget m ''event_version'' else vget row ''event_version''
          | None \<Rightarrow> vget row ''event_version'') in
      bind_res (uuid_item lib row ''id'') (\<lambda>i.
      bind_res (if truthy impression_id then bind_res (py_uuid lib impression_id) (\<lambda>u. Inr (Some u)) else Inr None) (\<lambda>imp.
      bind_res (uuid_item lib row ''user_id'') (\<lambda>user.
      bind_res (uuid_item lib row ''post_id'') (\<lambda>post.
      bind_res (str_item lib row ''event_type'') (\<lambda>ty.
      bind_res (py_optional py_int dwell_ms) (\<lambda>dwell.
      bind_res (time_item lib row ''occurred_at'') (\<lambda>occurred.
      bind_res (py_optional (parse_datetime lib) (vget row ''ingested_at'')) (\<lambda>ingested.
        Inr \<lparr>ev_id = i, ev_impression_id = imp, ev_user_id = user, ev_post_id = post, ev_event_type = ty,
             ev_dwell_ms = dwell, ev_occurred_at = occurred, ev_ingested_at = ingested,
             ev_event_version = (if persisted = VNone then None else Some (py_str lib persisted)),
             ev_metadata = metadata\<rparr>))))))))))"

text \<open>The event object \<open>derive_label\<close> reads: its attributes, \<open>None\<close> included.\<close>

definition opt_val :: "('a \<Rightarrow> pyval) \<Rightarrow> 'a option \<Rightarrow> pyval" where
  "opt_val f x = (case x of None \<Rightarrow> VNone | Some y \<Rightarrow> f y)"

definition time_val :: "instant \<Rightarrow> pyval" where
  "time_val t = VTime (Aware t)"

definition event_object :: "behavior_event \<Rightarrow> event_src" where
  "event_object e =
     EObject [(''id'', VUuid (ev_id e)), (''impression_id'', opt_val VUuid (ev_impression_id e)),
       (''user_id'', VUuid (ev_user_id e)), (''post_id'', VUuid (ev_post_id e)),
       (''event_type'', VStr (ev_event_type e)), (''dwell_ms'', opt_val VInt (ev_dwell_ms e)),
       (''occurred_at'', time_val (ev_occurred_at e)), (''ingested_at'', opt_val time_val (ev_ingested_at e)),
       (''event_version'', opt_val VStr (ev_event_version e)), (''metadata'', opt_val VMap (ev_metadata e))]"

record article_feature =
  af_id :: uuid
  af_post_id :: uuid
  af_encoder_version :: string
  af_content_hash :: string
  af_embedding :: "real list"
  af_source_updated_at :: instant
  af_computed_at :: instant

definition feature_from_mapping :: "pylib \<Rightarrow> (string, pyval) dict \<Rightarrow> article_feature res" where
  "feature_from_mapping lib row =
     bind_res (uuid_item lib row ''id'') (\<lambda>i.
     bind_res (uuid_item lib row ''post_id'') (\<lambda>post.
     bind_res (str_item lib row ''encoder_version'') (\<lambda>enc.
     bind_res (str_item lib row ''content_hash'') (\<lambda>hash.
     bind_res (bind_res (vitem row ''embedding'') (\<lambda>v. bind_res (py_iter v) (map_res (py_float lib)))) (\<lambda>emb.
     bind_res (time_item lib row ''source_updated_at'') (\<lambda>src.
     bind_res (time_item lib row ''computed_at'') (\<lambda>comp.
       Inr \<lparr>af_id = i, af_post_id = post, af_encoder_version = enc, af_content_hash = hash,
            af_embedding = emb, af_source_updated_at = src, af_computed_at = comp\<rparr>)))))))"

section \<open>History\<close>

definition HISTORY_SCHEMA_VERSION :: string where "HISTORY_SCHEMA_VERSION = ''user-history-snapshot-v1''"
definition DATASET_V2_SCOPE :: string where "DATASET_V2_SCOPE = ''served-impression-reranking''"

record history_entry =
  he_event_id :: uuid
  he_post_id :: uuid
  he_engaged_at :: instant
  he_encoder_version :: string
  he_content_hash :: string
  he_source_updated_at :: instant
  he_computed_at :: instant
  he_embedding :: "real list"

record history_snapshot =
  hs_user_id :: uuid
  hs_reference_at :: instant
  hs_entries :: "history_entry list"

definition history_audit_record ::
    "pylib \<Rightarrow> string \<Rightarrow> string option \<Rightarrow> history_entry \<Rightarrow> (string, pyval) dict res" where
  "history_audit_record lib identity_mode hash_salt e =
     (let rec0 = [(''event_type'', VStr ''click''), (''engaged_at'', time_val (he_engaged_at e)),
            (''encoder_version'', VStr (he_encoder_version e)), (''content_hash'', VStr (he_content_hash e)),
            (''feature_source_updated_at'', time_val (he_source_updated_at e)),
            (''feature_computed_at'', time_val (he_computed_at e))] in
      if identity_mode = ''hash''
      then (case hash_salt of
              Some salt \<Rightarrow>
                if salt = [] then Inl (ValueError ''hash_salt is required when identity_mode=hash'')
                else Inr (dset rec0 ''post_group'' (VStr (hmac_sha256_hex lib salt (str_uuid (he_post_id e)))))
            | None \<Rightarrow> Inl (ValueError ''hash_salt is required when identity_mode=hash''))
      else Inr (dset rec0 ''post_group'' VNone))"

definition snapshot_audit_record ::
    "pylib \<Rightarrow> string \<Rightarrow> string option \<Rightarrow> history_snapshot \<Rightarrow> (string, pyval) dict res" where
  "snapshot_audit_record lib identity_mode hash_salt s =
     bind_res (map_res (history_audit_record lib identity_mode hash_salt) (hs_entries s)) (\<lambda>es.
       Inr [(''schema_version'', VStr HISTORY_SCHEMA_VERSION), (''reference_at'', time_val (hs_reference_at s)),
            (''entries'', VList (map VMap es))])"

section \<open>Dataset rows\<close>

datatype split_name = Train | Validation | Test

text \<open>Splits are ordered as they follow each other in time.\<close>

fun split_rank :: "split_name \<Rightarrow> nat" where
  "split_rank Train = 0"
| "split_rank Validation = 1"
| "split_rank Test = 2"

lemma split_rank_inject: "split_rank s = split_rank t \<Longrightarrow> s = t"
  by (cases s; cases t) auto

instantiation split_name :: linorder
begin

definition less_eq_split_name :: "split_name \<Rightarrow> split_name \<Rightarrow> bool" where
  "less_eq_split_name s t \<longleftrightarrow> split_rank s \<le> split_rank t"

definition less_split_name :: "split_name \<Rightarrow> split_name \<Rightarrow> bool" where
  "less_split_name s t \<longleftrightarrow> split_rank s < split_rank t"

instance
  by standard (auto simp: less_eq_split_name_def less_split_name_def dest: split_rank_inject)

end

fun split_text :: "split_name \<Rightarrow> string" where
  "split_text Train = ''train''"
| "split_text Validation = ''validation''"
| "split_text Test = ''test''"

fun semantic_text :: "semantic \<Rightarrow> string" where
  "semantic_text Exposure = ''exposure''"
| "semantic_text Click = ''click''"
| "semantic_text QualifiedRead = ''qualified_read''"
| "semantic_text Positive = ''positive''"
| "semantic_text StrongPositive = ''strong_positive''"
| "semantic_text Negative = ''negative''"
| "semantic_text StrongNegative = ''strong_negative''"

record dataset_row =
  dr_sample_id :: string
  dr_user_group :: "string option"
  dr_post_group :: "string option"
  dr_request_group :: "string option"
  dr_split :: split_name
  dr_label :: int
  dr_label_name :: semantic
  dr_served_at :: instant
  dr_visible_at :: instant
  dr_position :: int
  dr_feed_source :: string
  dr_model_version :: string
  dr_feature_schema_version :: string
  dr_topic_relevance :: "real option"
  dr_freshness :: "real option"
  dr_safety_score :: "real option"
  dr_candidate_source :: string
  dr_is_followed_author :: pyval
  dr_author_affinity :: "real option"
  dr_heuristic_score :: "real option"
  dr_ml_score :: "real option"
  dr_audit_user_id :: string
  dr_audit_post_id :: string
  dr_audit_request_identity :: string

definition dataset_row_record :: "dataset_row \<Rightarrow> (string, pyval) dict" where
  "dataset_row_record r =
     [(''sample_id'', VStr (dr_sample_id r)), (''user_group'', opt_val VStr (dr_user_group r)),
      (''post_group'', opt_val VStr (dr_post_group r)), (''request_group'', opt_val VStr (dr_request_group r)),
      (''split'', VStr (split_text (dr_split r))), (''label'', VInt (dr_label r)),
      (''label_name'', VStr (semantic_text (dr_label_name r))), (''served_at'', time_val (dr_served_at r)),
      (''visible_at'', time_val (dr_visible_at r)), (''position'', VInt (dr_position r)),
      (''feed_source'', VStr (dr_feed_source r)), (''model_version'', VStr (dr_model_version r)),
      (''feature_schema_version'', VStr (dr_feature_schema_version r)),
      (''topic_relevance'', opt_val VFloat (dr_topic_relevance r)), (''freshness'', opt_val VFloat (dr_freshness r)),
      (''safety_score'', opt_val VFloat (dr_safety_score r)), (''candidate_source'', VStr (dr_candidate_source r)),
      (''is_followed_author'', dr_is_followed_author r), (''author_affinity'', opt_val VFloat (dr_author_affinity r)),
      (''heuristic_score'', opt_val VFloat (dr_heuristic_score r)), (''ml_score'', opt_val VFloat (dr_ml_score r))]"

record build_stats =
  bs_impressions_read :: nat
  bs_events_read :: nat
  bs_served_without_visible :: nat
  bs_immature_impressions :: nat
  bs_unsupported_feature_schema :: nat

record build_result =
  br_rows :: "dataset_row list"
  br_stats :: build_stats

record article_representation =
  art_group :: string
  art_type :: string
  art_encoder_version :: "string option"
  art_content_hash :: "string option"
  art_embedding :: "real list option"
  art_source_updated_at :: "instant option"
  art_computed_at :: "instant option"
  art_category :: "string option"
  art_subcategory :: "string option"
  art_title :: "string option"
  art_abstract :: "string option"
  art_published_at :: "instant option"
  art_language :: "string option"
  art_detector_version :: "string option"

definition article_record :: "article_representation \<Rightarrow> (string, pyval) dict" where
  "article_record a =
     [(''article_group'', VStr (art_group a)), (''representation_type'', VStr (art_type a)),
      (''encoder_version'', opt_val VStr (art_encoder_version a)), (''content_hash'', opt_val VStr (art_content_hash a)),
      (''embedding'', opt_val (\<lambda>xs. VList (map VFloat xs)) (art_embedding a)),
      (''feature_source_updated_at'', opt_val time_val (art_source_updated_at a)),
      (''feature_computed_at'', opt_val time_val (art_computed_at a)),
      (''category'', opt_val VStr (art_category a)), (''subcategory'', opt_val VStr (art_subcategory a)),
      (''title'', opt_val VStr (art_title a)), (''abstract'', opt_val VStr (art_abstract a)),
      (''published_at'', opt_val time_val (art_published_at a)), (''language'', opt_val VStr (art_language a)),
      (''language_detector_version'', opt_val VStr (art_detector_version a))]"

record ranking_history_entry =
  rh_article :: article_representation
  rh_ordinal :: nat
  rh_engaged_at :: "instant option"
  rh_provenance :: string

definition history_record :: "ranking_history_entry \<Rightarrow> (string, pyval) dict" where
  "history_record e =
     [(''article'', VMap (article_record (rh_article e))), (''ordinal'', VInt (int (rh_ordinal e))),
      (''engaged_at'', opt_val time_val (rh_engaged_at e)), (''provenance'', VStr (rh_provenance e))]"

record ranking_row =
  rr_sample_id :: string
  rr_request_group :: string
  rr_candidate_group :: string
  rr_split :: split_name
  rr_served_at :: instant
  rr_visible_at :: instant
  rr_position :: int
  rr_served :: bool
  rr_visible :: bool
  rr_click_label :: int
  rr_utility_label :: int
  rr_utility_label_name :: semantic
  rr_article :: article_representation
  rr_history :: "ranking_history_entry list"
  rr_feed_source :: string
  rr_model_version :: string
  rr_source_format :: string
  rr_dataset_scope :: string
  rr_audit_request_identity :: string
  rr_declared_topics :: "string list"
  rr_declared_topics_observed_at :: "instant option"

definition ranking_row_record :: "ranking_row \<Rightarrow> (string, pyval) dict" where
  "ranking_row_record r =
     [(''sample_id'', VStr (rr_sample_id r)), (''request_group'', VStr (rr_request_group r)),
      (''candidate_group'', VStr (rr_candidate_group r)), (''split'', VStr (split_text (rr_split r))),
      (''served_at'', time_val (rr_served_at r)), (''visible_at'', time_val (rr_visible_at r)),
      (''position'', VInt (rr_position r)), (''served'', VBool (rr_served r)), (''visible'', VBool (rr_visible r)),
      (''click_label'', VInt (rr_click_label r)), (''utility_label'', VInt (rr_utility_label r)),
      (''utility_label_name'', VStr (semantic_text (rr_utility_label_name r))),
      (''article'', VMap (article_record (rr_article r))),
      (''history'', VList (map (\<lambda>e. VMap (history_record e)) (rr_history r))),
      (''feed_source'', VStr (rr_feed_source r)), (''model_version'', VStr (rr_model_version r)),
      (''source_format'', VStr (rr_source_format r)), (''dataset_scope'', VStr (rr_dataset_scope r)),
      (''declared_topics'', VList (map VStr (rr_declared_topics r))),
      (''declared_topics_observed_at'', opt_val time_val (rr_declared_topics_observed_at r))]"

record ranking_build_result =
  rb_rows :: "ranking_row list"
  rb_stats :: build_stats
  rb_expected_encoder_version :: "string option"
  rb_expected_embedding_dimension :: "int option"

record validation_report =
  vr_request_count :: nat
  vr_candidate_count :: nat
  vr_empty_history_requests :: nat
  vr_click_class_balance :: "(int, nat) dict"
  vr_utility_class_balance :: "(int, nat) dict"

section \<open>Configuration\<close>

definition PINNED_ENCODER_VERSION :: string where
  "PINNED_ENCODER_VERSION =
     ''intfloat/multilingual-e5-small@614241f622f53c4eeff9890bdc4f31cfecc418b3''"

definition DATASET_V2_FEATURE_SCHEMA_VERSION :: string where
  "DATASET_V2_FEATURE_SCHEMA_VERSION = ''post-content-features-v1''"

definition DATASET_V2_QUERY_WINDOW_VERSION :: string where
  "DATASET_V2_QUERY_WINDOW_VERSION = ''event-time-window-v1''"

definition is_alnum :: "char \<Rightarrow> bool" where
  "is_alnum c \<longleftrightarrow>
     (let n = of_char c :: nat in (48 \<le> n \<and> n \<le> 57) \<or> (65 \<le> n \<and> n \<le> 90) \<or> (97 \<le> n \<and> n \<le> 122))"

definition is_name :: "string \<Rightarrow> bool" where
  "is_name s \<longleftrightarrow>
     (case s of [] \<Rightarrow> False
      | c # cs \<Rightarrow> is_alnum c \<and> list_all (\<lambda>d. is_alnum d \<or> d \<in> {CHR ''.'', CHR ''_'', CHR ''-''}) cs)"

text \<open>\<open>ENCODER_VERSION_PATTERN.fullmatch\<close>: \<open>name/name@\<close> and forty lowercase hexadecimal digits.\<close>

definition is_encoder_version :: "string \<Rightarrow> bool" where
  "is_encoder_version s \<longleftrightarrow>
     (let owner = takeWhile (\<lambda>c. c \<noteq> CHR ''/'') s; rest = dropWhile (\<lambda>c. c \<noteq> CHR ''/'') s;
          name = takeWhile (\<lambda>c. c \<noteq> CHR ''@'') (tl rest); rev' = dropWhile (\<lambda>c. c \<noteq> CHR ''@'') (tl rest) in
      is_name owner \<and> rest \<noteq> [] \<and> is_name name \<and> rev' \<noteq> [] \<and> length (tl rev') = 40 \<and>
      list_all is_lower_hex (tl rev'))"

text \<open>The two limits \<open>build_history_snapshot\<close> reads from whatever configuration it is given.\<close>

record history_limits =
  dc_history_recent_limit :: int
  dc_history_long_term_limit :: int

record dataset_config = history_limits +
  dc_start :: datetime
  dc_end :: datetime
  dc_extraction_time :: datetime
  dc_label_window_hours :: int
  dc_qualified_read_ms :: int
  dc_label_version :: string
  dc_identity_mode :: string
  dc_hash_salt :: "string option"
  dc_train_fraction :: real
  dc_validation_fraction :: real
  dc_dataset_schema_version :: string
  dc_feature_schema_version :: string
  dc_encoder_version :: string
  dc_encoder_dimension :: int
  dc_query_window_version :: string

text \<open>\<open>DatasetConfig.__post_init__\<close>: the checks in order, each with its message.\<close>

definition dataset_config_checks :: "dataset_config \<Rightarrow> (bool \<times> string) list" where
  "dataset_config_checks c =
     [(tz_missing (dc_start c), ''start must include a timezone''),
      (tz_missing (dc_end c), ''end must include a timezone''),
      (tz_missing (dc_extraction_time c), ''extraction_time must include a timezone''),
      (wall_of (dc_start c) \<ge> wall_of (dc_end c), ''start must be before end''),
      (wall_of (dc_extraction_time c) < wall_of (dc_start c), ''extraction_time must not be before start''),
      (dc_label_window_hours c \<le> 0, ''label_window_hours must be positive''),
      (dc_qualified_read_ms c \<le> 0, ''qualified_read_ms must be positive''),
      (dc_label_version c \<notin> {''v1'', ''v2''}, ''recommendation_label_version must be v1 or v2''),
      (dc_identity_mode c \<notin> {''hash'', ''drop''}, ''identity_mode must be hash or drop''),
      (dc_identity_mode c = ''hash'' \<and> (dc_hash_salt c = None \<or> dc_hash_salt c = Some []),
        ''hash_salt is required when identity_mode=hash''),
      (\<not> (0 < dc_train_fraction c \<and> dc_train_fraction c < 1), ''train_fraction must be between zero and one''),
      (\<not> (0 < dc_validation_fraction c \<and> dc_validation_fraction c < 1),
        ''validation_fraction must be between zero and one''),
      (dc_train_fraction c + dc_validation_fraction c \<ge> 1, ''train and validation fractions must leave a test holdout''),
      (dc_history_recent_limit c < 0, ''history_recent_limit must be non-negative''),
      (dc_history_long_term_limit c < 0, ''history_long_term_limit must be non-negative''),
      (dc_dataset_schema_version c \<notin> {''v1'', ''v2''}, ''dataset_schema_version must be v1 or v2''),
      (dc_dataset_schema_version c = ''v2'' \<and> dc_label_version c \<noteq> ''v2'', ''dataset v2 requires label v2''),
      (dc_dataset_schema_version c = ''v2'' \<and> dc_identity_mode c \<noteq> ''hash'', ''dataset v2 requires identity_mode=hash''),
      (dc_dataset_schema_version c = ''v2'' \<and> dc_feature_schema_version c \<noteq> DATASET_V2_FEATURE_SCHEMA_VERSION,
        ''dataset v2 requires post-content-features-v1''),
      (dc_dataset_schema_version c = ''v2'' \<and> dc_query_window_version c \<noteq> DATASET_V2_QUERY_WINDOW_VERSION,
        ''dataset v2 requires event-time-window-v1''),
      (\<not> is_encoder_version (dc_encoder_version c), ''encoder_version must be an immutable repository revision''),
      (dc_encoder_dimension c \<le> 0, ''encoder_dimension must be positive''),
      (strip (dc_feature_schema_version c) = [], ''feature_schema_version must not be empty''),
      (strip (dc_query_window_version c) = [], ''query_window_version must not be empty'')]"

definition make_dataset_config :: "dataset_config \<Rightarrow> dataset_config res" where
  "make_dataset_config c = bind_res (run_checks (dataset_config_checks c)) (\<lambda>_. Inr c)"

definition dc_start_at :: "dataset_config \<Rightarrow> instant" where "dc_start_at c = wall_of (dc_start c)"
definition dc_end_at :: "dataset_config \<Rightarrow> instant" where "dc_end_at c = wall_of (dc_end c)"
definition dc_extraction_at :: "dataset_config \<Rightarrow> instant" where
  "dc_extraction_at c = wall_of (dc_extraction_time c)"

text \<open>What a configuration that was constructed satisfies.\<close>

definition config_valid :: "dataset_config \<Rightarrow> bool" where
  "config_valid c \<longleftrightarrow> list_all (\<lambda>(bad, _). \<not> bad) (dataset_config_checks c)"

lemma make_dataset_config_ok: "make_dataset_config c = Inr c' \<longleftrightarrow> c' = c \<and> config_valid c"
  by (auto simp: make_dataset_config_def config_valid_def run_checks_ok)

end
