(* ===== verification/DatasetSplit.thy ===== *)
theory DatasetSplit
  imports DatasetSchemas
begin

text \<open>
  The grouped chronological splits of \<open>ai_pipeline/build_dataset.py\<close>: \<open>_split_rows\<close>,
  \<open>_split_ranking_rows\<close> and \<open>_snap_split_boundary\<close>. The locale \<open>split_rows\<close> states what both row types
  provide (request identity, serving time, a split that can be replaced); its lemmas show that a split
  retains every row, keeps requests whole and orders train before validation before test.
\<close>

section \<open>Requests in serving order\<close>

definition group_time :: "('r \<Rightarrow> instant) \<Rightarrow> 'r list \<Rightarrow> instant" where
  "group_time served g = Min (served ` set g)"

definition ordered_groups :: "('r \<Rightarrow> string) \<Rightarrow> ('r \<Rightarrow> instant) \<Rightarrow> 'r list \<Rightarrow> 'r list list" where
  "ordered_groups req served rows =
     sort_key (\<lambda>g. (group_time served g, req (hd g))) (dvalues (group_by req rows))"

text \<open>\<open>(train_end, validation_end)\<close> before the boundaries are moved off equal timestamps.\<close>

definition split_counts :: "real \<Rightarrow> real \<Rightarrow> nat \<Rightarrow> nat \<times> nat" where
  "split_counts train_fraction validation_fraction group_count =
     (let n = int group_count;
          test_count = max 1 (round_half_even (real group_count * (1 - train_fraction - validation_fraction)));
          validation_count = (if group_count \<ge> 3 then max 1 (round_half_even (real group_count * validation_fraction)) else 0);
          validation_count = (if test_count + validation_count \<ge> n then max 0 (n - test_count - 1) else validation_count);
          train_end = n - validation_count - test_count in
      (nat train_end, nat (train_end + validation_count)))"

definition split_at :: "nat \<Rightarrow> nat \<Rightarrow> nat \<Rightarrow> split_name" where
  "split_at train_end validation_end index =
     (if index < train_end then Train else if index < validation_end then Validation else Test)"

definition assign_splits ::
    "('r \<Rightarrow> split_name \<Rightarrow> 'r) \<Rightarrow> nat \<Rightarrow> nat \<Rightarrow> 'r list list \<Rightarrow> 'r list" where
  "assign_splits with_split train_end validation_end groups =
     concat (map (\<lambda>(i, g). map (\<lambda>r. with_split r (split_at train_end validation_end i)) g) (enumerate 0 groups))"

section \<open>Boundaries off equal timestamps\<close>

text \<open>\<open>while low < b < n and group_times[b - 1] == group_times[b]: b -= 1\<close>\<close>

fun move_left :: "nat \<Rightarrow> instant list \<Rightarrow> nat \<Rightarrow> nat" where
  "move_left low gts 0 = 0"
| "move_left low gts (Suc b) =
     (if low < Suc b \<and> Suc b < length gts \<and> gts ! b = gts ! Suc b then move_left low gts b else Suc b)"

function move_right :: "instant list \<Rightarrow> nat \<Rightarrow> nat" where
  "move_right gts b =
     (if 0 < b \<and> b < length gts \<and> gts ! (b - 1) = gts ! b then move_right gts (Suc b) else b)"
  by pat_completeness auto
termination by (relation "measure (\<lambda>(gts, b). length gts - b)") auto

declare move_right.simps [simp del]

definition boundary_score :: "bool \<Rightarrow> nat \<Rightarrow> nat \<Rightarrow> nat \<Rightarrow> int \<times> int \<times> int \<times> int" where
  "boundary_score prefer_left n boundary candidate =
     (let left = (if candidate > 0 then 1 else 0); right = (if candidate < n then 1 else 0);
          preferred = (if prefer_left then left else right) in
      (- (left + right), - preferred, \<bar>int candidate - int boundary\<bar>, int candidate))"

definition snap_split_boundary :: "nat \<Rightarrow> instant list \<Rightarrow> bool \<Rightarrow> nat" where
  "snap_split_boundary boundary gts prefer_left =
     (let n = length gts in
      if boundary = 0 then 0
      else if boundary \<ge> n then n
      else if gts ! (boundary - 1) \<noteq> gts ! boundary then boundary
      else min_key (boundary_score prefer_left n boundary) (move_left 0 gts boundary) [move_right gts boundary])"

section \<open>The two splits\<close>

definition sample_counts_ok :: "dataset_row list \<Rightarrow> dataset_row list \<Rightarrow> bool" where
  "sample_counts_ok source split \<longleftrightarrow> mset (map dr_sample_id source) = mset (map dr_sample_id split)"

definition assert_atomic_request_splits :: "dataset_row list \<Rightarrow> dataset_row list \<Rightarrow> unit res" where
  "assert_atomic_request_splits source_rows split_rows =
     (if \<not> sample_counts_ok source_rows split_rows
      then Inl (AssertionError ''grouped split did not retain every eligible candidate'')
      else if list_ex (\<lambda>r. length (dedup (map dr_split (filter (\<lambda>s. dr_audit_request_identity s = dr_audit_request_identity r)
                              split_rows))) \<noteq> 1) split_rows
      then Inl (AssertionError ''canonical request crossed dataset splits'')
      else Inr ())"

definition dr_with_split :: "dataset_row \<Rightarrow> split_name \<Rightarrow> dataset_row" where
  "dr_with_split r s = r\<lparr>dr_split := s\<rparr>"

definition rr_with_split :: "ranking_row \<Rightarrow> split_name \<Rightarrow> ranking_row" where
  "rr_with_split r s = r\<lparr>rr_split := s\<rparr>"

definition split_boundaries_v1 :: "real \<Rightarrow> real \<Rightarrow> instant list \<Rightarrow> nat \<times> nat" where
  "split_boundaries_v1 train_fraction validation_fraction gts =
     (let (t, v) = split_counts train_fraction validation_fraction (length gts);
          train_end = move_left 0 gts t;
          validation_end = move_left train_end gts v in
      (train_end, max train_end validation_end))"

definition split_rows_v1 :: "dataset_row list \<Rightarrow> dataset_config \<Rightarrow> dataset_row list res" where
  "split_rows_v1 rows config =
     (let groups = ordered_groups dr_audit_request_identity dr_served_at rows in
      if groups = [] then Inr []
      else if length groups = 1 then Inr (map (\<lambda>r. dr_with_split r Train) (hd groups))
      else
        let (train_end, validation_end) =
              split_boundaries_v1 (dc_train_fraction config) (dc_validation_fraction config)
                (map (group_time dr_served_at) groups);
            result = sort_key (\<lambda>r. (dr_visible_at r, dr_sample_id r))
                       (assign_splits dr_with_split train_end validation_end groups) in
        bind_res (assert_atomic_request_splits rows result) (\<lambda>_. Inr result))"

definition split_boundaries_v2 :: "real \<Rightarrow> real \<Rightarrow> instant list \<Rightarrow> nat \<times> nat" where
  "split_boundaries_v2 train_fraction validation_fraction gts =
     (let (t, v) = split_counts train_fraction validation_fraction (length gts);
          train_end = snap_split_boundary t gts True;
          validation_end = snap_split_boundary v gts False in
      (train_end, max train_end validation_end))"

definition split_ranking_rows :: "ranking_row list \<Rightarrow> real \<Rightarrow> real \<Rightarrow> ranking_row list" where
  "split_ranking_rows rows train_fraction validation_fraction =
     (let groups = ordered_groups rr_audit_request_identity rr_served_at rows in
      if groups = [] then []
      else if length groups = 1 then map (\<lambda>r. rr_with_split r Train) (hd groups)
      else
        let (train_end, validation_end) =
              split_boundaries_v2 train_fraction validation_fraction (map (group_time rr_served_at) groups) in
        sort_key (\<lambda>r. (rr_served_at r, rr_position r, rr_sample_id r))
          (assign_splits rr_with_split train_end validation_end groups))"


section \<open>Boundaries\<close>

definition boundary_ok :: "instant list \<Rightarrow> nat \<Rightarrow> bool" where
  "boundary_ok gts b \<longleftrightarrow> b = 0 \<or> b \<ge> length gts \<or> gts ! (b - 1) \<noteq> gts ! b"

lemma move_left_ok: "boundary_ok gts (move_left 0 gts b)"
  by (induction b) (auto simp: boundary_ok_def)

lemma move_left_low: "low \<le> b \<Longrightarrow> move_left low gts b = low \<or> boundary_ok gts (move_left low gts b)"
  by (induction b) (auto simp: boundary_ok_def le_Suc_eq)

lemma move_left_below: "b \<le> low \<Longrightarrow> move_left low gts b = b"
  by (cases b) auto

lemma move_right_ok: "boundary_ok gts (move_right gts b)"
proof (induction gts b rule: move_right.induct)
  case (1 gts b)
  show ?case using 1 by (subst move_right.simps) (auto simp: boundary_ok_def)
qed

lemma snap_split_boundary_ok: "boundary_ok gts (snap_split_boundary b gts prefer)"
proof -
  let ?m = "min_key (boundary_score prefer (length gts) b) (move_left 0 gts b) [move_right gts b]"
  have "?m = move_left 0 gts b \<or> ?m = move_right gts b" by simp
  then have "boundary_ok gts ?m" using move_left_ok move_right_ok by metis
  then show ?thesis by (auto simp: snap_split_boundary_def Let_def boundary_ok_def)
qed

lemma boundaries_v1_ok:
  assumes "split_boundaries_v1 tf vf gts = (te, ve)"
  shows "te \<le> ve \<and> boundary_ok gts te \<and> boundary_ok gts ve"
proof -
  obtain t v where tv: "split_counts tf vf (length gts) = (t, v)" by fastforce
  have te: "te = move_left 0 gts t" and ve: "ve = max te (move_left te gts v)"
    using assms by (auto simp: split_boundaries_v1_def tv Let_def)
  have ok: "boundary_ok gts te" by (simp add: te move_left_ok)
  show ?thesis
  proof (cases "te \<le> v")
    case True
    then show ?thesis using move_left_low[of te v gts] ok ve by (auto simp: max_def)
  next
    case False
    then show ?thesis using move_left_below[of v te gts] ok ve by (auto simp: max_def)
  qed
qed

lemma boundaries_v2_ok:
  assumes "split_boundaries_v2 tf vf gts = (te, ve)"
  shows "te \<le> ve \<and> boundary_ok gts te \<and> boundary_ok gts ve"
proof -
  obtain t v where tv: "split_counts tf vf (length gts) = (t, v)" by fastforce
  show ?thesis
    using assms snap_split_boundary_ok[of gts t True] snap_split_boundary_ok[of gts v False]
    by (auto simp: split_boundaries_v2_def tv Let_def max_def)
qed

lemma split_at_boundary:
  assumes "split_at te ve i < split_at te ve j" "te \<le> ve"
  obtains b where "b = te \<or> b = ve" "i < b" "b \<le> j"
proof (cases "i < te")
  case True
  then show thesis using assms by (intro that[of te]) (auto simp: split_at_def less_split_name_def split: if_splits)
next
  case False
  then show thesis using assms by (intro that[of ve]) (auto simp: split_at_def less_split_name_def split: if_splits)
qed

section \<open>Ordered groups\<close>

lemma set_ordered_groups: "set (ordered_groups req served rows) = snd ` set (group_by req rows)"
  by (simp add: ordered_groups_def)

lemma ordered_group_entry:
  assumes "g \<in> set (ordered_groups req served rows)"
  obtains q where "g = filter (\<lambda>r. req r = q) rows" "g \<noteq> []"
proof -
  obtain q where q: "(q, g) \<in> set (group_by req rows)" using assms by (auto simp: set_ordered_groups)
  show thesis using that[OF group_by_entry(1)[OF q] group_by_entry(2)[OF q]] .
qed

lemma mset_ordered_groups: "mset (concat (ordered_groups req served rows)) = mset rows"
  using mset_concat_perm[of "ordered_groups req served rows" "dvalues (group_by req rows)"]
  by (simp only: ordered_groups_def mset_sort mset_group_by)

lemma length_ordered_groups: "length (ordered_groups req served rows) = card (req ` set rows)"
  by (simp add: ordered_groups_def dvalues_group_by length_dedup)

lemma ordered_groups_req:
  assumes "g \<in> set (ordered_groups req served rows)" "r \<in> set g"
  shows "g = filter (\<lambda>s. req s = req r) rows"
  using assms by (auto elim!: ordered_group_entry)

lemma ordered_groups_nth_inj:
  assumes "i < length (ordered_groups req served rows)" "j < length (ordered_groups req served rows)"
    and "r \<in> set (ordered_groups req served rows ! i)" "s \<in> set (ordered_groups req served rows ! j)" "req r = req s"
  shows "i = j"
proof -
  have d: "distinct (ordered_groups req served rows)"
  proof -
    have "inj_on (\<lambda>q. filter (\<lambda>r. req r = q) rows) (req ` set rows)"
    proof (rule inj_onI)
      fix q q' assume q: "q \<in> req ` set rows" and eq: "filter (\<lambda>r. req r = q) rows = filter (\<lambda>r. req r = q') rows"
      then obtain r where "r \<in> set rows" "req r = q" by auto
      with arg_cong[OF eq, of set] show "q = q'" by auto
    qed
    then show ?thesis by (simp add: ordered_groups_def dvalues_group_by distinct_map)
  qed
  have "ordered_groups req served rows ! i = ordered_groups req served rows ! j"
    using ordered_groups_req[OF nth_mem[OF assms(1)] assms(3)] ordered_groups_req[OF nth_mem[OF assms(2)] assms(4)]
      assms(5) by simp
  then show ?thesis using d assms(1,2) by (simp add: nth_eq_iff_index_eq)
qed

definition request_time :: "('r \<Rightarrow> string) \<Rightarrow> ('r \<Rightarrow> instant) \<Rightarrow> 'r list \<Rightarrow> string \<Rightarrow> instant" where
  "request_time req served rows q = Min (served ` {r \<in> set rows. req r = q})"

lemma group_time_request:
  assumes "g \<in> set (ordered_groups req served rows)" "r \<in> set g"
  shows "group_time served g = request_time req served rows (req r)"
  using ordered_groups_req[OF assms] by (simp add: group_time_def request_time_def)

lemma group_times_sorted: "sorted (map (group_time served) (ordered_groups req served rows))"
proof -
  have "sorted (map (\<lambda>g. (group_time served g, req (hd g))) (ordered_groups req served rows))"
    by (simp add: ordered_groups_def)
  then have "sorted (map fst (map (\<lambda>g. (group_time served g, req (hd g))) (ordered_groups req served rows)))"
    by (rule sorted_map_mono) (auto simp: mono_on_def less_eq_prod_def)
  then show ?thesis by (simp add: o_def)
qed

lemma boundary_separates:
  assumes "sorted gts" "boundary_ok gts b" "i < b" "b \<le> j" "j < length gts"
  shows "gts ! i < gts ! j"
proof -
  have "gts ! (b - 1) \<noteq> gts ! b" using assms by (auto simp: boundary_ok_def)
  moreover have "gts ! i \<le> gts ! (b - 1)" "gts ! (b - 1) \<le> gts ! b" "gts ! b \<le> gts ! j"
    using assms by (auto intro!: sorted_nth_mono)
  ultimately show ?thesis by linarith
qed

section \<open>The split contract\<close>

text \<open>
  No row is lost or invented, a request is never cut, and every request of an earlier split was served
  strictly before every request of a later one.
\<close>

definition split_sound ::
    "('r \<Rightarrow> string) \<Rightarrow> ('r \<Rightarrow> instant) \<Rightarrow> ('r \<Rightarrow> split_name) \<Rightarrow> ('r \<Rightarrow> split_name \<Rightarrow> 'r) \<Rightarrow>
     'r list \<Rightarrow> 'r list \<Rightarrow> bool" where
  "split_sound req served split_of with_split rows result \<longleftrightarrow>
     mset (map (\<lambda>r. with_split r Train) result) = mset (map (\<lambda>r. with_split r Train) rows) \<and>
     (\<forall>x\<in>set result. \<forall>y\<in>set result. req x = req y \<longrightarrow> split_of x = split_of y) \<and>
     (\<forall>x\<in>set result. \<forall>y\<in>set result. split_of x < split_of y \<longrightarrow>
        request_time req served rows (req x) < request_time req served rows (req y))"

lemma split_sound_grounded:
  assumes "split_sound req served split_of with_split rows result" "r \<in> set result"
  obtains s where "s \<in> set rows" "with_split r Train = with_split s Train"
proof -
  have "mset (map (\<lambda>r. with_split r Train) result) = mset (map (\<lambda>r. with_split r Train) rows)"
    using assms(1) by (simp add: split_sound_def)
  from mset_eq_setD[OF this] assms(2) that show thesis by (force simp: set_eq_iff image_iff)
qed

lemma split_sound_length:
  assumes "split_sound req served split_of with_split rows result"
  shows "length result = length rows"
proof -
  have "mset (map (\<lambda>r. with_split r Train) result) = mset (map (\<lambda>r. with_split r Train) rows)"
    using assms by (simp add: split_sound_def)
  from arg_cong[OF this, of size] show ?thesis by (simp only: size_mset length_map)
qed

locale split_rows =
  fixes req :: "'r \<Rightarrow> string"
    and served :: "'r \<Rightarrow> instant"
    and split_of :: "'r \<Rightarrow> split_name"
    and with_split :: "'r \<Rightarrow> split_name \<Rightarrow> 'r"
  assumes split_with: "split_of (with_split r s) = s"
    and req_with: "req (with_split r s) = req r"
    and served_with: "served (with_split r s) = served r"
    and with_with: "with_split (with_split r s) t = with_split r t"
begin

lemma assigned_row:
  assumes "x \<in> set (assign_splits with_split te ve groups)"
  obtains i r where "i < length groups" "r \<in> set (groups ! i)" "x = with_split r (split_at te ve i)"
  using assms that by (auto simp: assign_splits_def in_set_enumerate_eq)

lemma assign_retains:
  "mset (map (\<lambda>r. with_split r s) (assign_splits with_split te ve groups)) =
   mset (map (\<lambda>r. with_split r s) (concat groups))"
proof -
  have "map (\<lambda>r. with_split r s) (concat (map (\<lambda>(i, g). map (\<lambda>r. with_split r (f i)) g) (enumerate n groups))) =
      map (\<lambda>r. with_split r s) (concat groups)" for f n
    by (induction groups arbitrary: n) (simp_all add: with_with o_def)
  then show ?thesis by (simp add: assign_splits_def)
qed

lemma assign_atomic:
  assumes "x \<in> set (assign_splits with_split te ve (ordered_groups req served rows))"
    and "y \<in> set (assign_splits with_split te ve (ordered_groups req served rows))" "req x = req y"
  shows "split_of x = split_of y"
proof -
  obtain i r where x: "i < length (ordered_groups req served rows)" "r \<in> set (ordered_groups req served rows ! i)"
    "x = with_split r (split_at te ve i)" using assms(1) by (rule assigned_row)
  obtain j s where y: "j < length (ordered_groups req served rows)" "s \<in> set (ordered_groups req served rows ! j)"
    "y = with_split s (split_at te ve j)" using assms(2) by (rule assigned_row)
  have "i = j" using ordered_groups_nth_inj[OF x(1) y(1) x(2) y(2)] assms(3) by (simp add: x y req_with)
  then show ?thesis by (simp add: x y split_with)
qed

lemma assign_chronological:
  assumes "te \<le> ve" "boundary_ok gts te" "boundary_ok gts ve"
    and gts: "gts = map (group_time served) (ordered_groups req served rows)"
    and "x \<in> set (assign_splits with_split te ve (ordered_groups req served rows))"
    and "y \<in> set (assign_splits with_split te ve (ordered_groups req served rows))" "split_of x < split_of y"
  shows "request_time req served rows (req x) < request_time req served rows (req y)"
proof -
  let ?gs = "ordered_groups req served rows"
  obtain i r where x: "i < length ?gs" "r \<in> set (?gs ! i)" "x = with_split r (split_at te ve i)"
    using assms(5) by (rule assigned_row)
  obtain j s where y: "j < length ?gs" "s \<in> set (?gs ! j)" "y = with_split s (split_at te ve j)"
    using assms(6) by (rule assigned_row)
  have "split_at te ve i < split_at te ve j" using assms(7) by (simp add: x y split_with)
  then obtain b where b: "b = te \<or> b = ve" "i < b" "b \<le> j" using assms(1) by (rule split_at_boundary)
  have "gts ! i < gts ! j"
    using b assms(2,3) group_times_sorted y(1) by (intro boundary_separates[of _ b]) (auto simp: gts)
  then show ?thesis
    using group_time_request[OF nth_mem[OF x(1)] x(2)] group_time_request[OF nth_mem[OF y(1)] y(2)] x(1) y(1)
    by (simp add: gts x(3) y(3) req_with)
qed

lemma assign_sound:
  assumes "te \<le> ve" "boundary_ok gts te" "boundary_ok gts ve"
    and gts: "gts = map (group_time served) (ordered_groups req served rows)"
    and set: "mset result = mset (assign_splits with_split te ve (ordered_groups req served rows))"
  shows "split_sound req served split_of with_split rows result"
proof -
  let ?asg = "assign_splits with_split te ve (ordered_groups req served rows)"
  have "mset (map (\<lambda>r. with_split r Train) result) = mset (map (\<lambda>r. with_split r Train) ?asg)"
    using set by (metis mset_map)
  also have "\<dots> = mset (map (\<lambda>r. with_split r Train) rows)"
    unfolding assign_retains using mset_ordered_groups[of req served rows] by (metis mset_map)
  finally show ?thesis
    using assign_atomic assign_chronological[OF assms(1-4)] mset_eq_setD[OF set] unfolding split_sound_def by blast
qed

lemma single_sound:
  assumes "card (req ` set rows) \<le> 1" "mset result = mset (map (\<lambda>r. with_split r Train) rows)"
  shows "split_sound req served split_of with_split rows result"
proof -
  have "set result = (\<lambda>r. with_split r Train) ` set rows" using mset_eq_setD[OF assms(2)] by simp
  moreover have "mset (map (\<lambda>r. with_split r Train) result) = mset (map (\<lambda>r. with_split r Train) rows)"
    using arg_cong[OF assms(2), of "image_mset (\<lambda>r. with_split r Train)"] by (simp add: with_with o_def image_mset.compositionality)
  ultimately show ?thesis by (auto simp: split_sound_def split_with)
qed

end

interpretation v1_split: split_rows dr_audit_request_identity dr_served_at dr_split dr_with_split
  by unfold_locales (simp_all add: dr_with_split_def)

interpretation v2_split: split_rows rr_audit_request_identity rr_served_at rr_split rr_with_split
  by unfold_locales (simp_all add: rr_with_split_def)


section \<open>Soundness of the two splits\<close>

lemma single_group:
  assumes "length (ordered_groups req served rows) = 1"
  shows "mset (hd (ordered_groups req served rows)) = mset rows" "card (req ` set rows) \<le> 1"
proof -
  obtain g where "ordered_groups req served rows = [g]" using assms by (metis One_nat_def length_0_conv length_Suc_conv)
  then show "mset (hd (ordered_groups req served rows)) = mset rows"
    using mset_ordered_groups[of req served rows] by simp
  show "card (req ` set rows) \<le> 1" using assms length_ordered_groups[of req served rows] by simp
qed

lemma no_groups: "ordered_groups req served rows = [] \<Longrightarrow> rows = []"
  using mset_ordered_groups[of req served rows] by simp

lemma split_sound_v1_assertion:
  assumes "split_sound dr_audit_request_identity dr_served_at dr_split dr_with_split rows result"
  shows "assert_atomic_request_splits rows result = Inr ()"
proof -
  have eq: "mset (map (\<lambda>r. dr_with_split r Train) result) = mset (map (\<lambda>r. dr_with_split r Train) rows)"
    using assms by (simp add: split_sound_def)
  have "mset (map dr_sample_id result) = mset (map dr_sample_id rows)"
    using arg_cong[OF eq, of "image_mset dr_sample_id"]
    by (simp add: dr_with_split_def image_mset.compositionality o_def)
  moreover have one: "length (dedup (map dr_split (filter (\<lambda>s. dr_audit_request_identity s = dr_audit_request_identity r) result))) = 1"
    if "r \<in> set result" for r
  proof -
    have same: "\<forall>y\<in>set result. dr_audit_request_identity y = dr_audit_request_identity r \<longrightarrow> dr_split y = dr_split r"
      using assms that unfolding split_sound_def by blast
    have "dr_split ` {s \<in> set result. dr_audit_request_identity s = dr_audit_request_identity r} = {dr_split r}"
      using same that by blast
    then show ?thesis by (simp add: length_dedup)
  qed
  then have "\<not> list_ex (\<lambda>r. length (dedup (map dr_split
      (filter (\<lambda>s. dr_audit_request_identity s = dr_audit_request_identity r) result))) \<noteq> 1) result"
    unfolding list_ex_iff by blast
  ultimately show ?thesis unfolding assert_atomic_request_splits_def sample_counts_ok_def by simp
qed

lemma split_rows_v1_ok:
  "\<exists>result. split_rows_v1 rows config = Inr result \<and>
     split_sound dr_audit_request_identity dr_served_at dr_split dr_with_split rows result"
proof -
  let ?gs = "ordered_groups dr_audit_request_identity dr_served_at rows"
  consider "?gs = []" | "length ?gs = 1" | "?gs \<noteq> []" "length ?gs \<noteq> 1" by blast
  then show ?thesis
  proof cases
    case 1
    then have "rows = []" by (rule no_groups)
    then show ?thesis using 1 by (simp add: split_rows_v1_def split_sound_def)
  next
    case 2
    have "mset (map (\<lambda>r. dr_with_split r Train) (hd ?gs)) = mset (map (\<lambda>r. dr_with_split r Train) rows)"
      using single_group(1)[OF 2] by (metis mset_map)
    note sound = v1_split.single_sound[OF single_group(2)[OF 2] this]
    have "split_rows_v1 rows config = Inr (map (\<lambda>r. dr_with_split r Train) (hd ?gs))"
      unfolding split_rows_v1_def Let_def using 2 by fastforce
    with sound show ?thesis by blast
  next
    case 3
    obtain te ve where b: "split_boundaries_v1 (dc_train_fraction config) (dc_validation_fraction config)
        (map (group_time dr_served_at) ?gs) = (te, ve)" by fastforce
    let ?res = "sort_key (\<lambda>r. (dr_visible_at r, dr_sample_id r)) (assign_splits dr_with_split te ve ?gs)"
    have sound: "split_sound dr_audit_request_identity dr_served_at dr_split dr_with_split rows ?res"
      using boundaries_v1_ok[OF b] by (intro v1_split.assign_sound[of te ve, OF _ _ _ refl]) auto
    with 3 b split_sound_v1_assertion[OF sound] show ?thesis by (simp add: split_rows_v1_def)
  qed
qed

text \<open>
  C29. The v1 split never raises: it always passes its own atomicity assertion. It keeps every row,
  never cuts a request across splits, and orders splits chronologically with equal serving times on
  one side.
\<close>

theorem split_rows_v1_sound:
  "\<exists>result. split_rows_v1 rows config = Inr result \<and>
     split_sound dr_audit_request_identity dr_served_at dr_split dr_with_split rows result"
  by (rule split_rows_v1_ok)

lemma split_ranking_rows_ok:
  "split_sound rr_audit_request_identity rr_served_at rr_split rr_with_split rows
     (split_ranking_rows rows train_fraction validation_fraction)"
proof -
  let ?gs = "ordered_groups rr_audit_request_identity rr_served_at rows"
  consider "?gs = []" | "length ?gs = 1" | "?gs \<noteq> []" "length ?gs \<noteq> 1" by blast
  then show ?thesis
  proof cases
    case 1
    then have "rows = []" by (rule no_groups)
    then show ?thesis using 1 by (simp add: split_ranking_rows_def split_sound_def)
  next
    case 2
    have "mset (map (\<lambda>r. rr_with_split r Train) (hd ?gs)) = mset (map (\<lambda>r. rr_with_split r Train) rows)"
      using single_group(1)[OF 2] by (metis mset_map)
    note sound = v2_split.single_sound[OF single_group(2)[OF 2] this]
    have "split_ranking_rows rows train_fraction validation_fraction = map (\<lambda>r. rr_with_split r Train) (hd ?gs)"
      unfolding split_ranking_rows_def Let_def using 2 by fastforce
    with sound show ?thesis by simp
  next
    case 3
    obtain te ve where b: "split_boundaries_v2 train_fraction validation_fraction
        (map (group_time rr_served_at) ?gs) = (te, ve)" by fastforce
    have "split_sound rr_audit_request_identity rr_served_at rr_split rr_with_split rows
        (sort_key (\<lambda>r. (rr_served_at r, rr_position r, rr_sample_id r)) (assign_splits rr_with_split te ve ?gs))"
      using boundaries_v2_ok[OF b] by (intro v2_split.assign_sound[of te ve, OF _ _ _ refl]) auto
    with 3 b show ?thesis by (simp add: split_ranking_rows_def)
  qed
qed

text \<open>
  C30. The v2 ranking split keeps every row, never cuts a request across splits, and orders splits
  chronologically, whichever way the boundaries are snapped off equal timestamps.
\<close>

theorem split_ranking_rows_sound:
  "split_sound rr_audit_request_identity rr_served_at rr_split rr_with_split rows
     (split_ranking_rows rows train_fraction validation_fraction)"
  by (rule split_ranking_rows_ok)

end
