(* ===== verification/DatasetHistory.thy ===== *)
theory DatasetHistory
  imports DatasetSplit
begin

text \<open>
  The shared pieces of \<open>ai_pipeline/build_dataset.py\<close>: deduplication, private identities, snapshot
  validation, request envelopes, exposure, and the history snapshot of a user before a reference time.
\<close>

definition FEATURE_SCHEMA_VERSION :: string where "FEATURE_SCHEMA_VERSION = ''rank-features-v1''"

definition REQUIRED_FEATURES :: "string list" where
  "REQUIRED_FEATURES =
     [''schema_version'', ''topic_relevance'', ''freshness'', ''safety_score'', ''candidate_source'',
      ''is_followed_author'', ''author_affinity'', ''heuristic_score'', ''ml_score'']"

definition LABEL_VALUES :: "(semantic, int) dict" where
  "LABEL_VALUES = [(StrongNegative, -2), (Negative, -1), (Positive, 1), (StrongPositive, 2)]"

section \<open>Records and identities\<close>

definition deduplicate_step :: "('r \<Rightarrow> uuid) \<Rightarrow> (uuid, 'r) dict \<Rightarrow> 'r \<Rightarrow> (uuid, 'r) dict res" where
  "deduplicate_step ident unique r =
     (case dget unique (ident r) of
        Some existing \<Rightarrow>
          if existing \<noteq> r then Inl (ValueError (''conflicting duplicate record: '' @ str_uuid (ident r)))
          else Inr unique
      | None \<Rightarrow> Inr (dset unique (ident r) r))"

definition deduplicate :: "('r \<Rightarrow> uuid) \<Rightarrow> 'r list \<Rightarrow> (uuid, 'r) dict res" where
  "deduplicate ident rs = fold_res (deduplicate_step ident) [] rs"

definition hash_identity :: "pylib \<Rightarrow> uuid \<Rightarrow> string \<Rightarrow> string" where
  "hash_identity lib value salt = sha256_hex lib (salt @ '':'' @ str_uuid value)"

definition canonical_request_identity :: "impression \<Rightarrow> string" where
  "canonical_request_identity i = str_uuid (imp_user_id i) @ '':'' @ str_uuid (imp_request_id i)"

definition hmac_request_identity :: "pylib \<Rightarrow> impression \<Rightarrow> string \<Rightarrow> string" where
  "hmac_request_identity lib i secret = hmac_sha256_hex lib secret (canonical_request_identity i)"

section \<open>Feature snapshots\<close>

definition optional_float :: "pylib \<Rightarrow> pyval \<Rightarrow> real option res" where
  "optional_float lib v = py_optional (py_float lib) v"

definition optional_snapshot_datetime ::
    "pylib \<Rightarrow> (string, pyval) dict \<Rightarrow> string \<Rightarrow> instant option res" where
  "optional_snapshot_datetime lib snapshot field = py_optional (parse_datetime lib) (vget snapshot field)"

definition snapshot_declared_topics :: "pylib \<Rightarrow> (string, pyval) dict \<Rightarrow> string list res" where
  "snapshot_declared_topics lib snapshot =
     (case py_or (vget snapshot ''declared_topics'') (VList []) of
        VList vs \<Rightarrow> Inr (sorted_list_of_set (set (map (\<lambda>v. lower (strip (py_str lib v)))
                           (filter (\<lambda>v. strip (py_str lib v) \<noteq> []) vs))))
      | _ \<Rightarrow> Inl (TypeError ''declared_topics must be a sequence of strings''))"

definition validate_snapshot :: "(string, pyval) dict \<Rightarrow> bool" where
  "validate_snapshot snapshot =
     (let schema = vget snapshot ''schema_version''; keys = set (dkeys snapshot) in
      if schema = VStr ''rank-features-v2'' \<and>
         \<not> {''candidate_published_at'', ''content_language'', ''language_detector_version'',
            ''declared_topics'', ''preference_observed_at''} \<subseteq> keys
      then False
      else schema \<in> {VStr FEATURE_SCHEMA_VERSION, VStr ''rank-features-v2''} \<and>
           set REQUIRED_FEATURES \<subseteq> keys \<and>
           (case vget snapshot ''candidate_source'' of VStr s \<Rightarrow> strip s \<noteq> [] | _ \<Rightarrow> False))"

section \<open>Request envelopes\<close>

record request_seen =
  seen_envelope :: "instant \<times> string \<times> string"
  seen_positions :: "int list"
  seen_posts :: "uuid list"

definition envelope_step ::
    "(string, request_seen) dict \<Rightarrow> impression \<Rightarrow> (string, request_seen) dict res" where
  "envelope_step seen i =
     (let identity = canonical_request_identity i;
          envelope = (imp_served_at i, imp_feed_source i, imp_model_version i);
          s = (case dget seen identity of
                 Some s \<Rightarrow> s
               | None \<Rightarrow> \<lparr>seen_envelope = envelope, seen_positions = [], seen_posts = []\<rparr>) in
      if seen_envelope s \<noteq> envelope then Inl (ValueError ''conflicting canonical request identity'')
      else if imp_position i \<in> set (seen_positions s) \<or> imp_post_id i \<in> set (seen_posts s)
      then Inl (ValueError ''conflicting canonical request identity'')
      else Inr (dset seen identity
             (s\<lparr>seen_positions := imp_position i # seen_positions s, seen_posts := imp_post_id i # seen_posts s\<rparr>)))"

definition validate_request_envelopes :: "impression list \<Rightarrow> unit res" where
  "validate_request_envelopes imps = bind_res (fold_res envelope_step [] imps) (\<lambda>_. Inr ())"

section \<open>Exposure\<close>

fun min_time :: "instant list \<Rightarrow> instant option" where
  "min_time [] = None"
| "min_time (t # ts) = Some (foldl min t ts)"

definition verified_exposure_at :: "impression \<Rightarrow> behavior_event list \<Rightarrow> instant option" where
  "verified_exposure_at i linked =
     min_time (map ev_occurred_at
       (filter (\<lambda>e. ev_event_type e \<in> {''visible'', ''click''} \<and> ev_occurred_at e \<ge> imp_served_at i) linked))"

definition persisted_version :: "pylib \<Rightarrow> behavior_event \<Rightarrow> string res" where
  "persisted_version lib e = event_label_version lib (event_object e)"

section \<open>History\<close>

definition history_total_limit :: "'c history_limits_scheme \<Rightarrow> nat res" where
  "history_total_limit config =
     (if dc_history_recent_limit config < 0 \<or> dc_history_long_term_limit config < 0
      then Inl (ValueError ''history limits must be non-negative'')
      else Inr (nat (dc_history_recent_limit config + dc_history_long_term_limit config)))"

definition qualifies_for_history :: "pylib \<Rightarrow> instant \<Rightarrow> behavior_event \<Rightarrow> bool res" where
  "qualifies_for_history lib reference_at e =
     (if ev_event_type e \<noteq> ''click'' then Inr False
      else bind_res (persisted_version lib e) (\<lambda>version.
        Inr (version = ''v2'' \<and> ev_occurred_at e < reference_at \<and>
             (case ev_ingested_at e of None \<Rightarrow> True | Some t \<Rightarrow> t \<le> reference_at))))"

definition select_history_feature :: "article_feature list \<Rightarrow> instant \<Rightarrow> article_feature option" where
  "select_history_feature features engaged_at =
     (case filter (\<lambda>f. af_source_updated_at f \<le> engaged_at \<and> af_computed_at f \<le> engaged_at) features of
        [] \<Rightarrow> None
      | f # fs \<Rightarrow> Some (max_key (\<lambda>f. (af_source_updated_at f, af_computed_at f, af_id f)) f fs))"

definition history_entry_of :: "behavior_event \<Rightarrow> article_feature \<Rightarrow> history_entry" where
  "history_entry_of e f =
     \<lparr>he_event_id = ev_id e, he_post_id = ev_post_id e, he_engaged_at = ev_occurred_at e,
      he_encoder_version = af_encoder_version f, he_content_hash = af_content_hash f,
      he_source_updated_at = af_source_updated_at f, he_computed_at = af_computed_at f,
      he_embedding = af_embedding f\<rparr>"

definition last_n :: "nat \<Rightarrow> 'a list \<Rightarrow> 'a list" where
  "last_n n xs = drop (length xs - n) xs"

definition history_events ::
    "pylib \<Rightarrow> uuid \<Rightarrow> instant \<Rightarrow> behavior_event list \<Rightarrow> nat \<Rightarrow> behavior_event list res" where
  "history_events lib user_id reference_at evs total_limit =
     (if total_limit = 0 then Inr []
      else bind_res (filter_res (\<lambda>e. if ev_user_id e = user_id then qualifies_for_history lib reference_at e
                                     else Inr False) evs) (\<lambda>selected.
        Inr (last_n total_limit (sort_key (\<lambda>e. (ev_occurred_at e, ev_id e)) selected))))"

definition build_history_snapshot ::
    "pylib \<Rightarrow> uuid \<Rightarrow> instant \<Rightarrow> behavior_event list \<Rightarrow> article_feature list \<Rightarrow>
     'c history_limits_scheme \<Rightarrow> history_snapshot res" where
  "build_history_snapshot lib user_id reference_at evs features config =
     bind_res (history_total_limit config) (\<lambda>total_limit.
     bind_res (history_events lib user_id reference_at evs total_limit) (\<lambda>selected.
     bind_res (deduplicate af_id features) (\<lambda>unique.
       let by_post = group_by af_post_id (dvalues unique) in
       Inr \<lparr>hs_user_id = user_id, hs_reference_at = reference_at,
            hs_entries = List.map_filter (\<lambda>e. map_option (history_entry_of e)
              (select_history_feature (dget_default by_post (ev_post_id e) []) (ev_occurred_at e))) selected\<rparr>)))"

section \<open>What deduplication keeps\<close>

lemma deduplicate_keyed:
  assumes "deduplicate ident rs = Inr d"
  shows "set (dvalues d) = set rs \<and> d = map (\<lambda>r. (ident r, r)) (dvalues d) \<and> distinct (dkeys d)"
  using assms unfolding deduplicate_def
proof (induction rs arbitrary: d rule: rev_induct)
  case Nil
  then show ?case by simp
next
  case (snoc r rs)
  then obtain d0 where d0: "fold_res (deduplicate_step ident) [] rs = Inr d0" "deduplicate_step ident d0 r = Inr d"
    by (auto simp: fold_res_snoc)
  note IH = snoc.IH[OF d0(1)]
  show ?case
  proof (cases "dget d0 (ident r)")
    case None
    then have new: "ident r \<notin> set (dkeys d0)" by (simp add: map_of_eq_None_iff)
    have "d = d0 @ [(ident r, r)]" using d0(2) None dset_new[OF new] by (simp add: deduplicate_step_def)
    with new show ?thesis using IH by simp
  next
    case (Some e)
    then have "d = d0" "e = r" using d0(2) by (auto simp: deduplicate_step_def split: if_splits)
    moreover have "r \<in> set (dvalues d0)" using Some \<open>e = r\<close> by (force dest: map_of_SomeD)
    ultimately show ?thesis using IH by auto
  qed
qed

lemma deduplicate_values:
  assumes "deduplicate ident rs = Inr d"
  shows "set (dvalues d) = set rs" "inj_on ident (set rs)" "distinct (dvalues d)"
proof -
  note k = deduplicate_keyed[OF assms]
  show "set (dvalues d) = set rs" using k by blast
  have "dkeys d = map ident (dvalues d)" using k by (metis (no_types, lifting) fst_conv map_eq_conv map_map o_apply)
  with k show "distinct (dvalues d)" "inj_on ident (set rs)"
    by (metis distinct_map)+
qed

lemma deduplicate_conflict:
  assumes "r \<in> set rs" "s \<in> set rs" "ident r = ident s" "r \<noteq> s"
  shows "\<exists>msg. deduplicate ident rs = Inl (ValueError msg)"
proof (cases "deduplicate ident rs")
  case (Inl e)
  have "fold_res (deduplicate_step ident) d rs = Inl e \<Longrightarrow> \<exists>msg. e = ValueError msg" for d
    by (induction rs arbitrary: d) (auto simp: bind_res_Inl deduplicate_step_def split: option.splits if_splits)
  with Inl show ?thesis by (simp add: deduplicate_def)
next
  case (Inr d)
  from deduplicate_values(2)[OF this] assms show ?thesis by (auto dest: inj_onD)
qed


section \<open>History never reads the future\<close>

lemma set_last_n: "set (last_n n xs) \<subseteq> set xs"
  by (simp add: last_n_def set_drop_subset)

lemma length_last_n: "length (last_n n xs) \<le> n"
  by (simp add: last_n_def)

lemma select_history_feature_in:
  assumes "select_history_feature fs t = Some f"
  shows "f \<in> set fs" "af_source_updated_at f \<le> t" "af_computed_at f \<le> t"
proof -
  let ?ok = "filter (\<lambda>f. af_source_updated_at f \<le> t \<and> af_computed_at f \<le> t) fs"
  obtain g gs where "?ok = g # gs" and f: "f = max_key (\<lambda>f. (af_source_updated_at f, af_computed_at f, af_id f)) g gs"
    using assms by (auto simp: select_history_feature_def split: list.splits)
  then have "f \<in> set ?ok" using max_key_in[of _ g gs] by simp
  then show "f \<in> set fs" "af_source_updated_at f \<le> t" "af_computed_at f \<le> t" by auto
qed

lemma history_events_ok:
  assumes "history_events lib u t evs n = Inr sel"
  shows "length sel \<le> n \<and> sorted (map ev_occurred_at sel) \<and>
    (\<forall>e\<in>set sel. e \<in> set evs \<and> ev_user_id e = u \<and> ev_event_type e = ''click'' \<and> persisted_version lib e = Inr ''v2'' \<and>
       ev_occurred_at e < t \<and> (\<forall>i. ev_ingested_at e = Some i \<longrightarrow> i \<le> t))"
proof (cases "n = 0")
  case True
  with assms show ?thesis by (simp add: history_events_def)
next
  case False
  let ?p = "\<lambda>e. if ev_user_id e = u then qualifies_for_history lib t e else Inr False"
  obtain q where q: "filter_res ?p evs = Inr q"
    and sel: "sel = last_n n (sort_key (\<lambda>e. (ev_occurred_at e, ev_id e)) q)"
    using assms False by (auto simp: history_events_def)
  have "sorted (map (\<lambda>e. (ev_occurred_at e, ev_id e)) sel)"
    unfolding sel last_n_def drop_map[symmetric] by (intro sorted_wrt_drop) simp
  then have "sorted (map fst (map (\<lambda>e. (ev_occurred_at e, ev_id e)) sel))"
    by (rule sorted_map_mono) (auto simp: mono_on_def less_eq_prod_def)
  moreover have "?p e = Inr True \<and> e \<in> set evs" if "e \<in> set sel" for e
  proof -
    have "e \<in> set (sort_key (\<lambda>e. (ev_occurred_at e, ev_id e)) q)" 
      by (rule subsetD[OF set_last_n that[unfolded sel]])
    then have "e \<in> set q" by simp
    then show ?thesis using filter_res_InrD[OF q] by auto
  qed
  ultimately show ?thesis
    using length_last_n[of n] sel
    by (fastforce simp: o_def qualifies_for_history_def split: if_splits option.splits)
qed

lemma build_history_entry:
  assumes "build_history_snapshot lib user_id reference_at evs features config = Inr h"
    and x: "x \<in> set (hs_entries h)"
  shows "\<exists>e\<in>set evs. \<exists>f\<in>set features. x = history_entry_of e f \<and> ev_user_id e = user_id \<and>
    ev_event_type e = ''click'' \<and> persisted_version lib e = Inr ''v2'' \<and> af_post_id f = ev_post_id e \<and>
    (\<forall>i. ev_ingested_at e = Some i \<longrightarrow> i \<le> reference_at) \<and> ev_occurred_at e < reference_at \<and>
    af_source_updated_at f \<le> ev_occurred_at e \<and> af_computed_at f \<le> ev_occurred_at e"
proof -
  obtain n sel uq where n: "history_total_limit config = Inr n"
    and sel: "history_events lib user_id reference_at evs n = Inr sel" and uq: "deduplicate af_id features = Inr uq"
    and h: "hs_entries h = List.map_filter (\<lambda>e. map_option (history_entry_of e)
        (select_history_feature (dget_default (group_by af_post_id (dvalues uq)) (ev_post_id e) []) (ev_occurred_at e))) sel"
    using assms(1) by (auto simp: build_history_snapshot_def Let_def)
  note ok = history_events_ok[OF sel]
  let ?f = "\<lambda>e. select_history_feature (dget_default (group_by af_post_id (dvalues uq)) (ev_post_id e) []) (ev_occurred_at e)"
  have entries: "hs_entries h = map (\<lambda>e. history_entry_of e (the (?f e))) (filter (\<lambda>e. ?f e \<noteq> None) sel)"
    unfolding h by (auto simp: List.map_filter_def intro!: map_cong)
  obtain e f where e: "e \<in> set sel" and f: "?f e = Some f" and xe: "x = history_entry_of e f"
    using x by (auto simp: entries)
  note fin = select_history_feature_in[OF f]
  have "f \<in> set features" "af_post_id f = ev_post_id e"
    using fin(1) deduplicate_values(1)[OF uq] by (auto simp: dget_default_def dget_group_by split: if_splits)
  with fin e ok xe show ?thesis
    by (intro bexI[of _ e] bexI[of _ f] conjI) (simp | blast)+
qed

text \<open>
  C28. A history snapshot never looks past its reference time: every entry is a v2 click of that user
  strictly before the reference (and ingested by then), its article feature was computed from content
  no newer than the click, entries are in click order, and there are at most the configured number.
\<close>

theorem history_no_leakage:
  assumes "build_history_snapshot lib user_id reference_at evs features config = Inr h"
  shows "int (length (hs_entries h)) \<le> dc_history_recent_limit config + dc_history_long_term_limit config \<and>
    sorted (map he_engaged_at (hs_entries h)) \<and>
    (\<forall>x\<in>set (hs_entries h). he_engaged_at x < reference_at \<and>
       he_source_updated_at x \<le> he_engaged_at x \<and> he_computed_at x \<le> he_engaged_at x \<and>
       (\<exists>e\<in>set evs. \<exists>f\<in>set features. x = history_entry_of e f \<and> ev_user_id e = user_id \<and>
          ev_event_type e = ''click'' \<and> persisted_version lib e = Inr ''v2'' \<and> af_post_id f = ev_post_id e \<and>
          (\<forall>i. ev_ingested_at e = Some i \<longrightarrow> i \<le> reference_at)))"
proof -
  obtain n sel uq where n: "history_total_limit config = Inr n"
    and sel: "history_events lib user_id reference_at evs n = Inr sel" and uq: "deduplicate af_id features = Inr uq"
    and h: "hs_entries h = List.map_filter (\<lambda>e. map_option (history_entry_of e)
        (select_history_feature (dget_default (group_by af_post_id (dvalues uq)) (ev_post_id e) []) (ev_occurred_at e))) sel"
    using assms by (auto simp: build_history_snapshot_def Let_def)
  note ok = history_events_ok[OF sel]
  let ?f = "\<lambda>e. select_history_feature (dget_default (group_by af_post_id (dvalues uq)) (ev_post_id e) []) (ev_occurred_at e)"
  have entries: "hs_entries h = map (\<lambda>e. history_entry_of e (the (?f e))) (filter (\<lambda>e. ?f e \<noteq> None) sel)"
    unfolding h by (auto simp: List.map_filter_def intro!: map_cong)
  have "int n = dc_history_recent_limit config + dc_history_long_term_limit config"
    using n by (auto simp: history_total_limit_def split: if_splits)
  moreover have "length (hs_entries h) \<le> length sel" by (simp add: entries)
  ultimately have len: "int (length (hs_entries h)) \<le> dc_history_recent_limit config + dc_history_long_term_limit config"
    using ok by linarith
  have srt: "sorted (map he_engaged_at (hs_entries h))"
  proof -
    have "map he_engaged_at (hs_entries h) = map ev_occurred_at (filter (\<lambda>e. ?f e \<noteq> None) sel)"
      by (simp add: entries history_entry_of_def)
    then show ?thesis using ok sorted_filter[of ev_occurred_at sel] by simp
  qed
  have "he_engaged_at x < reference_at \<and> he_source_updated_at x \<le> he_engaged_at x \<and>
      he_computed_at x \<le> he_engaged_at x \<and> (\<exists>e\<in>set evs. \<exists>f\<in>set features. x = history_entry_of e f \<and>
        ev_user_id e = user_id \<and> ev_event_type e = ''click'' \<and> persisted_version lib e = Inr ''v2'' \<and>
        af_post_id f = ev_post_id e \<and> (\<forall>i. ev_ingested_at e = Some i \<longrightarrow> i \<le> reference_at))"
    if x: "x \<in> set (hs_entries h)" for x
  proof -
    obtain e f where e: "e \<in> set evs" "f \<in> set features" "x = history_entry_of e f" "ev_user_id e = user_id"
      "ev_event_type e = ''click''" "persisted_version lib e = Inr ''v2''" "af_post_id f = ev_post_id e"
      "\<forall>i. ev_ingested_at e = Some i \<longrightarrow> i \<le> reference_at" "ev_occurred_at e < reference_at"
      "af_source_updated_at f \<le> ev_occurred_at e" "af_computed_at f \<le> ev_occurred_at e"
      using build_history_entry[OF assms x] by blast
    have "he_engaged_at x = ev_occurred_at e" "he_source_updated_at x = af_source_updated_at f"
      "he_computed_at x = af_computed_at f" by (simp_all add: e(3) history_entry_of_def)
    then show ?thesis using e by (intro conjI) (simp, simp, simp, blast)
  qed
  with len srt show ?thesis by blast
qed

definition demo_click :: "uuid \<Rightarrow> int \<Rightarrow> behavior_event" where
  "demo_click i t = \<lparr>ev_id = i, ev_impression_id = Some 1, ev_user_id = 9, ev_post_id = 3,
     ev_event_type = ''click'', ev_dwell_ms = None, ev_occurred_at = t, ev_ingested_at = None,
     ev_event_version = Some ''v2'', ev_metadata = None\<rparr>"

definition demo_feature :: "int \<Rightarrow> article_feature" where
  "demo_feature t = \<lparr>af_id = 5, af_post_id = 3, af_encoder_version = ''e'', af_content_hash = ''h'',
     af_embedding = [1], af_source_updated_at = t, af_computed_at = t\<rparr>"

definition demo_config :: dataset_config where
  "demo_config = \<lparr>dc_history_recent_limit = 20, dc_history_long_term_limit = 30,
     dc_start = Aware 0, dc_end = Aware 1000, dc_extraction_time = Aware 100000000000000,
     dc_label_window_hours = 24, dc_qualified_read_ms = 10000, dc_label_version = ''v2'',
     dc_identity_mode = ''hash'', dc_hash_salt = Some ''s'', dc_train_fraction = 7/10,
     dc_validation_fraction = 15/100,
     dc_dataset_schema_version = ''v1'', dc_feature_schema_version = ''post-content-features-v1'',
     dc_encoder_version = PINNED_ENCODER_VERSION, dc_encoder_dimension = 384,
     dc_query_window_version = ''event-time-window-v1''\<rparr>"

lemma demo_click_fields [simp]:
  "ev_user_id (demo_click i t) = 9" "ev_post_id (demo_click i t) = 3" "ev_event_type (demo_click i t) = ''click''"
  "ev_occurred_at (demo_click i t) = t" "ev_ingested_at (demo_click i t) = None" "ev_id (demo_click i t) = i"
  "ev_impression_id (demo_click i t) = Some 1"
  by (simp_all add: demo_click_def)

lemma demo_feature_fields [simp]:
  "af_id (demo_feature t) = 5" "af_post_id (demo_feature t) = 3" "af_source_updated_at (demo_feature t) = t"
  "af_computed_at (demo_feature t) = t"
  by (simp_all add: demo_feature_def)

lemma demo_click_version [simp]: "persisted_version lib (demo_click i t) = Inr ''v2''"
  by (simp add: persisted_version_def event_label_version_def event_object_def demo_click_def opt_val_def vget_def)

theorem history_no_leakage_witness:
  "\<exists>h. build_history_snapshot clock_lib 9 20 [demo_click 2 10, demo_click 4 30] [demo_feature 5] demo_config = Inr h \<and>
     length (hs_entries h) = 1 \<and> (\<forall>x\<in>set (hs_entries h). he_engaged_at x < 20)"
proof -
  let ?b = "build_history_snapshot clock_lib 9 20 [demo_click 2 10, demo_click 4 30] [demo_feature 5] demo_config"
  have b: "?b = Inr \<lparr>hs_user_id = 9, hs_reference_at = 20,
      hs_entries = [history_entry_of (demo_click 2 10) (demo_feature 5)]\<rparr>"
    by (simp add: build_history_snapshot_def history_total_limit_def demo_config_def history_events_def
        qualifies_for_history_def deduplicate_def deduplicate_step_def last_n_def group_by_def group_add_def
        dget_default_def select_history_feature_def List.map_filter_def)
  from history_no_leakage[OF b] b show ?thesis by auto
qed

end
