(* ===== verification/DatasetBuild.thy ===== *)
theory DatasetBuild
  imports DatasetHistory
begin

text \<open>
  \<open>build_samples\<close> of \<open>ai_pipeline/build_dataset.py\<close>: the v1 training rows, one per impression that was
  verifiably seen and whose label window had closed by the extraction time. The lemmas account for every
  impression of the query window and show which events a row may depend on.
\<close>

section \<open>Selecting what counts\<close>

definition in_query_window :: "dataset_config \<Rightarrow> impression \<Rightarrow> bool" where
  "in_query_window config i \<longleftrightarrow> dc_start_at config \<le> imp_served_at i \<and> imp_served_at i < dc_end_at config"

definition timely :: "dataset_config \<Rightarrow> behavior_event \<Rightarrow> bool" where
  "timely config e \<longleftrightarrow> (case ev_ingested_at e of None \<Rightarrow> True | Some t \<Rightarrow> t \<le> dc_extraction_at config)"

definition events_by_impression :: "dataset_config \<Rightarrow> behavior_event list \<Rightarrow> (uuid, behavior_event list) dict" where
  "events_by_impression config evs =
     group_by (\<lambda>e. the (ev_impression_id e)) (filter (\<lambda>e. ev_impression_id e \<noteq> None \<and> timely config e) evs)"

definition linked_events :: "(uuid, behavior_event list) dict \<Rightarrow> impression \<Rightarrow> behavior_event list" where
  "linked_events by_impression i =
     filter (\<lambda>e. ev_user_id e = imp_user_id i \<and> ev_post_id e = imp_post_id i)
       (dget_default by_impression (imp_id i) [])"

definition label_window :: "dataset_config \<Rightarrow> int" where
  "label_window config = hours_us (dc_label_window_hours config)"

definition events_between :: "instant \<Rightarrow> instant \<Rightarrow> behavior_event list \<Rightarrow> behavior_event list" where
  "events_between a b evs = filter (\<lambda>e. a \<le> ev_occurred_at e \<and> ev_occurred_at e \<le> b) evs"

definition label_of_events ::
    "pylib \<Rightarrow> dataset_config \<Rightarrow> string \<Rightarrow> behavior_event list \<Rightarrow> label_result res" where
  "label_of_events lib config version evs =
     derive_label lib (map event_object evs) version (dc_qualified_read_ms config) True [] False"

section \<open>One row\<close>

definition pad9 :: "nat \<Rightarrow> string" where
  "pad9 n = (let s = str_nat n in replicate (9 - length s) CHR ''0'' @ s)"

record row_identity =
  ri_sample_id :: string
  ri_user_group :: "string option"
  ri_post_group :: "string option"
  ri_request_group :: "string option"

definition row_identity_of :: "pylib \<Rightarrow> dataset_config \<Rightarrow> nat \<Rightarrow> impression \<Rightarrow> row_identity" where
  "row_identity_of lib config n i =
     (let salt = (case dc_hash_salt config of None \<Rightarrow> [] | Some s \<Rightarrow> s) in
      if dc_identity_mode config = ''hash''
      then \<lparr>ri_sample_id = hash_identity lib (imp_id i) salt,
            ri_user_group = Some (hash_identity lib (imp_user_id i) salt),
            ri_post_group = Some (hash_identity lib (imp_post_id i) salt),
            ri_request_group = Some (hmac_request_identity lib i salt)\<rparr>
      else \<lparr>ri_sample_id = ''sample-'' @ pad9 (Suc n), ri_user_group = None, ri_post_group = None,
            ri_request_group = None\<rparr>)"

definition row_label :: "string \<Rightarrow> label_result \<Rightarrow> int res" where
  "row_label version label =
     (if version = ''v2''
      then (case training_target label of None \<Rightarrow> Inl (TypeError ''int(None)'') | Some t \<Rightarrow> Inr t)
      else (case dget LABEL_VALUES (res_semantic label) of
              None \<Rightarrow> Inl (KeyError (semantic_text (res_semantic label))) | Some v \<Rightarrow> Inr v))"

definition float_item :: "pylib \<Rightarrow> (string, pyval) dict \<Rightarrow> string \<Rightarrow> real option res" where
  "float_item lib snapshot key = bind_res (vitem snapshot key) (optional_float lib)"

definition sample_row ::
    "pylib \<Rightarrow> dataset_config \<Rightarrow> nat \<Rightarrow> impression \<Rightarrow> instant \<Rightarrow> string \<Rightarrow> label_result \<Rightarrow> dataset_row res" where
  "sample_row lib config n i visible_at version label =
     (let ident = row_identity_of lib config n i; snapshot = imp_snapshot i in
      bind_res (row_label version label) (\<lambda>value.
      bind_res (float_item lib snapshot ''topic_relevance'') (\<lambda>topic.
      bind_res (float_item lib snapshot ''freshness'') (\<lambda>fresh.
      bind_res (float_item lib snapshot ''safety_score'') (\<lambda>safety.
      bind_res (str_item lib snapshot ''candidate_source'') (\<lambda>source.
      bind_res (vitem snapshot ''is_followed_author'') (\<lambda>followed.
      bind_res (float_item lib snapshot ''author_affinity'') (\<lambda>affinity.
      bind_res (float_item lib snapshot ''heuristic_score'') (\<lambda>heuristic.
      bind_res (float_item lib snapshot ''ml_score'') (\<lambda>ml.
        Inr \<lparr>dr_sample_id = ri_sample_id ident, dr_user_group = ri_user_group ident,
             dr_post_group = ri_post_group ident, dr_request_group = ri_request_group ident,
             dr_split = Train, dr_label = value, dr_label_name = res_semantic label,
             dr_served_at = imp_served_at i, dr_visible_at = visible_at, dr_position = imp_position i,
             dr_feed_source = imp_feed_source i, dr_model_version = imp_model_version i,
             dr_feature_schema_version = FEATURE_SCHEMA_VERSION, dr_topic_relevance = topic,
             dr_freshness = fresh, dr_safety_score = safety, dr_candidate_source = source,
             dr_is_followed_author = followed, dr_author_affinity = affinity,
             dr_heuristic_score = heuristic, dr_ml_score = ml,
             dr_audit_user_id = str_uuid (imp_user_id i), dr_audit_post_id = str_uuid (imp_post_id i),
             dr_audit_request_identity = canonical_request_identity i\<rparr>))))))))))"

section \<open>All rows\<close>

record sample_acc =
  sa_rows :: "dataset_row list"
  sa_without_visible :: nat
  sa_immature :: nat
  sa_unsupported :: nat
  sa_versions :: "string list"

definition single_version :: "string list \<Rightarrow> string res" where
  "single_version versions =
     (case dedup versions of [v] \<Rightarrow> Inr v
      | _ \<Rightarrow> Inl (ValueError ''mixed persisted label versions within one impression''))"

definition sample_step ::
    "pylib \<Rightarrow> dataset_config \<Rightarrow> (uuid, behavior_event list) dict \<Rightarrow> sample_acc \<Rightarrow> impression \<Rightarrow> sample_acc res" where
  "sample_step lib config by_impression acc i =
     (if \<not> in_query_window config i then Inr acc
      else let linked = linked_events by_impression i in
        case verified_exposure_at i linked of
          None \<Rightarrow> Inr (acc\<lparr>sa_without_visible := Suc (sa_without_visible acc)\<rparr>)
        | Some visible_at \<Rightarrow>
            if visible_at + label_window config > dc_extraction_at config
            then Inr (acc\<lparr>sa_immature := Suc (sa_immature acc)\<rparr>)
            else if \<not> validate_snapshot (imp_snapshot i)
            then Inr (acc\<lparr>sa_unsupported := Suc (sa_unsupported acc)\<rparr>)
            else
              let label_events = events_between visible_at (visible_at + label_window config) linked in
              bind_res (map_res (persisted_version lib) label_events) (\<lambda>versions.
              bind_res (single_version versions) (\<lambda>version.
              let observed = dedup (sa_versions acc @ [version]) in
              if length observed > 1 then Inl (ValueError ''mixed persisted label versions in one training run'')
              else bind_res (label_of_events lib config version label_events) (\<lambda>label.
                bind_res (sample_row lib config (length (sa_rows acc)) i visible_at version label) (\<lambda>row.
                  Inr (acc\<lparr>sa_rows := sa_rows acc @ [row], sa_versions := observed\<rparr>))))))"

definition sample_init :: sample_acc where
  "sample_init = \<lparr>sa_rows = [], sa_without_visible = 0, sa_immature = 0, sa_unsupported = 0, sa_versions = []\<rparr>"

definition build_samples ::
    "pylib \<Rightarrow> impression list \<Rightarrow> behavior_event list \<Rightarrow> dataset_config \<Rightarrow> build_result res" where
  "build_samples lib impressions evs config =
     bind_res (deduplicate imp_id impressions) (\<lambda>unique_impressions.
     bind_res (deduplicate ev_id evs) (\<lambda>unique_events.
     bind_res (validate_request_envelopes (filter (in_query_window config) (dvalues unique_impressions))) (\<lambda>_.
     bind_res (fold_res (sample_step lib config (events_by_impression config (dvalues unique_events))) sample_init
                 (sort_key (\<lambda>i. (imp_served_at i, imp_id i)) (dvalues unique_impressions))) (\<lambda>acc.
     if sa_versions acc \<noteq> [] \<and> set (sa_versions acc) \<noteq> {dc_label_version config}
     then Inl (ValueError ''persisted label version does not match requested dataset label version'')
     else bind_res (split_rows_v1 (sa_rows acc) config) (\<lambda>rows.
       Inr \<lparr>br_rows = rows,
            br_stats = \<lparr>bs_impressions_read = length impressions, bs_events_read = length evs,
              bs_served_without_visible = sa_without_visible acc, bs_immature_impressions = sa_immature acc,
              bs_unsupported_feature_schema = sa_unsupported acc\<rparr>\<rparr>)))))"

section \<open>What a row rests on\<close>

definition row_grounded ::
    "pylib \<Rightarrow> dataset_config \<Rightarrow> behavior_event list \<Rightarrow> impression \<Rightarrow> dataset_row \<Rightarrow> bool" where
  "row_grounded lib config evs i r \<longleftrightarrow>
     in_query_window config i \<and> dr_served_at r = imp_served_at i \<and> dr_position r = imp_position i \<and>
     dr_audit_request_identity r = canonical_request_identity i \<and>
     dr_served_at r \<le> dr_visible_at r \<and> dr_visible_at r + label_window config \<le> dc_extraction_at config \<and>
     (\<exists>label_events version label.
        set label_events \<subseteq> {e \<in> set evs. timely config e \<and> ev_impression_id e = Some (imp_id i) \<and>
          ev_user_id e = imp_user_id i \<and> ev_post_id e = imp_post_id i \<and>
          dr_visible_at r \<le> ev_occurred_at e \<and> ev_occurred_at e \<le> dr_visible_at r + label_window config} \<and>
        (\<exists>e\<in>set label_events. ev_event_type e \<in> {''visible'', ''click''} \<and> ev_occurred_at e = dr_visible_at r) \<and>
        label_of_events lib config version label_events = Inr label \<and>
        dr_label_name r = res_semantic label \<and> row_label version label = Inr (dr_label r))"

lemma min_time_in: "min_time ts = Some t \<Longrightarrow> t \<in> set ts"
proof -
  have "foldl min a xs \<in> insert a (set xs)" for a :: int and xs
    by (induction xs arbitrary: a) (auto simp: min_def split: if_splits)
  then show "min_time ts = Some t \<Longrightarrow> t \<in> set ts" by (cases ts) auto
qed

lemma verified_exposure_event:
  assumes "verified_exposure_at i linked = Some t"
  obtains e where "e \<in> set linked" "ev_event_type e \<in> {''visible'', ''click''}" "ev_occurred_at e = t" "imp_served_at i \<le> t"
  using min_time_in[OF assms[unfolded verified_exposure_at_def]] by (auto intro: that)

lemma linked_events_in:
  "e \<in> set (linked_events (events_by_impression config evs) i) \<Longrightarrow>
     e \<in> set evs \<and> timely config e \<and> ev_impression_id e = Some (imp_id i) \<and>
     ev_user_id e = imp_user_id i \<and> ev_post_id e = imp_post_id i"
  by (auto simp: linked_events_def events_by_impression_def dget_default_def dget_group_by split: if_splits)

lemma sample_row_fields:
  assumes "sample_row lib config n i v version label = Inr r"
  shows "dr_served_at r = imp_served_at i" "dr_position r = imp_position i" "dr_visible_at r = v"
    "dr_audit_request_identity r = canonical_request_identity i" "dr_label_name r = res_semantic label"
    "row_label version label = Inr (dr_label r)" "dr_split r = Train"
proof -
  from assms have "\<exists>value rest. row_label version label = Inr value \<and> dr_served_at r = imp_served_at i \<and>
      dr_position r = imp_position i \<and> dr_visible_at r = v \<and> dr_audit_request_identity r = canonical_request_identity i \<and>
      dr_label_name r = res_semantic label \<and> dr_label r = value \<and> dr_split r = Train"
    unfolding sample_row_def Let_def by (elim bind_resE) auto
  then show "dr_served_at r = imp_served_at i" "dr_position r = imp_position i" "dr_visible_at r = v"
    "dr_audit_request_identity r = canonical_request_identity i" "dr_label_name r = res_semantic label"
    "row_label version label = Inr (dr_label r)" "dr_split r = Train" by auto
qed

definition sample_total :: "sample_acc \<Rightarrow> nat" where
  "sample_total acc = length (sa_rows acc) + sa_without_visible acc + sa_immature acc + sa_unsupported acc"

lemma sample_step_result:
  assumes "sample_step lib config (events_by_impression config evs) acc i = Inr acc'"
  shows "sample_total acc' = sample_total acc + (if in_query_window config i then 1 else 0) \<and>
    (sa_rows acc' = sa_rows acc \<or> (\<exists>r. sa_rows acc' = sa_rows acc @ [r] \<and> row_grounded lib config evs i r))"
proof -
  let ?linked = "linked_events (events_by_impression config evs) i"
  consider (skip) "\<not> in_query_window config i" | (unseen) "in_query_window config i" "verified_exposure_at i ?linked = None"
    | (seen) v where "in_query_window config i" "verified_exposure_at i ?linked = Some v" by fastforce
  then show ?thesis
  proof cases
    case skip
    then show ?thesis using assms by (simp add: sample_step_def)
  next
    case unseen
    then show ?thesis using assms by (auto simp: sample_step_def sample_total_def)
  next
    case (seen v)
    show ?thesis
    proof (cases "v + label_window config > dc_extraction_at config \<or> \<not> validate_snapshot (imp_snapshot i)")
      case True
      then show ?thesis using assms seen by (auto simp: sample_step_def sample_total_def split: if_splits)
    next
      case False
      let ?evs = "events_between v (v + label_window config) ?linked"
      obtain versions version label row where r:
        "map_res (persisted_version lib) ?evs = Inr versions" "single_version versions = Inr version"
        "label_of_events lib config version ?evs = Inr label"
        "sample_row lib config (length (sa_rows acc)) i v version label = Inr row"
        "sa_rows acc' = sa_rows acc @ [row]" "sample_total acc' = Suc (sample_total acc)"
        using assms seen False
        by (auto simp: sample_step_def Let_def sample_total_def split: if_splits)
      note f = sample_row_fields[OF r(4)]
      have "?evs \<noteq> []" using r(1,2) by (auto simp: single_version_def)
      then have window: "0 \<le> label_window config"
        by (auto simp: events_between_def filter_empty_conv)
      obtain e where e: "e \<in> set ?linked" "ev_event_type e \<in> {''visible'', ''click''}" "ev_occurred_at e = v"
        "imp_served_at i \<le> v" using seen(2) by (rule verified_exposure_event)
      have in_evs: "e \<in> set ?evs" using e window by (simp add: events_between_def)
      have sub: "set ?evs \<subseteq> {e \<in> set evs. timely config e \<and> ev_impression_id e = Some (imp_id i) \<and>
          ev_user_id e = imp_user_id i \<and> ev_post_id e = imp_post_id i \<and>
          dr_visible_at row \<le> ev_occurred_at e \<and> ev_occurred_at e \<le> dr_visible_at row + label_window config}"
      proof
        fix x assume "x \<in> set ?evs"
        then have "x \<in> set ?linked" "v \<le> ev_occurred_at x" "ev_occurred_at x \<le> v + label_window config"
          by (simp_all add: events_between_def)
        with linked_events_in[OF this(1)] show "x \<in> {e \<in> set evs. timely config e \<and> ev_impression_id e = Some (imp_id i) \<and>
          ev_user_id e = imp_user_id i \<and> ev_post_id e = imp_post_id i \<and>
          dr_visible_at row \<le> ev_occurred_at e \<and> ev_occurred_at e \<le> dr_visible_at row + label_window config}"
          by (simp add: f(3))
      qed
      have ex: "\<exists>e\<in>set ?evs. ev_event_type e \<in> {''visible'', ''click''} \<and> ev_occurred_at e = dr_visible_at row"
        by (rule bexI[OF _ in_evs]) (use e(2,3) f(3) in simp)
      have times: "dr_served_at row \<le> dr_visible_at row" "dr_visible_at row + label_window config \<le> dc_extraction_at config"
        using e(4) False by (simp_all add: f)
      have "row_grounded lib config evs i row"
        unfolding row_grounded_def
        by (intro conjI exI[of _ ?evs] exI[of _ version] exI[of _ label])
          (rule seen(1) f(1,2,4,5,6) times sub ex r(3))+
      then show ?thesis using r(5,6) seen(1) by auto
    qed
  qed
qed

lemma sample_fold_result:
  assumes "fold_res (sample_step lib config (events_by_impression config evs)) sample_init is = Inr acc"
  shows "sample_total acc = length (filter (in_query_window config) is) \<and>
    (\<forall>r\<in>set (sa_rows acc). \<exists>i\<in>set is. row_grounded lib config evs i r)"
  using assms
proof (induction "is" arbitrary: acc rule: rev_induct)
  case Nil
  then have "acc = sample_init" by simp
  then show ?case by (simp add: sample_init_def sample_total_def)
next
  case (snoc i "is")
  obtain acc0 where acc0: "fold_res (sample_step lib config (events_by_impression config evs)) sample_init is = Inr acc0"
    and step: "sample_step lib config (events_by_impression config evs) acc0 i = Inr acc"
    using snoc.prems by (auto simp: fold_res_snoc)
  from snoc.IH[OF acc0] sample_step_result[OF step] show ?case by auto
qed

lemma row_grounded_split [simp]:
  "row_grounded lib config evs i (dr_with_split r s) = row_grounded lib config evs i r"
  by (simp add: row_grounded_def dr_with_split_def)

lemma row_grounded_events:
  "row_grounded lib config evs i r \<Longrightarrow> set evs = set evs' \<Longrightarrow> row_grounded lib config evs' i r"
  by (simp add: row_grounded_def)

lemma build_samples_cases:
  assumes "build_samples lib impressions evs config = Inr res"
  obtains ui ue acc where
    "deduplicate imp_id impressions = Inr ui" "deduplicate ev_id evs = Inr ue"
    "fold_res (sample_step lib config (events_by_impression config (dvalues ue))) sample_init
       (sort_key (\<lambda>i. (imp_served_at i, imp_id i)) (dvalues ui)) = Inr acc"
    "split_rows_v1 (sa_rows acc) config = Inr (br_rows res)"
    "bs_served_without_visible (br_stats res) = sa_without_visible acc"
    "bs_immature_impressions (br_stats res) = sa_immature acc"
    "bs_unsupported_feature_schema (br_stats res) = sa_unsupported acc"
proof -
  from assms show thesis
    unfolding build_samples_def
    by (elim bind_resE) (auto split: if_splits intro: that)
qed

text \<open>
  C15. The v1 builder accounts for every impression of the query window exactly once, as a row or as an
  exclusion, and every row rests on what it may know: an impression of the window, seen at or after
  serving, with its whole label window over by the extraction time, labelled only from that user's
  events on that impression inside the label window and ingested by the extraction time. Its split
  keeps requests whole and chronological.
\<close>

theorem build_samples_accounts:
  assumes "build_samples lib impressions evs config = Inr res"
  shows "length (br_rows res) + bs_served_without_visible (br_stats res) + bs_immature_impressions (br_stats res) +
      bs_unsupported_feature_schema (br_stats res) = card {i \<in> set impressions. in_query_window config i} \<and>
    (\<forall>r\<in>set (br_rows res). \<exists>i\<in>set impressions. row_grounded lib config evs i r) \<and>
    (\<exists>rows. split_sound dr_audit_request_identity dr_served_at dr_split dr_with_split rows (br_rows res))"
  using assms
proof (cases rule: build_samples_cases)
  case (1 ui ue acc)
  note ui = deduplicate_values[OF 1(1)] and ue = deduplicate_values[OF 1(2)]
  let ?is = "sort_key (\<lambda>i. (imp_served_at i, imp_id i)) (dvalues ui)"
  note fold = sample_fold_result[OF 1(3)]
  obtain result where split: "split_rows_v1 (sa_rows acc) config = Inr result"
    and sound: "split_sound dr_audit_request_identity dr_served_at dr_split dr_with_split (sa_rows acc) result"
    using split_rows_v1_ok by blast
  have result: "br_rows res = result" using split 1(4) by simp
  have "length result = length (sa_rows acc)"
    using sound split_sound_length by blast
  moreover have "length (filter (in_query_window config) ?is) = card {i \<in> set impressions. in_query_window config i}"
  proof -
    have "distinct (filter (in_query_window config) ?is)" using ui(3) by simp
    from distinct_card[OF this] ui(1) show ?thesis by simp
  qed
  moreover have "\<exists>i\<in>set impressions. row_grounded lib config evs i r" if r: "r \<in> set result" for r
  proof -
    obtain s where s: "s \<in> set (sa_rows acc)" "dr_with_split r Train = dr_with_split s Train"
      using split_sound_grounded[OF sound r] .
    obtain i where i: "i \<in> set ?is" "row_grounded lib config (dvalues ue) i s" using fold s(1) by blast
    then have "row_grounded lib config evs i s" using ue(1) by (intro row_grounded_events[OF i(2)]) simp
    then have "row_grounded lib config evs i r" using s(2) by (metis row_grounded_split)
    with i(1) ui(1) show ?thesis by auto
  qed
  ultimately show ?thesis using fold sound by (auto simp: result 1 sample_total_def)
qed


definition demo_snapshot :: "(string, pyval) dict" where
  "demo_snapshot = [(''schema_version'', VStr ''rank-features-v1''), (''topic_relevance'', VFloat 1),
     (''freshness'', VFloat 1), (''safety_score'', VNone), (''candidate_source'', VStr ''topic''),
     (''is_followed_author'', VBool False), (''author_affinity'', VNone), (''heuristic_score'', VNone),
     (''ml_score'', VNone)]"

definition demo_impression :: "uuid \<Rightarrow> int \<Rightarrow> impression" where
  "demo_impression i t = \<lparr>imp_id = i, imp_request_id = i, imp_user_id = 9, imp_post_id = 3, imp_position = 0,
     imp_feed_source = ''for_you'', imp_model_version = ''m'', imp_snapshot = demo_snapshot, imp_served_at = t\<rparr>"

lemma demo_impression_fields [simp]:
  "imp_id (demo_impression i t) = i" "imp_user_id (demo_impression i t) = 9" "imp_post_id (demo_impression i t) = 3"
  "imp_served_at (demo_impression i t) = t" "imp_snapshot (demo_impression i t) = demo_snapshot"
  by (simp_all add: demo_impression_def)

lemma demo_identity [simp]: "canonical_request_identity (demo_impression i t) = str_uuid 9 @ '':'' @ str_uuid i"
  by (simp add: canonical_request_identity_def demo_impression_def)

lemma demo_snapshot_valid [simp]: "validate_snapshot demo_snapshot"
  by (simp add: validate_snapshot_def demo_snapshot_def vget_def FEATURE_SCHEMA_VERSION_def REQUIRED_FEATURES_def
      strip_def lstrip_def is_space_def)

lemma demo_click_mapping:
  "event_mapping (event_object (demo_click i t)) [] =
     [(''event_id'', VUuid i), (''event_type'', VStr ''click''), (''event_version'', VStr ''v2''),
      (''occurred_at'', time_val t)]"
  by (simp add: event_object_def demo_click_def object_fields_def vget_def opt_val_def time_val_def)

lemma demo_click_label:
  "\<exists>label. label_of_events clock_lib demo_config ''v2'' [demo_click i t] = Inr label \<and>
     res_semantic label = Click \<and> training_target label = Some 1"
  by (simp add: label_of_events_def derive_label_def demo_click_mapping dedup_events_def dedup_init_def dedup_step_def
      sort_events_def sorted_res_def event_sort_key_def label_init_def label_step_def apply_event_type_def
      label_candidates_def active_flag_def target_of_def event_id_text_def event_type_of_def event_duration_def
      qualifies_read_def vget_def dget_default_def meta_get_def add_irreversible_def dget_label_reversals
      find_PRECEDENCE demo_config_def time_val_def)

lemma demo_samples:
  "\<exists>res. build_samples clock_lib [demo_impression 1 5, demo_impression 2 6] [demo_click 2 10] demo_config = Inr res \<and>
     length (br_rows res) = 1"
proof -
  obtain label where label: "label_of_events clock_lib demo_config ''v2'' [demo_click 2 10] = Inr label"
    "res_semantic label = Click" "training_target label = Some 1" using demo_click_label by blast
  have row: "\<exists>r. sample_row clock_lib demo_config 0 (demo_impression 1 5) 10 ''v2'' label = Inr r"
    by (simp add: sample_row_def row_label_def label float_item_def optional_float_def py_optional_def vitem_def
        demo_snapshot_def str_item_def Let_def)
  then obtain r where r: "sample_row clock_lib demo_config 0 (demo_impression 1 5) 10 ''v2'' label = Inr r" by blast
  have win: "label_window demo_config = 24 * us_per_hour" "in_query_window demo_config (demo_impression i t) = (0 \<le> t \<and> t < 1000)"
    "dc_extraction_at demo_config = 100000000000000" "dc_label_version demo_config = ''v2''" for i t
    by (simp_all add: label_window_def demo_config_def hours_us_def in_query_window_def dc_start_at_def dc_end_at_def
        dc_extraction_at_def)
  have link: "linked_events (events_by_impression demo_config [demo_click 2 10]) (demo_impression i t) =
      (if i = 1 then [demo_click 2 10] else [])" for i t
    by (simp add: linked_events_def events_by_impression_def timely_def group_by_def group_add_def dget_default_def)
  have envs: "validate_request_envelopes [demo_impression 1 5, demo_impression 2 6] = Inr ()"
    by (simp add: validate_request_envelopes_def envelope_step_def Let_def)
  have versions: "single_version [''v2''] = Inr ''v2''"
    by (simp add: single_version_def dedup_def)
  have exposure: "verified_exposure_at (demo_impression 1 5) [demo_click 2 10] = Some 10"
    "verified_exposure_at (demo_impression 2 6) [] = None"
    by (simp_all add: verified_exposure_at_def)
  have between: "events_between 10 86400000010 [demo_click 2 10] = [demo_click 2 10]"
    by (simp add: events_between_def)
  have step1: "sample_step clock_lib demo_config (events_by_impression demo_config [demo_click 2 10]) sample_init
      (demo_impression 1 5) = Inr (sample_init\<lparr>sa_rows := [r], sa_versions := [''v2'']\<rparr>)"
    by (simp add: sample_step_def win link exposure between versions label(1) r sample_init_def dedup_def Let_def
        us_per_hour_def us_per_second_def)
  have step2: "sample_step clock_lib demo_config (events_by_impression demo_config [demo_click 2 10]) acc
      (demo_impression 2 6) = Inr (acc\<lparr>sa_without_visible := Suc (sa_without_visible acc)\<rparr>)" for acc
    by (simp add: sample_step_def win link exposure)
  obtain rows where rows: "split_rows_v1 [r] demo_config = Inr rows"
    "split_sound dr_audit_request_identity dr_served_at dr_split dr_with_split [r] rows"
    using split_rows_v1_ok by blast
  have "length rows = 1" using split_sound_length[OF rows(2)] by simp
  moreover have "filter (in_query_window demo_config) [demo_impression 1 5, demo_impression 2 6] =
      [demo_impression 1 5, demo_impression 2 6]" by (simp add: win)
  moreover have "sa_rows sample_init = []" "sa_without_visible sample_init = 0" by (simp_all add: sample_init_def)
  ultimately show ?thesis
    by (simp add: build_samples_def deduplicate_def deduplicate_step_def envs step1 step2 win rows)
qed

theorem build_samples_accounts_witness:
  "\<exists>res. build_samples clock_lib [demo_impression 1 5, demo_impression 2 6] [demo_click 2 10] demo_config = Inr res \<and>
     (\<forall>r\<in>set (br_rows res). \<exists>i\<in>{demo_impression 1 5, demo_impression 2 6}. row_grounded clock_lib demo_config [demo_click 2 10] i r)"
proof -
  obtain res where res: "build_samples clock_lib [demo_impression 1 5, demo_impression 2 6] [demo_click 2 10] demo_config = Inr res"
    using demo_samples by blast
  from build_samples_accounts[OF this] res show ?thesis by simp
qed

end
