(* ===== verification/DatasetValidate.thy ===== *)
theory DatasetValidate
  imports DatasetHistory
begin

text \<open>
  \<open>validate_dataset_v2\<close> of \<open>ai_pipeline/build_dataset.py\<close> and what it calls: the checks a v2 ranking
  dataset passes before it is written. Timestamps are instants (never naive) and embeddings are reals
  (never infinite), so the corresponding checks cannot fail and are left out.
\<close>

section \<open>Private identities\<close>

definition is_private_hash :: "string \<Rightarrow> bool" where
  "is_private_hash value \<longleftrightarrow> length value = 64 \<and> value = lower value \<and> parse_int 16 value \<noteq> None"

definition forbidden_keys :: "string set" where
  "forbidden_keys = {''user_id'', ''post_id'', ''impression_id'', ''request_id'', ''news_id'', ''mind_id''}"

primrec contains_forbidden_identity_key :: "pyval \<Rightarrow> bool" where
  "contains_forbidden_identity_key (VMap d) =
     list_ex (\<lambda>(k, b). k \<in> forbidden_keys \<or> b) (map (map_prod id contains_forbidden_identity_key) d)"
| "contains_forbidden_identity_key (VList vs) = list_ex id (map contains_forbidden_identity_key vs)"
| "contains_forbidden_identity_key VNone = False"
| "contains_forbidden_identity_key (VBool b) = False"
| "contains_forbidden_identity_key (VInt i) = False"
| "contains_forbidden_identity_key (VFloat r) = False"
| "contains_forbidden_identity_key (VStr s) = False"
| "contains_forbidden_identity_key (VTime t) = False"
| "contains_forbidden_identity_key (VUuid u) = False"

section \<open>Articles\<close>

text \<open>\<open>str.islower\<close> on ASCII: some lowercase letter and no uppercase one.\<close>

definition is_lower_text :: "string \<Rightarrow> bool" where
  "is_lower_text s \<longleftrightarrow>
     list_ex (\<lambda>c. 97 \<le> (of_char c :: nat) \<and> (of_char c :: nat) \<le> 122) s \<and>
     \<not> list_ex (\<lambda>c. 65 \<le> (of_char c :: nat) \<and> (of_char c :: nat) \<le> 90) s"

definition opt_blank :: "string option \<Rightarrow> bool" where
  "opt_blank x \<longleftrightarrow> (case x of None \<Rightarrow> True | Some s \<Rightarrow> s = [])"

definition opt_text :: "string option \<Rightarrow> string" where
  "opt_text x = (case x of None \<Rightarrow> [] | Some s \<Rightarrow> s)"

definition later_than :: "instant option \<Rightarrow> instant option \<Rightarrow> bool" where
  "later_than t limit \<longleftrightarrow> (case (t, limit) of (Some a, Some b) \<Rightarrow> a > b | _ \<Rightarrow> False)"

text \<open>\<open>math.isclose(norm, 1.0, rel_tol=1e-5, abs_tol=1e-5)\<close>\<close>

definition unit_norm :: "real list \<Rightarrow> bool" where
  "unit_norm xs \<longleftrightarrow>
     (let norm = sqrt (sum_list (map (\<lambda>v. v * v) xs)) in \<bar>norm - 1\<bar> \<le> max (1 / 10 ^ 5 * max \<bar>norm\<bar> 1) (1 / 10 ^ 5))"

definition article_common_checks :: "article_representation \<Rightarrow> instant option \<Rightarrow> (bool \<times> string) list" where
  "article_common_checks a available_at =
     [(later_than (art_published_at a) available_at, ''article published_at must not be after availability''),
      (art_language a = None \<and> art_detector_version a \<noteq> None, ''article language detector requires a language value''),
      (art_language a \<noteq> None \<and> (\<not> is_lower_text (opt_text (art_language a)) \<or>
         length (opt_text (art_language a)) < 2 \<or> length (opt_text (art_language a)) > 16),
       ''article language must be a canonical lowercase code''),
      (art_language a \<noteq> None \<and> opt_blank (art_detector_version a), ''article language requires detector provenance'')]"

definition embedded_article_checks ::
    "article_representation \<Rightarrow> string option \<Rightarrow> int option \<Rightarrow> instant option \<Rightarrow> (bool \<times> string) list" where
  "embedded_article_checks a encoder dimension available_at =
     (let embedding = (case art_embedding a of None \<Rightarrow> [] | Some e \<Rightarrow> e) in
      [(art_embedding a = None, ''missing article representation''),
       (embedding = [], ''invalid article embedding''),
       (opt_blank (art_encoder_version a) \<or> opt_blank (art_content_hash a), ''missing article representation provenance''),
       (art_source_updated_at a = None \<or> art_computed_at a = None, ''missing article feature revision timestamps''),
       (later_than (art_source_updated_at a) (art_computed_at a), ''article feature source timestamp exceeds computation time''),
       (later_than (art_source_updated_at a) available_at \<or> later_than (art_computed_at a) available_at,
        ''article feature revision must not be from the future''),
       (\<not> is_private_hash (opt_text (art_content_hash a)),
        ''article content_hash must be 64 lowercase hexadecimal characters''),
       (encoder \<noteq> None \<and> art_encoder_version a \<noteq> encoder, ''article encoder version does not match dataset metadata''),
       (dimension \<noteq> None \<and> Some (int (length embedding)) \<noteq> dimension, ''article embedding dimension does not match dataset metadata''),
       (\<not> unit_norm embedding, ''article embedding must be finite and L2-normalized'')])"

definition mind_article_checks :: "article_representation \<Rightarrow> (bool \<times> string) list" where
  "mind_article_checks a =
     [(strip (opt_text (art_title a)) = [] \<and> strip (opt_text (art_abstract a)) = [], ''missing article representation''),
      (art_embedding a \<noteq> None, ''MIND text representation must not contain an unpinned embedding''),
      (art_content_hash a = None \<or> \<not> is_private_hash (opt_text (art_content_hash a)),
       ''MIND text representation requires a versioned content hash''),
      (art_source_updated_at a \<noteq> None \<or> art_computed_at a \<noteq> None,
       ''MIND text representation must not fabricate feature timestamps'')]"

definition validate_article_representation ::
    "article_representation \<Rightarrow> string option \<Rightarrow> int option \<Rightarrow> instant option \<Rightarrow> unit res" where
  "validate_article_representation a encoder dimension available_at =
     bind_res (run_checks (article_common_checks a available_at)) (\<lambda>_.
       if art_type a = ''post-content-embedding-v1''
       then run_checks (embedded_article_checks a encoder dimension available_at)
       else if art_type a = ''mind-text-v1'' then run_checks (mind_article_checks a)
       else Inl (ValueError ''unsupported article representation''))"

section \<open>Rows\<close>

definition expected_utility :: "semantic \<Rightarrow> int option" where
  "expected_utility s =
     (case s of Click \<Rightarrow> Some 1 | QualifiedRead \<Rightarrow> Some 1 | Positive \<Rightarrow> Some 1 | StrongPositive \<Rightarrow> Some 1
      | Negative \<Rightarrow> Some 0 | StrongNegative \<Rightarrow> Some 0 | Exposure \<Rightarrow> None)"

definition row_head_checks :: "string list \<Rightarrow> ranking_row \<Rightarrow> (bool \<times> string) list" where
  "row_head_checks sample_ids r =
     [(rr_dataset_scope r \<noteq> DATASET_V2_SCOPE, ''dataset scope must be served-impression-reranking''),
      (\<not> rr_served r \<or> \<not> rr_visible r, ''dataset v2 candidates must be served and visibly proven''),
      (rr_visible_at r < rr_served_at r, ''visible_at must not precede served_at''),
      (rr_click_label r \<notin> {0, 1} \<or> rr_utility_label r \<notin> {0, 1}, ''dataset v2 labels must be binary''),
      (expected_utility (rr_utility_label_name r) \<noteq> Some (rr_utility_label r),
       ''utility label does not match its versioned semantic''),
      (\<not> (is_private_hash (rr_sample_id r) \<and> is_private_hash (rr_request_group r) \<and> is_private_hash (rr_candidate_group r)),
       ''dataset v2 identities must be private hashes''),
      (rr_sample_id r \<in> set sample_ids, ''dataset v2 sample_id must be unique''),
      (art_group (rr_article r) \<noteq> rr_candidate_group r, ''candidate identity must match its article representation'')]"

definition topic_checks :: "ranking_row \<Rightarrow> (bool \<times> string) list" where
  "topic_checks r =
     [(rr_declared_topics r \<noteq> sorted_list_of_set (set (rr_declared_topics r)),
       ''declared topics must be canonical, unique, and sorted''),
      (list_ex (\<lambda>t. t = [] \<or> t \<noteq> lower (strip t)) (rr_declared_topics r),
       ''declared topics must be normalized lowercase labels''),
      (rr_declared_topics r \<noteq> [] \<and> rr_declared_topics_observed_at r = None,
       ''declared topic provenance timestamp is required''),
      (later_than (rr_declared_topics_observed_at r) (Some (rr_served_at r)),
       ''declared topic context must not be from the future''),
      (map rh_ordinal (rr_history r) \<noteq> [0..<length (rr_history r)], ''history ordinals must be contiguous and ordered'')]"

text \<open>Sorting a list with \<open>None\<close> in it raises as soon as there is something to compare.\<close>

definition history_times_ordered :: "ranking_history_entry list \<Rightarrow> unit res" where
  "history_times_ordered history =
     (let ts = map rh_engaged_at (filter (\<lambda>e. rh_provenance e = ''oecophylla-click-v2'') history) in
      if length ts \<le> 1 then Inr ()
      else if None \<in> set ts then Inl (TypeError ''not supported between NoneType and datetime'')
      else if sorted (map the ts) then Inr () else Inl (ValueError ''history timestamps must be ordered''))"

definition validate_history_entry ::
    "ranking_build_result \<Rightarrow> instant \<Rightarrow> ranking_history_entry \<Rightarrow> unit res" where
  "validate_history_entry result served_at e =
     (if \<not> is_private_hash (art_group (rh_article e)) then Inl (ValueError ''history identities must be private hashes'')
      else bind_res (validate_article_representation (rh_article e) (rb_expected_encoder_version result)
                       (rb_expected_embedding_dimension result) (rh_engaged_at e)) (\<lambda>_.
        if rh_provenance e = ''oecophylla-click-v2''
        then (case rh_engaged_at e of
                Some t \<Rightarrow> if t \<ge> served_at then Inl (ValueError ''history must be strictly before serving'') else Inr ()
              | None \<Rightarrow> Inl (ValueError ''history must be strictly before serving''))
        else if rh_provenance e = ''mind-pre-impression-snapshot''
        then (if rh_engaged_at e \<noteq> None then Inl (ValueError ''MIND snapshot history must use ordinal ordering'') else Inr ())
        else Inl (ValueError ''unsupported history provenance'')))"

definition validate_row :: "ranking_build_result \<Rightarrow> string list \<Rightarrow> ranking_row \<Rightarrow> string list res" where
  "validate_row result sample_ids r =
     bind_res (run_checks (row_head_checks sample_ids r)) (\<lambda>_.
     bind_res (validate_article_representation (rr_article r) (rb_expected_encoder_version result)
                 (rb_expected_embedding_dimension result) (Some (rr_served_at r))) (\<lambda>_.
     bind_res (run_checks (topic_checks r)) (\<lambda>_.
     bind_res (history_times_ordered (rr_history r)) (\<lambda>_.
     bind_res (map_res (validate_history_entry result (rr_served_at r)) (rr_history r)) (\<lambda>_.
     if contains_forbidden_identity_key (VMap (ranking_row_record r))
     then Inl (ValueError ''raw identity field leaked into dataset v2'')
     else Inr (sample_ids @ [rr_sample_id r]))))))"

section \<open>Requests and the whole dataset\<close>

definition distinct_count :: "'a list \<Rightarrow> nat" where
  "distinct_count xs = length (dedup xs)"

definition request_checks :: "ranking_row list \<Rightarrow> (bool \<times> string) list" where
  "request_checks g =
     [(length g < 2, ''each request requires at least two candidates''),
      (distinct_count (map rr_split g) \<noteq> 1, ''request group crosses splits''),
      (distinct_count (map rr_audit_request_identity g) \<noteq> 1, ''request hash collision or conflicting request envelope''),
      (distinct_count (map rr_position g) \<noteq> length g, ''candidate positions must be unique within a request''),
      (distinct_count (map rr_candidate_group g) \<noteq> length g, ''candidates must be unique within a request''),
      (distinct_count (map rr_history g) \<noteq> 1, ''request candidates must share one history snapshot''),
      (distinct_count (map (\<lambda>r. (rr_declared_topics r, rr_declared_topics_observed_at r)) g) \<noteq> 1,
       ''request candidates must share declared topic context''),
      (distinct_count (map (\<lambda>r. (rr_served_at r, rr_feed_source r, rr_model_version r, rr_source_format r)) g) \<noteq> 1,
       ''request candidates must share one immutable serving envelope'')]"

definition split_times :: "ranking_row list list \<Rightarrow> split_name \<Rightarrow> instant list" where
  "split_times groups s = map (\<lambda>g. rr_served_at (hd g)) (filter (\<lambda>g. rr_split (hd g) = s) groups)"

fun chronological :: "instant list list \<Rightarrow> bool" where
  "chronological (a # b # rest) = (Max (set a) \<le> Min (set b) \<and> chronological (b # rest))"
| "chronological _ = True"

definition validate_dataset_v2 :: "ranking_build_result \<Rightarrow> validation_report res" where
  "validate_dataset_v2 result =
     (let rows = rb_rows result in
      if rows = [] then Inl (ValueError ''recommendation dataset v2 must contain candidates'')
      else bind_res (fold_res (validate_row result) [] rows) (\<lambda>_.
        let groups = dvalues (group_by rr_request_group rows) in
        bind_res (map_res (\<lambda>g. run_checks (request_checks g)) groups) (\<lambda>_.
        let populated = filter (\<lambda>ts. ts \<noteq> []) (map (split_times groups) [Train, Validation, Test]);
            clicks = counter (map rr_click_label rows); utilities = counter (map rr_utility_label rows) in
        bind_res (run_checks
          [(\<not> chronological populated, ''dataset splits are not chronological''),
           (set (dkeys clicks) \<noteq> {0, 1}, ''click_label class balance requires positive and negative candidates''),
           (set (dkeys utilities) \<noteq> {0, 1}, ''utility_label class balance requires positive and negative candidates'')]) (\<lambda>_.
          Inr \<lparr>vr_request_count = length groups, vr_candidate_count = length rows,
               vr_empty_history_requests = length (filter (\<lambda>g. rr_history (hd g) = []) groups),
               vr_click_class_balance = clicks, vr_utility_class_balance = utilities\<rparr>))))"


section \<open>The contract of an accepted dataset\<close>

text \<open>What an accepted row promises on its own.\<close>

definition row_contract :: "ranking_row \<Rightarrow> bool" where
  "row_contract r \<longleftrightarrow>
     rr_served r \<and> rr_visible r \<and> rr_served_at r \<le> rr_visible_at r \<and>
     rr_click_label r \<in> {0, 1} \<and> expected_utility (rr_utility_label_name r) = Some (rr_utility_label r) \<and>
     is_private_hash (rr_sample_id r) \<and> is_private_hash (rr_request_group r) \<and> is_private_hash (rr_candidate_group r) \<and>
     \<not> contains_forbidden_identity_key (VMap (ranking_row_record r)) \<and>
     (\<forall>t. rr_declared_topics_observed_at r = Some t \<longrightarrow> t \<le> rr_served_at r) \<and>
     (\<forall>e\<in>set (rr_history r). is_private_hash (art_group (rh_article e)) \<and>
        (\<forall>t. rh_engaged_at e = Some t \<longrightarrow> t < rr_served_at r))"

text \<open>
  A declarative statement of an acceptable dataset, over pairs of rows instead of request groups.
\<close>

definition dataset_contract :: "ranking_row list \<Rightarrow> bool" where
  "dataset_contract rows \<longleftrightarrow>
     rows \<noteq> [] \<and> distinct (map rr_sample_id rows) \<and> (\<forall>r\<in>set rows. row_contract r) \<and>
     (\<forall>r\<in>set rows. \<exists>r'\<in>set rows. r' \<noteq> r \<and> rr_request_group r' = rr_request_group r) \<and>
     (\<forall>r\<in>set rows. \<forall>r'\<in>set rows. rr_request_group r = rr_request_group r' \<longrightarrow>
        rr_split r = rr_split r' \<and> rr_history r = rr_history r' \<and> rr_served_at r = rr_served_at r' \<and>
        rr_audit_request_identity r = rr_audit_request_identity r' \<and>
        (r \<noteq> r' \<longrightarrow> rr_position r \<noteq> rr_position r' \<and> rr_candidate_group r \<noteq> rr_candidate_group r')) \<and>
     (\<forall>r\<in>set rows. \<forall>r'\<in>set rows. rr_split r < rr_split r' \<longrightarrow> rr_served_at r \<le> rr_served_at r') \<and>
     rr_click_label ` set rows = {0, 1} \<and> rr_utility_label ` set rows = {0, 1}"

lemma validate_history_entry_ok:
  assumes "validate_history_entry result t e = Inr ()"
  shows "is_private_hash (art_group (rh_article e))" "rh_engaged_at e = Some u \<Longrightarrow> u < t"
  using assms by (auto simp: validate_history_entry_def split: if_splits option.splits)

lemma validate_row_ok:
  assumes "validate_row result ids r = Inr ids'"
  shows "ids' = ids @ [rr_sample_id r] \<and> rr_sample_id r \<notin> set ids \<and> row_contract r"
proof -
  from assms obtain us where head: "list_all (\<lambda>(bad, _). \<not> bad) (row_head_checks ids r)"
    and topics: "list_all (\<lambda>(bad, _). \<not> bad) (topic_checks r)"
    and hist: "map_res (validate_history_entry result (rr_served_at r)) (rr_history r) = Inr us"
    and forb: "\<not> contains_forbidden_identity_key (VMap (ranking_row_record r))"
    and ids': "ids' = ids @ [rr_sample_id r]"
    unfolding validate_row_def by (elim bind_resE) (auto simp: run_checks_ok split: if_splits)
  have entry: "validate_history_entry result (rr_served_at r) e = Inr ()" if "e \<in> set (rr_history r)" for e
    using map_res_argD[OF hist that] by auto
  have "\<forall>e\<in>set (rr_history r). is_private_hash (art_group (rh_article e)) \<and>
      (\<forall>t. rh_engaged_at e = Some t \<longrightarrow> t < rr_served_at r)"
    using validate_history_entry_ok entry by blast
  moreover have "\<forall>t. rr_declared_topics_observed_at r = Some t \<longrightarrow> t \<le> rr_served_at r"
    using topics by (auto simp: topic_checks_def later_than_def split: option.splits)
  moreover have "rr_sample_id r \<notin> set ids"
    "rr_served r \<and> rr_visible r \<and> rr_served_at r \<le> rr_visible_at r \<and> rr_click_label r \<in> {0, 1} \<and>
     expected_utility (rr_utility_label_name r) = Some (rr_utility_label r) \<and> is_private_hash (rr_sample_id r) \<and>
     is_private_hash (rr_request_group r) \<and> is_private_hash (rr_candidate_group r)"
    using head by (simp_all add: row_head_checks_def not_less)
  ultimately show ?thesis
    using forb ids' by (simp only: row_contract_def simp_thms)
qed

lemma validate_rows_ok:
  assumes "fold_res (validate_row result) [] rows = Inr ids"
  shows "ids = map rr_sample_id rows \<and> distinct ids \<and> (\<forall>r\<in>set rows. row_contract r)"
  using assms
proof (induction rows arbitrary: ids rule: rev_induct)
  case Nil
  then show ?case by simp
next
  case (snoc r rows)
  then show ?case using validate_row_ok by (fastforce simp: fold_res_snoc)
qed

lemma distinct_count_one: "distinct_count (map f xs) = 1 \<Longrightarrow> x \<in> set xs \<Longrightarrow> y \<in> set xs \<Longrightarrow> f x = f y"
  by (auto simp: distinct_count_def length_dedup card_1_singleton_iff)
    (metis image_eqI singletonD)

lemma distinct_count_all: "distinct_count xs = length xs \<Longrightarrow> distinct xs"
  by (simp add: distinct_count_def length_dedup card_distinct)

lemma request_checks_shared:
  assumes "list_all (\<lambda>(bad, _). \<not> bad) (request_checks g)" "r \<in> set g" "r' \<in> set g"
  shows "rr_split r = rr_split r'" "rr_history r = rr_history r'" "rr_served_at r = rr_served_at r'"
    "rr_audit_request_identity r = rr_audit_request_identity r'"
proof -
  note one = distinct_count_one[OF _ assms(2,3)]
  show "rr_split r = rr_split r'" using assms(1) by (intro one) (simp add: request_checks_def)
  show "rr_history r = rr_history r'" using assms(1) by (intro one) (simp add: request_checks_def)
  show "rr_audit_request_identity r = rr_audit_request_identity r'"
    using assms(1) by (intro one) (simp add: request_checks_def)
  have "(\<lambda>r. (rr_served_at r, rr_feed_source r, rr_model_version r, rr_source_format r)) r =
      (\<lambda>r. (rr_served_at r, rr_feed_source r, rr_model_version r, rr_source_format r)) r'"
    using assms(1) by (intro one) (simp add: request_checks_def)
  then show "rr_served_at r = rr_served_at r'" by simp
qed

lemma request_checks_distinct:
  assumes "list_all (\<lambda>(bad, _). \<not> bad) (request_checks g)" "r \<in> set g" "r' \<in> set g"
  shows "r \<noteq> r' \<longrightarrow> rr_position r \<noteq> rr_position r' \<and> rr_candidate_group r \<noteq> rr_candidate_group r'"
proof -
  have "distinct (map rr_position g)" "distinct (map rr_candidate_group g)"
    using assms(1) by (auto simp: request_checks_def intro: distinct_count_all)
  then show ?thesis using assms(2,3) by (auto simp: distinct_map dest: inj_onD)
qed

lemma chronological_sorted:
  "chronological tss \<Longrightarrow> [] \<notin> set tss \<Longrightarrow> sorted_wrt (\<lambda>a b. \<forall>x\<in>set a. \<forall>y\<in>set b. x \<le> y) tss"
proof (induction tss rule: chronological.induct)
  case (1 a b rest)
  have ab: "x \<le> y" if "x \<in> set a" "y \<in> set b" for x y
  proof -
    have "x \<le> Max (set a)" "Min (set b) \<le> y" using that by simp_all
    with 1(2) show ?thesis by simp
  qed
  have IH: "sorted_wrt (\<lambda>a b. \<forall>x\<in>set a. \<forall>y\<in>set b. x \<le> y) (b # rest)" using 1 by simp
  have "x \<le> y" if "x \<in> set a" "c \<in> set rest" "y \<in> set c" for x c y
  proof -
    have "b \<noteq> []" using 1(3) by auto
    then obtain z where z: "z \<in> set b" by (cases b) auto
    then have "z \<le> y" using IH that by auto
    with ab[OF that(1) z] show ?thesis by simp
  qed
  with ab IH show ?case by auto
qed auto

lemma split_times_ordered:
  assumes "chronological (filter (\<lambda>ts. ts \<noteq> []) (map (split_times groups) [Train, Validation, Test]))"
    and "g \<in> set groups" "h \<in> set groups" "rr_split (hd g) < rr_split (hd h)"
  shows "rr_served_at (hd g) \<le> rr_served_at (hd h)"
proof -
  let ?pop = "filter (\<lambda>ts. ts \<noteq> []) (map (split_times groups) [Train, Validation, Test])"
  let ?le = "\<lambda>a b :: instant list. \<forall>x\<in>set a. \<forall>y\<in>set b. x \<le> y"
  have srt: "sorted_wrt ?le ?pop" using chronological_sorted[OF assms(1)] by simp
  have mem: "rr_served_at (hd k) \<in> set (split_times groups (rr_split (hd k)))" if "k \<in> set groups" for k
    using that by (auto simp: split_times_def)
  have pairs: "?le (split_times groups s) (split_times groups t)" if "s < t" for s t
    using srt that by (cases s; cases t) (auto simp: less_split_name_def split: if_splits)
  show ?thesis using pairs[OF assms(4)] mem[OF assms(2)] mem[OF assms(3)] by blast
qed

lemma validate_contract_all:
  assumes "validate_dataset_v2 result = Inr report"
  shows "dataset_contract (rb_rows result) \<and>
    vr_request_count report = card (rr_request_group ` set (rb_rows result)) \<and>
    vr_candidate_count report = length (rb_rows result) \<and>
    sum_list (dvalues (vr_click_class_balance report)) = length (rb_rows result) \<and>
    vr_empty_history_requests report \<le> vr_request_count report"
proof -
  let ?rows = "rb_rows result" and ?groups = "dvalues (group_by rr_request_group (rb_rows result))"
  have ne: "?rows \<noteq> []" using assms by (auto simp: validate_dataset_v2_def)
  from assms ne obtain ids us where ids: "fold_res (validate_row result) [] ?rows = Inr ids"
    and us: "map_res (\<lambda>g. run_checks (request_checks g)) ?groups = Inr us"
    and chron: "chronological (filter (\<lambda>ts. ts \<noteq> []) (map (split_times ?groups) [Train, Validation, Test]))"
    and classes: "set (map rr_click_label ?rows) = {0, 1}" "set (map rr_utility_label ?rows) = {0, 1}"
    and report: "report = \<lparr>vr_request_count = length ?groups, vr_candidate_count = length ?rows,
      vr_empty_history_requests = length (filter (\<lambda>g. rr_history (hd g) = []) ?groups),
      vr_click_class_balance = counter (map rr_click_label ?rows),
      vr_utility_class_balance = counter (map rr_utility_label ?rows)\<rparr>"
    unfolding validate_dataset_v2_def Let_def
    by (simp only: if_False) (elim bind_resE, auto simp: run_checks_ok)
  note rows = validate_rows_ok[OF ids]
  have grp: "\<exists>g\<in>set ?groups. r \<in> set g \<and> g = filter (\<lambda>x. rr_request_group x = rr_request_group r) ?rows \<and>
      list_all (\<lambda>(bad, _). \<not> bad) (request_checks g)" if "r \<in> set ?rows" for r
  proof -
    let ?g = "filter (\<lambda>x. rr_request_group x = rr_request_group r) ?rows"
    have "dget (group_by rr_request_group ?rows) (rr_request_group r) = Some ?g"
      using that by (simp add: dget_group_by)
    then have g: "?g \<in> set ?groups" by (force dest: map_of_SomeD)
    then have "run_checks (request_checks ?g) = Inr ()"
      using map_res_argD[OF us] by fastforce
    then have "list_all (\<lambda>(bad, _). \<not> bad) (request_checks ?g)" by (simp add: run_checks_ok)
    moreover have "r \<in> set ?g" using that by simp
    ultimately show ?thesis by (intro bexI[OF _ g] conjI refl)
  qed
  have two: "\<exists>r'\<in>set ?rows. r' \<noteq> r \<and> rr_request_group r' = rr_request_group r" if r: "r \<in> set ?rows" for r
  proof -
    obtain g where g: "r \<in> set g" "g = filter (\<lambda>x. rr_request_group x = rr_request_group r) ?rows" "2 \<le> length g"
      using grp[OF r] by (auto simp: request_checks_def not_less)
    have "distinct g" using rows g(2) by (auto simp: distinct_map intro: distinct_filter)
    then have "card (set g) \<ge> 2" using g(3) by (simp add: distinct_card)
    then have "set g \<noteq> {r}" by auto
    with g show ?thesis by auto
  qed
  have env: "rr_split r = rr_split r' \<and> rr_history r = rr_history r' \<and> rr_served_at r = rr_served_at r' \<and>
      rr_audit_request_identity r = rr_audit_request_identity r' \<and>
      (r \<noteq> r' \<longrightarrow> rr_position r \<noteq> rr_position r' \<and> rr_candidate_group r \<noteq> rr_candidate_group r')"
    if r: "r \<in> set ?rows" "r' \<in> set ?rows" "rr_request_group r = rr_request_group r'" for r r'
  proof -
    obtain g where g1: "r \<in> set g" and gd: "g = filter (\<lambda>x. rr_request_group x = rr_request_group r) ?rows"
      and ok: "list_all (\<lambda>(bad, _). \<not> bad) (request_checks g)"
      using grp[OF r(1)] by blast
    have g: "r \<in> set g" "r' \<in> set g" using g1 gd r by simp_all
    show ?thesis using request_checks_shared[OF ok g] request_checks_distinct[OF ok g] by simp
  qed
  have ord: "rr_served_at r \<le> rr_served_at r'"
    if r: "r \<in> set ?rows" "r' \<in> set ?rows" "rr_split r < rr_split r'" for r r'
  proof -
    have hd: "\<exists>g\<in>set ?groups. rr_split (hd g) = rr_split x \<and> rr_served_at (hd g) = rr_served_at x" if x: "x \<in> set ?rows" for x
    proof -
      obtain g where g: "g \<in> set ?groups" "x \<in> set g" and ok: "list_all (\<lambda>(bad, _). \<not> bad) (request_checks g)"
        using grp[OF x] by blast
      have "hd g \<in> set g" using g(2) by (cases g) auto
      then show ?thesis using request_checks_shared[OF ok _ g(2)] g(1) by blast
    qed
    obtain g h where "g \<in> set ?groups" "rr_split (hd g) = rr_split r" "rr_served_at (hd g) = rr_served_at r"
      "h \<in> set ?groups" "rr_split (hd h) = rr_split r'" "rr_served_at (hd h) = rr_served_at r'"
      using hd[OF r(1)] hd[OF r(2)] by blast
    then show ?thesis using split_times_ordered[OF chron, of g h] r(3) by simp
  qed
  have "dataset_contract ?rows"
    unfolding dataset_contract_def
  proof (intro conjI)
    show "rr_click_label ` set ?rows = {0, 1}" "rr_utility_label ` set ?rows = {0, 1}" using classes by simp_all
  qed (use ne rows two env ord in blast)+
  moreover have "length ?groups = card (rr_request_group ` set ?rows)"
    by (simp add: dvalues_group_by length_dedup)
  moreover have "length (filter (\<lambda>g. rr_history (hd g) = []) ?groups) \<le> length ?groups"
    by (rule length_filter_le)
  ultimately show ?thesis by (simp add: report sum_counter)
qed

lemmas validate_contract_rows = validate_contract_all[THEN conjunct1]


section \<open>A dataset that is accepted\<close>

lemma lower_hex_string: "list_all is_lower_hex s \<Longrightarrow> lower s = s"
  unfolding lower_def by (rule map_idI) (use lower_hex_range in \<open>force simp: list_all_iff intro: lower_char_fixed\<close>)

lemma list_all_hex_digits: "list_all is_lower_hex (hex_digits w n)"
  by (simp add: list_all_iff hex_digits_lower_hex)

text \<open>Every 64-digit lowercase hexadecimal text is a private hash.\<close>

lemma is_private_hash_hex: "is_private_hash (hex_digits 64 n)"
  by (simp add: is_private_hash_def lower_hex_string list_all_hex_digits parse_int_hex_digits)

lemma hex_digits_eq_iff: "0 < w \<Longrightarrow> hex_digits w m = hex_digits w n \<longleftrightarrow> m mod 16 ^ w = n mod 16 ^ w"
proof
  assume "0 < w" "m mod 16 ^ w = n mod 16 ^ w"
  then show "hex_digits w m = hex_digits w n"
  proof (induction w arbitrary: m n)
    case (Suc w)
    have split: "x mod 16 ^ Suc w = 16 * (x div 16 mod 16 ^ w) + x mod 16" for x :: nat by (simp add: mod_mult2_eq)
    have last: "m mod 16 = n mod 16" using arg_cong[OF Suc.prems(2)[unfolded split], of "\<lambda>x. x mod 16"] by simp
    have "m div 16 mod 16 ^ w = n div 16 mod 16 ^ w" using Suc.prems(2)[unfolded split] last by simp
    then have "hex_digits w (m div 16) = hex_digits w (n div 16)" by (cases "w = 0") (auto intro: Suc.IH)
    with last show ?case by simp
  qed simp
next
  assume "0 < w" "hex_digits w m = hex_digits w n"
  then show "m mod 16 ^ w = n mod 16 ^ w"
    using parse_int_hex_digits[of w m] parse_int_hex_digits[of w n] by (simp flip: of_nat_eq_iff)
qed

text \<open>The check admits more than hexadecimal digits: \<open>int(value, 16)\<close> also reads a \<open>0x\<close> prefix.\<close>

lemma is_private_hash_prefix: "is_private_hash (''0x'' @ hex_digits 62 n)"
proof -
  let ?s = "''0x'' @ hex_digits 62 n"
  have "strip ?s = ?s"
  proof (rule strip_no_space)
    fix c assume "c \<in> set ?s"
    then have "is_lower_hex c \<or> c = CHR ''0'' \<or> c = CHR ''x''" by (auto dest: hex_digits_lower_hex)
    then show "\<not> is_space c" using lower_hex_range[of c] by (auto simp: is_space_def)
  qed
  moreover have "parse_digits 16 0 True (hex_digits 62 n) = Some (n mod 16 ^ 62)"
    using parse_digits_hex[of 0 True 62 n "[]"] by simp
  ultimately have "parse_int 16 ?s \<noteq> None" by (simp add: parse_int_def parse_unsigned_def del: parse_digits.simps)
  moreover have "lower ?s = ?s"
    using lower_hex_string[OF list_all_hex_digits, of 62 n] by (simp add: lower_def lower_char_def)
  ultimately show ?thesis by (simp add: is_private_hash_def)
qed

definition demo_article :: "nat \<Rightarrow> article_representation" where
  "demo_article c =
     \<lparr>art_group = hex_digits 64 c, art_type = ''post-content-embedding-v1'', art_encoder_version = Some ''v'',
      art_content_hash = Some (hex_digits 64 10), art_embedding = Some [1], art_source_updated_at = Some 0,
      art_computed_at = Some 0, art_category = None, art_subcategory = None, art_title = None,
      art_abstract = None, art_published_at = None, art_language = None, art_detector_version = None\<rparr>"

definition demo_row :: "nat \<Rightarrow> nat \<Rightarrow> int \<Rightarrow> int \<Rightarrow> semantic \<Rightarrow> ranking_row" where
  "demo_row sample candidate pos label semantic =
     \<lparr>rr_sample_id = hex_digits 64 sample, rr_request_group = hex_digits 64 10,
      rr_candidate_group = hex_digits 64 candidate, rr_split = Train, rr_served_at = 5, rr_visible_at = 6,
      rr_position = pos, rr_served = True, rr_visible = True, rr_click_label = label, rr_utility_label = label,
      rr_utility_label_name = semantic, rr_article = demo_article candidate, rr_history = [],
      rr_feed_source = ''feed'', rr_model_version = ''m'', rr_source_format = ''f'',
      rr_dataset_scope = DATASET_V2_SCOPE, rr_audit_request_identity = ''r'', rr_declared_topics = [],
      rr_declared_topics_observed_at = None\<rparr>"

definition demo_dataset :: ranking_build_result where
  "demo_dataset =
     \<lparr>rb_rows = [demo_row 1 3 0 1 Click, demo_row 2 4 1 0 Negative],
      rb_stats = \<lparr>bs_impressions_read = 2, bs_events_read = 1, bs_served_without_visible = 0,
        bs_immature_impressions = 0, bs_unsupported_feature_schema = 0\<rparr>,
      rb_expected_encoder_version = None, rb_expected_embedding_dimension = None\<rparr>"

lemma hex_digits_Nil: "hex_digits w n = [] \<longleftrightarrow> w = 0"
  using length_hex_digits[of w n] by (metis length_0_conv)

lemma demo_article_ok: "0 \<le> t \<Longrightarrow> validate_article_representation (demo_article c) None None (Some t) = Inr ()"
  using is_private_hash_hex
  by (simp add: validate_article_representation_def article_common_checks_def embedded_article_checks_def demo_article_def
      run_checks_Cons later_than_def opt_text_def opt_blank_def unit_norm_def hex_digits_Nil split: list.split)

lemma demo_row_private: "\<not> contains_forbidden_identity_key (VMap (ranking_row_record (demo_row a b i l s)))"
  by (simp add: ranking_row_record_def demo_row_def demo_article_def article_record_def forbidden_keys_def opt_val_def
      time_val_def)

lemma demo_row_ok:
  assumes "hex_digits 64 a \<notin> set ids" "l \<in> {0, 1}" "expected_utility s = Some l"
  shows "validate_row demo_dataset ids (demo_row a b i l s) = Inr (ids @ [hex_digits 64 a])"
proof -
  have r: "demo_row a b i l s = r \<Longrightarrow> rr_sample_id r = hex_digits 64 a \<and> rr_history r = [] \<and>
      rr_article r = demo_article b \<and> rr_served_at r = 5" for r by (auto simp: demo_row_def)
  have "run_checks (row_head_checks ids (demo_row a b i l s)) = Inr ()"
    using assms is_private_hash_hex by (simp add: run_checks_ok row_head_checks_def demo_row_def demo_article_def)
  moreover have "run_checks (topic_checks (demo_row a b i l s)) = Inr ()"
    by (simp add: run_checks_ok topic_checks_def demo_row_def later_than_def)
  moreover have "rb_expected_encoder_version demo_dataset = None" "rb_expected_embedding_dimension demo_dataset = None"
    by (simp_all add: demo_dataset_def)
  ultimately show ?thesis
    using r[OF refl] demo_row_private[of a b i l s]
    by (simp add: validate_row_def demo_article_ok history_times_ordered_def del: contains_forbidden_identity_key.simps)
qed

lemma demo_dataset_ok: "\<exists>report. validate_dataset_v2 demo_dataset = Inr report"
proof -
  define a b where ab: "a = demo_row 1 3 0 1 Click" "b = demo_row 2 4 1 0 Negative"
  have rows: "rb_rows demo_dataset = [a, b]" by (simp add: demo_dataset_def ab)
  have ids: "fold_res (validate_row demo_dataset) [] [a, b] = Inr [hex_digits 64 1, hex_digits 64 2]"
    by (simp add: ab demo_row_ok expected_utility_def hex_digits_eq_iff del: hex_digits.simps)
  have groups: "dvalues (group_by rr_request_group [a, b]) = [[a, b]]"
    by (simp add: group_by_def group_add_def dget_default_def demo_row_def ab)
  have checks: "run_checks (request_checks [a, b]) = Inr ()"
    by (simp add: run_checks_ok request_checks_def distinct_count_def dedup_def demo_row_def ab hex_digits_eq_iff)
  have times: "split_times [[a, b]] s = (if s = Train then [5] else [])" for s
    by (auto simp: split_times_def demo_row_def ab)
  have labels: "map rr_click_label [a, b] = [1, 0]" "map rr_utility_label [a, b] = [1, 0]"
    by (simp_all add: demo_row_def ab)
  show ?thesis
    unfolding validate_dataset_v2_def Let_def rows ids groups labels
    using checks by (simp add: times run_checks_Cons insert_commute)
qed


end
