(* ===== verification/RankingBuild.thy ===== *)
theory RankingBuild
  imports DatasetBuild DatasetValidate
begin

text \<open>
  \<open>build_ranking_samples_v2\<close> of \<open>ai_pipeline/build_dataset.py\<close>: the v2 ranking dataset, one row per
  impression that was verifiably seen, with its candidate article, its user's history before serving,
  and click and utility labels. The result is split, then validated; the lemmas show what a returned
  dataset rests on.
\<close>

section \<open>Articles and history\<close>

definition article_from_feature ::
    "pylib \<Rightarrow> article_feature \<Rightarrow> string \<Rightarrow> instant option \<Rightarrow> string option \<Rightarrow> string option \<Rightarrow> article_representation" where
  "article_from_feature lib f salt published_at language detector =
     \<lparr>art_group = hash_identity lib (af_post_id f) salt, art_type = ''post-content-embedding-v1'',
      art_encoder_version = Some (af_encoder_version f), art_content_hash = Some (af_content_hash f),
      art_embedding = Some (af_embedding f), art_source_updated_at = Some (af_source_updated_at f),
      art_computed_at = Some (af_computed_at f), art_category = None, art_subcategory = None, art_title = None,
      art_abstract = None, art_published_at = published_at, art_language = language,
      art_detector_version = detector\<rparr>"

definition article_without_feature ::
    "pylib \<Rightarrow> uuid \<Rightarrow> string \<Rightarrow> instant option \<Rightarrow> string option \<Rightarrow> string option \<Rightarrow> article_representation" where
  "article_without_feature lib post salt published_at language detector =
     \<lparr>art_group = hash_identity lib post salt, art_type = ''post-content-embedding-v1'',
      art_encoder_version = None, art_content_hash = None, art_embedding = None, art_source_updated_at = None,
      art_computed_at = None, art_category = None, art_subcategory = None, art_title = None,
      art_abstract = None, art_published_at = published_at, art_language = language,
      art_detector_version = detector\<rparr>"

definition ranking_history_of :: "pylib \<Rightarrow> string \<Rightarrow> nat \<times> history_entry \<Rightarrow> ranking_history_entry" where
  "ranking_history_of lib salt ix =
     (case ix of (index, x) \<Rightarrow>
       \<lparr>rh_article = article_from_feature lib
          \<lparr>af_id = he_event_id x, af_post_id = he_post_id x, af_encoder_version = he_encoder_version x,
           af_content_hash = he_content_hash x, af_embedding = he_embedding x,
           af_source_updated_at = he_source_updated_at x, af_computed_at = he_computed_at x\<rparr> salt None None None,
        rh_ordinal = index, rh_engaged_at = Some (he_engaged_at x), rh_provenance = ''oecophylla-click-v2''\<rparr>)"

definition candidate_features :: "(string, pyval) dict \<Rightarrow> article_feature list \<Rightarrow> article_feature list" where
  "candidate_features snapshot features =
     (if vget snapshot ''candidate_content_hash'' \<noteq> VNone
      then filter (\<lambda>f. VStr (af_content_hash f) = vget snapshot ''candidate_content_hash'' \<and>
                       VStr (af_encoder_version f) = vget snapshot ''candidate_encoder_version'') features
      else features)"

definition truthy_text :: "pylib \<Rightarrow> pyval \<Rightarrow> string option" where
  "truthy_text lib v = (if truthy v then Some (strip (py_str lib v)) else None)"

definition candidate_article ::
    "pylib \<Rightarrow> dataset_config \<Rightarrow> string \<Rightarrow> (uuid, article_feature list) dict \<Rightarrow> impression \<Rightarrow> instant \<Rightarrow> article_representation res" where
  "candidate_article lib config salt features_by_post i reference_at =
     (let snapshot = imp_snapshot i;
          feature = select_history_feature
            (candidate_features snapshot (dget_default features_by_post (imp_post_id i) [])) reference_at;
          language = map_option lower (truthy_text lib (vget snapshot ''content_language''));
          detector = truthy_text lib (vget snapshot ''language_detector_version'') in
      bind_res (optional_snapshot_datetime lib snapshot ''candidate_published_at'') (\<lambda>published_at.
        Inr (case feature of
               Some f \<Rightarrow> article_from_feature lib f salt published_at language detector
             | None \<Rightarrow> article_without_feature lib (imp_post_id i) salt published_at language detector)))"

section \<open>One row\<close>

definition salt_of :: "dataset_config \<Rightarrow> string" where
  "salt_of config = (case dc_hash_salt config of None \<Rightarrow> [] | Some s \<Rightarrow> s)"

text \<open>The time the serving context was observed, by default the time of serving.\<close>

definition reference_time :: "pylib \<Rightarrow> impression \<Rightarrow> instant res" where
  "reference_time lib i =
     bind_res (optional_snapshot_datetime lib (imp_snapshot i) ''preference_observed_at'') (\<lambda>observed.
       let reference_at = (case observed of Some t \<Rightarrow> t | None \<Rightarrow> imp_served_at i) in
       if reference_at > imp_served_at i then Inl (ValueError ''serving context must not be from the future'')
       else Inr reference_at)"

definition ranking_label ::
    "pylib \<Rightarrow> dataset_config \<Rightarrow> behavior_event list \<Rightarrow> (label_result \<times> int) res" where
  "ranking_label lib config label_events =
     bind_res (map_res (persisted_version lib) label_events) (\<lambda>versions.
     if set versions \<noteq> {''v2''}
     then Inl (ValueError ''recommendation dataset v2 requires only persisted label v2 events'')
     else bind_res (label_of_events lib config ''v2'' label_events) (\<lambda>label.
       case training_target label of
         None \<Rightarrow> Inl (ValueError ''recommendation dataset v2 requires finalized utility labels'')
       | Some target \<Rightarrow> Inr (label, target)))"

definition ranking_row_of ::
    "pylib \<Rightarrow> dataset_config \<Rightarrow> behavior_event list \<Rightarrow> article_feature list \<Rightarrow> impression \<Rightarrow> instant \<Rightarrow>
     behavior_event list \<Rightarrow> label_result \<Rightarrow> int \<Rightarrow> ranking_row res" where
  "ranking_row_of lib config evs features i visible_at label_events label target =
     (let salt = salt_of config; snapshot = imp_snapshot i in
      bind_res (reference_time lib i) (\<lambda>reference_at.
      bind_res (candidate_article lib config salt (group_by af_post_id features) i reference_at) (\<lambda>article.
      bind_res (snapshot_declared_topics lib snapshot) (\<lambda>topics.
      bind_res (optional_snapshot_datetime lib snapshot ''preference_observed_at'') (\<lambda>observed.
      bind_res (build_history_snapshot lib (imp_user_id i) reference_at evs features config) (\<lambda>h.
        Inr \<lparr>rr_sample_id = hash_identity lib (imp_id i) salt, rr_request_group = hmac_request_identity lib i salt,
             rr_candidate_group = hash_identity lib (imp_post_id i) salt, rr_split = Train,
             rr_served_at = imp_served_at i, rr_visible_at = visible_at, rr_position = imp_position i,
             rr_served = True, rr_visible = True,
             rr_click_label = (if list_ex (\<lambda>e. ev_event_type e = ''click'') label_events then 1 else 0),
             rr_utility_label = target, rr_utility_label_name = res_semantic label, rr_article = article,
             rr_history = map (ranking_history_of lib salt) (enumerate 0 (hs_entries h)),
             rr_feed_source = imp_feed_source i, rr_model_version = imp_model_version i,
             rr_source_format = ''oecophylla-telemetry-v2'', rr_dataset_scope = DATASET_V2_SCOPE,
             rr_audit_request_identity = canonical_request_identity i, rr_declared_topics = topics,
             rr_declared_topics_observed_at = observed\<rparr>))))))"

section \<open>All rows\<close>

record ranking_acc =
  ra_rows :: "ranking_row list"
  ra_without_visible :: nat
  ra_immature :: nat
  ra_unsupported :: nat

definition ranking_init :: ranking_acc where
  "ranking_init = \<lparr>ra_rows = [], ra_without_visible = 0, ra_immature = 0, ra_unsupported = 0\<rparr>"

definition ranking_step ::
    "pylib \<Rightarrow> dataset_config \<Rightarrow> behavior_event list \<Rightarrow> article_feature list \<Rightarrow> ranking_acc \<Rightarrow> impression \<Rightarrow> ranking_acc res" where
  "ranking_step lib config evs features acc i =
     (let linked = linked_events (events_by_impression config evs) i in
      case verified_exposure_at i linked of
        None \<Rightarrow> Inr (acc\<lparr>ra_without_visible := Suc (ra_without_visible acc)\<rparr>)
      | Some visible_at \<Rightarrow>
          let label_window_end = visible_at + label_window config in
          if label_window_end > dc_extraction_at config then Inr (acc\<lparr>ra_immature := Suc (ra_immature acc)\<rparr>)
          else if \<not> validate_snapshot (imp_snapshot i)
          then Inr (acc\<lparr>ra_unsupported := Suc (ra_unsupported acc)\<rparr>)
          else
            let label_events = events_between (imp_served_at i) label_window_end linked in
            bind_res (ranking_label lib config label_events) (\<lambda>(label, target).
            bind_res (ranking_row_of lib config evs features i visible_at label_events label target) (\<lambda>row.
              Inr (acc\<lparr>ra_rows := ra_rows acc @ [row]\<rparr>))))"

definition build_ranking_samples_v2 ::
    "pylib \<Rightarrow> impression list \<Rightarrow> behavior_event list \<Rightarrow> article_feature list \<Rightarrow> dataset_config \<Rightarrow>
     ranking_build_result res" where
  "build_ranking_samples_v2 lib impressions evs features config =
     (if dc_dataset_schema_version config \<noteq> ''v2''
      then Inl (ValueError ''build_ranking_samples_v2 requires dataset schema v2'')
      else bind_res (deduplicate imp_id impressions) (\<lambda>unique_impressions.
        bind_res (deduplicate ev_id evs) (\<lambda>unique_events.
        bind_res (deduplicate af_id features) (\<lambda>unique_features.
        let window = filter (in_query_window config) (dvalues unique_impressions) in
        bind_res (validate_request_envelopes window) (\<lambda>_.
        bind_res (fold_res (ranking_step lib config (dvalues unique_events) (dvalues unique_features)) ranking_init
                    (sort_key (\<lambda>i. (imp_served_at i, imp_position i, imp_id i)) window)) (\<lambda>acc.
        let result =
          \<lparr>rb_rows = split_ranking_rows (ra_rows acc) (dc_train_fraction config) (dc_validation_fraction config),
           rb_stats = \<lparr>bs_impressions_read = length impressions, bs_events_read = length evs,
             bs_served_without_visible = ra_without_visible acc, bs_immature_impressions = ra_immature acc,
             bs_unsupported_feature_schema = ra_unsupported acc\<rparr>,
           rb_expected_encoder_version = Some (dc_encoder_version config),
           rb_expected_embedding_dimension = Some (dc_encoder_dimension config)\<rparr> in
        bind_res (validate_dataset_v2 result) (\<lambda>_. Inr result)))))))"

section \<open>What a row rests on\<close>

text \<open>
  A row of impression \<open>i\<close>: seen after serving and mature at extraction, labelled only from the user's
  own timely v2 events on that impression between serving and the end of the label window, its history
  only of the user's v2 clicks before serving, and its identities only hashed.
\<close>

definition history_grounded ::
    "pylib \<Rightarrow> string \<Rightarrow> behavior_event list \<Rightarrow> impression \<Rightarrow> ranking_history_entry \<Rightarrow> bool" where
  "history_grounded lib salt evs i h \<longleftrightarrow>
     (\<exists>e\<in>set evs. ev_user_id e = imp_user_id i \<and> ev_event_type e = ''click'' \<and> persisted_version lib e = Inr ''v2'' \<and>
        rh_engaged_at h = Some (ev_occurred_at e) \<and> ev_occurred_at e < imp_served_at i \<and>
        (\<forall>t. ev_ingested_at e = Some t \<longrightarrow> t \<le> imp_served_at i) \<and>
        art_group (rh_article h) = hash_identity lib (ev_post_id e) salt)"

definition ranking_row_grounded ::
    "pylib \<Rightarrow> dataset_config \<Rightarrow> behavior_event list \<Rightarrow> impression \<Rightarrow> ranking_row \<Rightarrow> bool" where
  "ranking_row_grounded lib config evs i r \<longleftrightarrow>
     rr_served_at r = imp_served_at i \<and> rr_position r = imp_position i \<and>
     rr_sample_id r = hash_identity lib (imp_id i) (salt_of config) \<and>
     rr_request_group r = hmac_request_identity lib i (salt_of config) \<and>
     rr_served_at r \<le> rr_visible_at r \<and> rr_visible_at r + label_window config \<le> dc_extraction_at config \<and>
     (\<exists>label_events label.
        set label_events = {e \<in> set evs. timely config e \<and> ev_impression_id e = Some (imp_id i) \<and>
          ev_user_id e = imp_user_id i \<and> ev_post_id e = imp_post_id i \<and>
          rr_served_at r \<le> ev_occurred_at e \<and> ev_occurred_at e \<le> rr_visible_at r + label_window config} \<and>
        (\<forall>e\<in>set label_events. persisted_version lib e = Inr ''v2'') \<and>
        label_of_events lib config ''v2'' label_events = Inr label \<and>
        rr_utility_label_name r = res_semantic label \<and> training_target label = Some (rr_utility_label r) \<and>
        rr_click_label r = (if \<exists>e\<in>set label_events. ev_event_type e = ''click'' then 1 else 0)) \<and>
     (\<forall>h\<in>set (rr_history r). history_grounded lib (salt_of config) evs i h)"

lemma linked_events_set:
  "set (linked_events (events_by_impression config evs) i) =
     {e \<in> set evs. timely config e \<and> ev_impression_id e = Some (imp_id i) \<and>
        ev_user_id e = imp_user_id i \<and> ev_post_id e = imp_post_id i}"
proof (intro equalityI subsetI)
  fix e assume e: "e \<in> {e \<in> set evs. timely config e \<and> ev_impression_id e = Some (imp_id i) \<and>
        ev_user_id e = imp_user_id i \<and> ev_post_id e = imp_post_id i}"
  then have "imp_id i \<in> (\<lambda>e. the (ev_impression_id e)) ` set (filter (\<lambda>e. ev_impression_id e \<noteq> None \<and> timely config e) evs)"
    by force
  with e show "e \<in> set (linked_events (events_by_impression config evs) i)"
    by (auto simp: linked_events_def events_by_impression_def dget_default_def dget_group_by)
qed (auto dest: linked_events_in)

lemma history_snapshot_grounded:
  assumes "build_history_snapshot lib (imp_user_id i) reference_at evs features config = Inr snap"
    and "reference_at \<le> imp_served_at i"
    and "h \<in> set (map (ranking_history_of lib salt) (enumerate 0 (hs_entries snap)))"
  shows "history_grounded lib salt evs i h"
proof -
  obtain n where n: "n < length (hs_entries snap)" and hn: "h = ranking_history_of lib salt (n, hs_entries snap ! n)"
    using assms(3) by (auto simp: in_set_enumerate_eq)
  define x where "x = hs_entries snap ! n"
  have x: "x \<in> set (hs_entries snap)" and h: "h = ranking_history_of lib salt (n, x)"
    using n hn by (simp_all add: x_def)
  from build_history_entry[OF assms(1) x] obtain e f where e: "e \<in> set evs" "x = history_entry_of e f"
    "ev_user_id e = imp_user_id i" "ev_event_type e = ''click''" "persisted_version lib e = Inr ''v2''"
    "ev_occurred_at e < reference_at" "\<forall>t. ev_ingested_at e = Some t \<longrightarrow> t \<le> reference_at" by blast
  then show ?thesis using assms(2)
    by (force simp: history_grounded_def h ranking_history_of_def article_from_feature_def history_entry_of_def
        intro!: bexI[of _ e])
qed

lemma reference_time_le: "reference_time lib i = Inr t \<Longrightarrow> t \<le> imp_served_at i"
  by (auto simp: reference_time_def Let_def split: if_splits)

lemma ranking_row_fields:
  assumes "ranking_row_of lib config evs features i v le label target = Inr r"
  shows "rr_served_at r = imp_served_at i \<and> rr_position r = imp_position i \<and> rr_visible_at r = v \<and>
      rr_sample_id r = hash_identity lib (imp_id i) (salt_of config) \<and>
      rr_request_group r = hmac_request_identity lib i (salt_of config) \<and>
      rr_utility_label_name r = res_semantic label \<and> rr_utility_label r = target \<and>
      rr_click_label r = (if \<exists>e\<in>set le. ev_event_type e = ''click'' then 1 else 0) \<and>
      (\<forall>h\<in>set (rr_history r). history_grounded lib (salt_of config) evs i h)"
proof -
  from assms obtain t snap art topics observed where ref: "reference_time lib i = Inr t"
    and snap: "build_history_snapshot lib (imp_user_id i) t evs features config = Inr snap"
    and r: "r = \<lparr>rr_sample_id = hash_identity lib (imp_id i) (salt_of config),
      rr_request_group = hmac_request_identity lib i (salt_of config),
      rr_candidate_group = hash_identity lib (imp_post_id i) (salt_of config), rr_split = Train,
      rr_served_at = imp_served_at i, rr_visible_at = v, rr_position = imp_position i, rr_served = True,
      rr_visible = True, rr_click_label = (if list_ex (\<lambda>e. ev_event_type e = ''click'') le then 1 else 0),
      rr_utility_label = target, rr_utility_label_name = res_semantic label, rr_article = art,
      rr_history = map (ranking_history_of lib (salt_of config)) (enumerate 0 (hs_entries snap)),
      rr_feed_source = imp_feed_source i, rr_model_version = imp_model_version i,
      rr_source_format = ''oecophylla-telemetry-v2'', rr_dataset_scope = DATASET_V2_SCOPE,
      rr_audit_request_identity = canonical_request_identity i, rr_declared_topics = topics,
      rr_declared_topics_observed_at = observed\<rparr>"
    unfolding ranking_row_of_def Let_def by (elim bind_resE) blast
  have "\<forall>h\<in>set (rr_history r). history_grounded lib (salt_of config) evs i h"
    using history_snapshot_grounded[OF snap reference_time_le[OF ref]] by (simp add: r)
  then show ?thesis by (simp add: r list_ex_iff)
qed

definition ranking_total :: "ranking_acc \<Rightarrow> nat" where
  "ranking_total acc = length (ra_rows acc) + ra_without_visible acc + ra_immature acc + ra_unsupported acc"

lemma ranking_step_result:
  assumes "ranking_step lib config evs features acc i = Inr acc'"
  shows "ranking_total acc' = Suc (ranking_total acc) \<and>
    (ra_rows acc' = ra_rows acc \<or> (\<exists>r. ra_rows acc' = ra_rows acc @ [r] \<and> ranking_row_grounded lib config evs i r))"
proof (cases "verified_exposure_at i (linked_events (events_by_impression config evs) i)")
  case None
  then show ?thesis using assms by (auto simp: ranking_step_def ranking_total_def)
next
  case (Some v)
  let ?linked = "linked_events (events_by_impression config evs) i"
  show ?thesis
  proof (cases "v + label_window config > dc_extraction_at config \<or> \<not> validate_snapshot (imp_snapshot i)")
    case True
    then show ?thesis using assms Some by (auto simp: ranking_step_def ranking_total_def Let_def split: if_splits)
  next
    case False
    let ?le = "events_between (imp_served_at i) (v + label_window config) ?linked"
    obtain label target row where lab: "ranking_label lib config ?le = Inr (label, target)"
      and row: "ranking_row_of lib config evs features i v ?le label target = Inr row"
      and acc': "acc' = acc\<lparr>ra_rows := ra_rows acc @ [row]\<rparr>"
      using assms Some False by (auto simp: ranking_step_def Let_def split: if_splits)
    note f = ranking_row_fields[OF row]
    have vis: "rr_visible_at row = v" using f by blast
    obtain versions where versions: "map_res (persisted_version lib) ?le = Inr versions" "set versions = {''v2''}"
      and l: "label_of_events lib config ''v2'' ?le = Inr label" "training_target label = Some target"
      using lab by (auto simp: ranking_label_def split: if_splits option.splits)
    have v2: "\<forall>e\<in>set ?le. persisted_version lib e = Inr ''v2''"
    proof
      fix e assume "e \<in> set ?le"
      from map_res_value[OF versions(1) this] show "persisted_version lib e = Inr ''v2''" by (simp add: versions(2))
    qed
    have le: "set ?le = {e \<in> set evs. timely config e \<and> ev_impression_id e = Some (imp_id i) \<and>
          ev_user_id e = imp_user_id i \<and> ev_post_id e = imp_post_id i \<and>
          rr_served_at row \<le> ev_occurred_at e \<and> ev_occurred_at e \<le> rr_visible_at row + label_window config}"
      by (rule set_eqI) (simp add: events_between_def linked_events_set f[THEN conjunct1] vis)
    obtain e where "imp_served_at i \<le> v" using Some by (rule verified_exposure_event)
    then have "ranking_row_grounded lib config evs i row"
      unfolding ranking_row_grounded_def using f v2 l False
      by (intro conjI exI[of _ ?le] exI[of _ label]) (rule le | simp add: not_less)+
    with acc' show ?thesis by (auto simp: ranking_total_def)
  qed
qed

lemma ranking_fold_result:
  assumes "fold_res (ranking_step lib config evs features) ranking_init is = Inr acc"
  shows "ranking_total acc = length is \<and>
    (\<forall>r\<in>set (ra_rows acc). \<exists>i\<in>set is. ranking_row_grounded lib config evs i r)"
  using assms
proof (induction "is" arbitrary: acc rule: rev_induct)
  case Nil
  then have "acc = ranking_init" by simp
  then show ?case by (simp add: ranking_init_def ranking_total_def)
next
  case (snoc i "is")
  obtain acc0 where acc0: "fold_res (ranking_step lib config evs features) ranking_init is = Inr acc0"
    and step: "ranking_step lib config evs features acc0 i = Inr acc"
    using snoc.prems by (auto simp: fold_res_snoc)
  from snoc.IH[OF acc0] ranking_step_result[OF step] show ?case by auto
qed

lemma build_ranking_cases:
  assumes "build_ranking_samples_v2 lib impressions evs features config = Inr result"
  obtains ui ue uf acc report where
    "deduplicate imp_id impressions = Inr ui" "deduplicate ev_id evs = Inr ue" "deduplicate af_id features = Inr uf"
    "fold_res (ranking_step lib config (dvalues ue) (dvalues uf)) ranking_init
       (sort_key (\<lambda>i. (imp_served_at i, imp_position i, imp_id i)) (filter (in_query_window config) (dvalues ui))) = Inr acc"
    "validate_dataset_v2 result = Inr report"
    "rb_rows result = split_ranking_rows (ra_rows acc) (dc_train_fraction config) (dc_validation_fraction config)"
    "bs_served_without_visible (rb_stats result) = ra_without_visible acc"
    "bs_immature_impressions (rb_stats result) = ra_immature acc"
    "bs_unsupported_feature_schema (rb_stats result) = ra_unsupported acc"
proof -
  have "dc_dataset_schema_version config = ''v2''"
    using assms by (auto simp: build_ranking_samples_v2_def split: if_splits)
  with assms show thesis
    unfolding build_ranking_samples_v2_def Let_def
    by (simp only: simp_thms if_False) (elim bind_resE, auto intro: that)
qed

lemma grounded_split [simp]:
  "ranking_row_grounded lib config evs i (rr_with_split r s) = ranking_row_grounded lib config evs i r"
  by (simp add: ranking_row_grounded_def rr_with_split_def)

lemma grounded_events:
  assumes "set evs = set evs'"
  shows "ranking_row_grounded lib config evs i r = ranking_row_grounded lib config evs' i r"
  by (simp add: ranking_row_grounded_def history_grounded_def assms)

text \<open>
  C10. A v2 dataset that is returned was validated and grounded: it satisfies the dataset contract;
  every impression of the query window is accounted for once, as a row or an exclusion; and every row
  comes from an impression of the window, is labelled exactly from its user's timely v2 events on it
  between serving and the end of the label window, and carries only history from before serving.
\<close>

theorem build_ranking_grounded:
  assumes "build_ranking_samples_v2 lib impressions evs features config = Inr result"
  shows "dataset_contract (rb_rows result) \<and>
    length (rb_rows result) + bs_served_without_visible (rb_stats result) +
      bs_immature_impressions (rb_stats result) + bs_unsupported_feature_schema (rb_stats result) =
      card {i \<in> set impressions. in_query_window config i} \<and>
    (\<forall>r\<in>set (rb_rows result). \<exists>i\<in>set impressions. in_query_window config i \<and> ranking_row_grounded lib config evs i r)"
  using assms
proof (cases rule: build_ranking_cases)
  case (1 ui ue uf acc report)
  note ui = deduplicate_values[OF 1(1)] and ue = deduplicate_values[OF 1(2)]
  let ?is = "sort_key (\<lambda>i. (imp_served_at i, imp_position i, imp_id i)) (filter (in_query_window config) (dvalues ui))"
  note fold = ranking_fold_result[OF 1(4)]
  have sound: "split_sound rr_audit_request_identity rr_served_at rr_split rr_with_split (ra_rows acc) (rb_rows result)"
    unfolding 1(6) by (rule split_ranking_rows_ok)
  have "length ?is = card {i \<in> set impressions. in_query_window config i}"
  proof -
    have "distinct (filter (in_query_window config) (dvalues ui))" using ui(3) by simp
    from distinct_card[OF this] ui(1) show ?thesis by simp
  qed
  moreover have "\<exists>i\<in>set impressions. in_query_window config i \<and> ranking_row_grounded lib config evs i r"
    if r: "r \<in> set (rb_rows result)" for r
  proof -
    obtain s where s: "s \<in> set (ra_rows acc)" "rr_with_split r Train = rr_with_split s Train"
      using split_sound_grounded[OF sound r] .
    obtain i where i: "i \<in> set ?is" "ranking_row_grounded lib config (dvalues ue) i s" using fold s(1) by blast
    have "ranking_row_grounded lib config evs i r"
      using i(2) s(2) grounded_events[OF ue(1)] by (metis grounded_split)
    with i(1) ui(1) show ?thesis by auto
  qed
  moreover have "dataset_contract (rb_rows result)" using validate_contract_rows[OF 1(5)] .
  ultimately show ?thesis using fold split_sound_length[OF sound] 1(7-9) by (simp add: ranking_total_def)
qed

section \<open>A dataset that is built\<close>

definition rk_lib :: pylib where
  "rk_lib = clock_lib\<lparr>sha256_hex := (\<lambda>s. hex_digits 64 (of_char (last s))), hmac_sha256_hex := (\<lambda>k s. hex_digits 64 1)\<rparr>"

definition rk_config :: dataset_config where
  "rk_config = demo_config\<lparr>dc_dataset_schema_version := ''v2'', dc_encoder_dimension := 1\<rparr>"

definition rk_impression :: "uuid \<Rightarrow> uuid \<Rightarrow> impression" where
  "rk_impression i p = \<lparr>imp_id = i, imp_request_id = 7, imp_user_id = 9, imp_post_id = p, imp_position = uint i,
     imp_feed_source = ''for_you'', imp_model_version = ''m'', imp_snapshot = demo_snapshot, imp_served_at = 5\<rparr>"

definition rk_event :: "uuid \<Rightarrow> uuid \<Rightarrow> string \<Rightarrow> behavior_event" where
  "rk_event i p ty = \<lparr>ev_id = i, ev_impression_id = Some i, ev_user_id = 9, ev_post_id = p,
     ev_event_type = ty, ev_dwell_ms = None, ev_occurred_at = 10, ev_ingested_at = None,
     ev_event_version = Some ''v2'', ev_metadata = None\<rparr>"

definition rk_feature :: "uuid \<Rightarrow> article_feature" where
  "rk_feature p = \<lparr>af_id = p, af_post_id = p, af_encoder_version = PINNED_ENCODER_VERSION,
     af_content_hash = hex_digits 64 10, af_embedding = [1], af_source_updated_at = 0, af_computed_at = 0\<rparr>"

definition rk_row :: "uuid \<Rightarrow> uuid \<Rightarrow> int \<Rightarrow> semantic \<Rightarrow> ranking_row" where
  "rk_row i p target semantic =
     \<lparr>rr_sample_id = hash_identity rk_lib i ''s'', rr_request_group = hex_digits 64 1,
      rr_candidate_group = hash_identity rk_lib p ''s'', rr_split = Train, rr_served_at = 5, rr_visible_at = 10,
      rr_position = uint i, rr_served = True, rr_visible = True, rr_click_label = target, rr_utility_label = target,
      rr_utility_label_name = semantic, rr_article = article_from_feature rk_lib (rk_feature p) ''s'' None None None,
      rr_history = [], rr_feed_source = ''for_you'', rr_model_version = ''m'',
      rr_source_format = ''oecophylla-telemetry-v2'', rr_dataset_scope = DATASET_V2_SCOPE,
      rr_audit_request_identity = str_uuid 9 @ '':'' @ str_uuid 7, rr_declared_topics = [],
      rr_declared_topics_observed_at = None\<rparr>"

lemma last_str_uuid: "str_uuid u \<noteq> [] \<and> last (str_uuid u) = digit_char (unat u mod 16)"
proof -
  have "hex_digits (Suc 31) n = hex_digits 31 (n div 16) @ [digit_char (n mod 16)]" for n
    by (rule hex_digits.simps(2))
  moreover have "Suc 31 = 32" by simp
  ultimately have "uuid_hex u = hex_digits 31 (unat u div 16) @ [digit_char (unat u mod 16)]"
    by (simp only: uuid_hex_def)
  then have "drop 20 (uuid_hex u) = drop 20 (hex_digits 31 (unat u div 16)) @ [digit_char (unat u mod 16)]"
    by (simp only: drop_append length_hex_digits) simp
  then show ?thesis by (simp add: str_uuid_def Let_def)
qed

lemma rk_hash: "hash_identity rk_lib u ''s'' = hex_digits 64 (of_char (digit_char (unat u mod 16)))"
  using last_str_uuid[of u] by (simp add: hash_identity_def rk_lib_def del: hex_digits.simps)

lemma rk_mapping:
  "event_mapping (event_object (rk_event i p ty)) [] =
     [(''event_id'', VUuid i), (''event_type'', VStr ty), (''event_version'', VStr ''v2''),
      (''occurred_at'', time_val 10)]"
  by (simp add: event_object_def rk_event_def object_fields_def vget_def opt_val_def time_val_def)

lemma rk_version: "persisted_version rk_lib (rk_event i p ty) = Inr ''v2''"
  by (simp add: persisted_version_def event_label_version_def event_object_def rk_event_def opt_val_def vget_def)

lemmas label_evaluation =
  derive_label_def dedup_events_def dedup_init_def dedup_step_def sort_events_def sorted_res_def event_sort_key_def
  label_init_def label_step_def apply_event_type_def label_candidates_def active_flag_def target_of_def
  event_id_text_def event_type_of_def event_duration_def qualifies_read_def vget_def dget_default_def meta_get_def
  add_irreversible_def dget_label_reversals find_PRECEDENCE time_val_def

lemma rk_label_click:
  "\<exists>label. label_of_events rk_lib rk_config ''v2'' [rk_event i p ''click''] = Inr label \<and>
     res_semantic label = Click \<and> training_target label = Some 1"
  by (simp add: label_of_events_def rk_mapping rk_config_def demo_config_def label_evaluation)

lemma rk_label_seen:
  "\<exists>label. label_of_events rk_lib rk_config ''v2'' [rk_event i p ''visible''] = Inr label \<and>
     res_semantic label = Negative \<and> training_target label = Some 0"
  by (simp add: label_of_events_def rk_mapping rk_config_def demo_config_def label_evaluation)

lemma rk_label:
  assumes "ty = ''click'' \<and> s = Click \<and> t = 1 \<or> ty = ''visible'' \<and> s = Negative \<and> t = 0"
  shows "\<exists>label. ranking_label rk_lib rk_config [rk_event i p ty] = Inr (label, t) \<and> res_semantic label = s"
proof -
  obtain label where "label_of_events rk_lib rk_config ''v2'' [rk_event i p ty] = Inr label"
    "res_semantic label = s" "training_target label = Some t"
    using rk_label_click[of i p] rk_label_seen[of i p] assms by blast
  then show ?thesis by (simp add: ranking_label_def rk_version)
qed

definition rk_events :: "behavior_event list" where
  "rk_events = [rk_event 1 3 ''click'', rk_event 2 4 ''visible'']"

definition rk_features :: "article_feature list" where
  "rk_features = [rk_feature 3, rk_feature 4]"

lemma rk_fields [simp]:
  "ev_id (rk_event i p ty) = i" "ev_user_id (rk_event i p ty) = 9" "ev_post_id (rk_event i p ty) = p"
  "ev_event_type (rk_event i p ty) = ty" "ev_occurred_at (rk_event i p ty) = 10"
  "ev_ingested_at (rk_event i p ty) = None" "ev_impression_id (rk_event i p ty) = Some i"
  "af_id (rk_feature p) = p" "af_post_id (rk_feature p) = p" "af_source_updated_at (rk_feature p) = 0"
  "af_computed_at (rk_feature p) = 0" "imp_id (rk_impression i p) = i" "imp_user_id (rk_impression i p) = 9"
  "imp_post_id (rk_impression i p) = p" "imp_served_at (rk_impression i p) = 5"
  "imp_snapshot (rk_impression i p) = demo_snapshot" "imp_position (rk_impression i p) = uint i"
  "imp_feed_source (rk_impression i p) = ''for_you''" "imp_model_version (rk_impression i p) = ''m''"
  "canonical_request_identity (rk_impression i p) = str_uuid 9 @ '':'' @ str_uuid 7"
  by (simp_all add: rk_event_def rk_feature_def rk_impression_def canonical_request_identity_def)

lemma rk_config_fields [simp]:
  "dc_history_recent_limit rk_config = 20" "dc_history_long_term_limit rk_config = 30" "salt_of rk_config = ''s''"
  "dc_dataset_schema_version rk_config = ''v2''" "dc_encoder_version rk_config = PINNED_ENCODER_VERSION"
  "dc_encoder_dimension rk_config = 1" "label_window rk_config = 24 * us_per_hour" "dc_extraction_at rk_config = 100000000000000"
  "in_query_window rk_config (rk_impression i p)"
  by (simp_all add: rk_config_def demo_config_def salt_of_def label_window_def hours_us_def dc_extraction_at_def
      in_query_window_def dc_start_at_def dc_end_at_def)

lemma rk_unique:
  "deduplicate af_id rk_features = Inr [(3, rk_feature 3), (4, rk_feature 4)]"
  "deduplicate ev_id rk_events = Inr [(1, rk_event 1 3 ''click''), (2, rk_event 2 4 ''visible'')]"
  "deduplicate imp_id [rk_impression 1 3, rk_impression 2 4] = Inr [(1, rk_impression 1 3), (2, rk_impression 2 4)]"
  by (simp_all add: deduplicate_def deduplicate_step_def rk_features_def rk_events_def)

lemma rk_history:
  "build_history_snapshot rk_lib 9 5 rk_events rk_features rk_config =
     Inr \<lparr>hs_user_id = 9, hs_reference_at = 5, hs_entries = []\<rparr>"
proof -
  have "history_events rk_lib 9 5 rk_events 50 = Inr []"
    by (simp add: history_events_def rk_events_def qualifies_for_history_def rk_version last_n_def)
  moreover have "history_total_limit rk_config = Inr 50" by (simp add: history_total_limit_def)
  ultimately show ?thesis by (simp add: build_history_snapshot_def rk_unique List.map_filter_def)
qed

lemma rk_snapshot:
  "vget demo_snapshot ''content_language'' = VNone" "vget demo_snapshot ''declared_topics'' = VNone"
  "vget demo_snapshot ''language_detector_version'' = VNone" "vget demo_snapshot ''candidate_content_hash'' = VNone"
  "vget demo_snapshot ''preference_observed_at'' = VNone" "vget demo_snapshot ''candidate_published_at'' = VNone"
  by (simp_all add: demo_snapshot_def vget_def)

lemma rk_article:
  assumes "p \<in> {3, 4}"
  shows "candidate_article rk_lib rk_config ''s'' (group_by af_post_id rk_features) (rk_impression i p) 5 =
    Inr (article_from_feature rk_lib (rk_feature p) ''s'' None None None)"
proof -
  have "dget_default (group_by af_post_id rk_features) p [] = [rk_feature p]"
    using assms by (auto simp: dget_default_def dget_group_by rk_features_def)
  then show ?thesis
    by (simp add: candidate_article_def rk_snapshot candidate_features_def select_history_feature_def
        optional_snapshot_datetime_def py_optional_def truthy_text_def Let_def)
qed

lemma rk_row_of:
  assumes "res_semantic label = s" "p \<in> {3, 4}" "ty = ''click'' \<and> t = 1 \<or> ty = ''visible'' \<and> t = 0"
  shows "ranking_row_of rk_lib rk_config rk_events rk_features (rk_impression i p) 10 [rk_event i p ty] label t =
    Inr (rk_row i p t s)"
proof -
  have "reference_time rk_lib (rk_impression i p) = Inr 5"
    by (simp add: reference_time_def optional_snapshot_datetime_def rk_snapshot py_optional_def)
  moreover have "hmac_request_identity rk_lib (rk_impression i p) ''s'' = hex_digits 64 1"
    by (simp add: hmac_request_identity_def rk_lib_def del: hex_digits.simps)
  moreover have "snapshot_declared_topics rk_lib demo_snapshot = Inr []"
    by (simp add: snapshot_declared_topics_def rk_snapshot py_or_def)
  ultimately show ?thesis
    using assms(1,3) rk_history rk_article[OF assms(2)]
    by (auto simp: ranking_row_of_def rk_row_def optional_snapshot_datetime_def rk_snapshot py_optional_def Let_def
        simp del: hex_digits.simps)
qed

lemma rk_step:
  assumes "(i, p, ty, s, t) \<in> {(1, 3, ''click'', Click, 1), (2, 4, ''visible'', Negative, 0)}"
  shows "ranking_step rk_lib rk_config rk_events rk_features acc (rk_impression i p) =
    Inr (acc\<lparr>ra_rows := ra_rows acc @ [rk_row i p t s]\<rparr>)"
proof -
  have linked: "linked_events (events_by_impression rk_config rk_events) (rk_impression i p) = [rk_event i p ty]"
    using assms by (auto simp: linked_events_def events_by_impression_def dget_default_def dget_group_by rk_events_def timely_def)
  have seen: "verified_exposure_at (rk_impression i p) [rk_event i p ty] = Some 10"
    using assms by (auto simp: verified_exposure_at_def)
  have between: "events_between 5 86400000010 [rk_event i p ty] = [rk_event i p ty]" by (simp add: events_between_def)
  obtain label where label: "ranking_label rk_lib rk_config [rk_event i p ty] = Inr (label, t)" "res_semantic label = s"
    using rk_label[of ty s t i p] assms by auto
  have row: "ranking_row_of rk_lib rk_config rk_events rk_features (rk_impression i p) 10 [rk_event i p ty] label t =
      Inr (rk_row i p t s)"
    using assms by (intro rk_row_of[OF label(2)]) auto
  show ?thesis
    by (simp add: ranking_step_def linked seen between label(1) row us_per_hour_def us_per_second_def)
qed

definition rk_rows :: "ranking_row list" where
  "rk_rows = [rk_row 1 3 1 Click, rk_row 2 4 0 Negative]"

definition rk_result :: ranking_build_result where
  "rk_result =
     \<lparr>rb_rows = rk_rows, rb_stats = \<lparr>bs_impressions_read = 2, bs_events_read = 2, bs_served_without_visible = 0,
        bs_immature_impressions = 0, bs_unsupported_feature_schema = 0\<rparr>,
      rb_expected_encoder_version = Some PINNED_ENCODER_VERSION, rb_expected_embedding_dimension = Some 1\<rparr>"

lemma rk_split: "split_ranking_rows rk_rows a b = rk_rows"
proof -
  have "group_by rr_audit_request_identity rk_rows = [(str_uuid 9 @ '':'' @ str_uuid 7, rk_rows)]"
    by (simp add: group_by_def group_add_def dget_default_def rk_rows_def rk_row_def)
  then have "ordered_groups rr_audit_request_identity rr_served_at rk_rows = [rk_rows]"
    by (simp add: ordered_groups_def)
  then show ?thesis by (simp add: split_ranking_rows_def rr_with_split_def rk_rows_def rk_row_def)
qed

lemma hex_digits_nonempty: "hex_digits (Suc w) n \<noteq> []"
  by simp

lemma rk_article_ok:
  "validate_article_representation (article_from_feature rk_lib (rk_feature p) ''s'' None None None)
     (Some PINNED_ENCODER_VERSION) (Some 1) (Some 5) = Inr ()"
  using is_private_hash_hex[of 10] hex_digits_nonempty[of 63 10]
  by (simp add: validate_article_representation_def article_common_checks_def embedded_article_checks_def
      article_from_feature_def rk_feature_def run_checks_Cons later_than_def opt_text_def opt_blank_def unit_norm_def
      PINNED_ENCODER_VERSION_def del: hex_digits.simps)

lemma rk_row_private: "\<not> contains_forbidden_identity_key (VMap (ranking_row_record (rk_row i p t s)))"
  by (simp add: ranking_row_record_def rk_row_def article_from_feature_def article_record_def forbidden_keys_def
      opt_val_def time_val_def rk_feature_def del: hex_digits.simps)

lemma rk_row_ok:
  assumes "hash_identity rk_lib i ''s'' \<notin> set ids" "t \<in> {0, 1}" "expected_utility s = Some t"
  shows "validate_row rk_result ids (rk_row i p t s) = Inr (ids @ [hash_identity rk_lib i ''s''])"
proof -
  have r: "rr_sample_id (rk_row i p t s) = hash_identity rk_lib i ''s''" "rr_history (rk_row i p t s) = []"
    "rr_article (rk_row i p t s) = article_from_feature rk_lib (rk_feature p) ''s'' None None None"
    "rr_served_at (rk_row i p t s) = 5" by (simp_all add: rk_row_def)
  have hash: "is_private_hash (hash_identity rk_lib u ''s'')" for u by (simp only: rk_hash is_private_hash_hex)
  have "run_checks (row_head_checks ids (rk_row i p t s)) = Inr ()"
    using assms hash is_private_hash_hex[of 1]
    by (simp add: run_checks_ok row_head_checks_def rk_row_def article_from_feature_def del: hex_digits.simps)
  moreover have "run_checks (topic_checks (rk_row i p t s)) = Inr ()"
    by (simp add: run_checks_ok topic_checks_def rk_row_def later_than_def)
  moreover have "rb_expected_encoder_version rk_result = Some PINNED_ENCODER_VERSION"
    "rb_expected_embedding_dimension rk_result = Some 1"
    by (simp_all add: rk_result_def)
  ultimately show ?thesis
    using rk_row_private[of i p t s]
    by (simp add: validate_row_def r rk_article_ok history_times_ordered_def del: contains_forbidden_identity_key.simps)
qed

lemma rk_result_ok: "\<exists>report. validate_dataset_v2 rk_result = Inr report"
proof -
  define a b where ab: "a = rk_row 1 3 1 Click" "b = rk_row 2 4 0 Negative"
  have rows: "rb_rows rk_result = [a, b]" by (simp add: rk_result_def rk_rows_def ab)
  have h: "hash_identity rk_lib 2 ''s'' \<noteq> hash_identity rk_lib 1 ''s''"
    "hash_identity rk_lib 4 ''s'' \<noteq> hash_identity rk_lib 3 ''s''"
    unfolding rk_hash by (simp_all add: hex_digits_eq_iff of_char_digit_char del: hex_digits.simps)
  have ids: "fold_res (validate_row rk_result) [] [a, b] = Inr [hash_identity rk_lib 1 ''s'', hash_identity rk_lib 2 ''s'']"
    using h by (simp add: ab rk_row_ok expected_utility_def)
  have groups: "dvalues (group_by rr_request_group [a, b]) = [[a, b]]"
    by (simp add: group_by_def group_add_def dget_default_def rk_row_def ab)
  have checks: "run_checks (request_checks [a, b]) = Inr ()"
    using h by (simp add: run_checks_ok request_checks_def distinct_count_def dedup_def rk_row_def ab)
  have times: "split_times [[a, b]] s = (if s = Train then [5] else [])" for s
    by (auto simp: split_times_def rk_row_def ab)
  have labels: "map rr_click_label [a, b] = [1, 0]" "map rr_utility_label [a, b] = [1, 0]"
    by (simp_all add: rk_row_def ab)
  show ?thesis
    unfolding validate_dataset_v2_def Let_def rows ids groups labels
    using checks by (simp add: times run_checks_Cons insert_commute)
qed

lemma rk_build:
  "build_ranking_samples_v2 rk_lib [rk_impression 1 3, rk_impression 2 4] rk_events rk_features rk_config = Inr rk_result"
proof -
  have envs: "validate_request_envelopes [rk_impression 1 3, rk_impression 2 4] = Inr ()"
    by (simp add: validate_request_envelopes_def envelope_step_def Let_def)
  have rows: "fold_res (ranking_step rk_lib rk_config rk_events rk_features) ranking_init [rk_impression 1 3, rk_impression 2 4] =
      Inr (ranking_init\<lparr>ra_rows := rk_rows\<rparr>)"
    by (simp add: rk_step rk_rows_def ranking_init_def)
  have vals: "dvalues [(1, rk_event 1 3 ''click''), (2, rk_event 2 4 ''visible'')] = rk_events"
    "dvalues [(3, rk_feature 3), (4, rk_feature 4)] = rk_features" "length rk_events = 2"
    by (simp_all add: rk_events_def rk_features_def)
  have window: "filter (in_query_window rk_config) [rk_impression 1 3, rk_impression 2 4] = [rk_impression 1 3, rk_impression 2 4]"
    and sorted: "sort_key (\<lambda>i. (imp_served_at i, imp_position i, imp_id i)) [rk_impression 1 3, rk_impression 2 4] =
      [rk_impression 1 3, rk_impression 2 4]" by simp_all
  have result: "\<lparr>rb_rows = split_ranking_rows (ra_rows (ranking_init\<lparr>ra_rows := rk_rows\<rparr>)) a b,
      rb_stats = \<lparr>bs_impressions_read = length [rk_impression 1 3, rk_impression 2 4], bs_events_read = length rk_events,
        bs_served_without_visible = ra_without_visible (ranking_init\<lparr>ra_rows := rk_rows\<rparr>),
        bs_immature_impressions = ra_immature (ranking_init\<lparr>ra_rows := rk_rows\<rparr>),
        bs_unsupported_feature_schema = ra_unsupported (ranking_init\<lparr>ra_rows := rk_rows\<rparr>)\<rparr>,
      rb_expected_encoder_version = Some (dc_encoder_version rk_config),
      rb_expected_embedding_dimension = Some (dc_encoder_dimension rk_config)\<rparr> = rk_result" for a b
    by (simp add: rk_result_def rk_split ranking_init_def vals)
  have impressions: "dvalues [(1, rk_impression 1 3), (2, rk_impression 2 4)] = [rk_impression 1 3, rk_impression 2 4]"
    by simp
  obtain report where "validate_dataset_v2 rk_result = Inr report" using rk_result_ok by blast
  then show ?thesis
    unfolding build_ranking_samples_v2_def rk_unique bind_res.simps Let_def impressions vals(1,2) window sorted envs rows result
    by simp
qed

theorem build_ranking_grounded_witness:
  "dataset_contract (rb_rows rk_result) \<and> length (rb_rows rk_result) = 2 \<and>
   (\<exists>i\<in>{rk_impression 1 3, rk_impression 2 4}. ranking_row_grounded rk_lib rk_config rk_events i (rk_row 1 3 1 Click))"
proof -
  have "rb_rows rk_result = rk_rows" "rk_row 1 3 1 Click \<in> set rk_rows" "length rk_rows = 2"
    by (simp_all add: rk_result_def rk_rows_def)
  with build_ranking_grounded[OF rk_build] show ?thesis by auto
qed

end
