(* ===== verification/Metrics.thy ===== *)
theory Metrics
  imports Prelude
begin

text \<open>
  \<open>recommendation_api/app/metrics.py\<close>: ranking metrics over one request. Python's floats are exact
  reals here; every \<open>ValueError\<close> is a branch. The lemmas bound each metric and characterise the pairwise
  AUC and the normalised gain.
\<close>

section \<open>Metrics at a cutoff\<close>

definition validate_k :: "int \<Rightarrow> unit res" where
  "validate_k k = (if k \<le> 0 then Inl (ValueError ''k must be positive'') else Inr ())"

definition precision_at_k :: "'a list \<Rightarrow> 'a set \<Rightarrow> int \<Rightarrow> real res" where
  "precision_at_k ranked relevant k =
     bind_res (validate_k k) (\<lambda>_.
       Inr (real (length (filter (\<lambda>x. x \<in> relevant) (take (nat k) ranked))) / of_int k))"

definition recall_at_k :: "'a list \<Rightarrow> 'a set \<Rightarrow> int \<Rightarrow> real res" where
  "recall_at_k ranked relevant k =
     bind_res (validate_k k) (\<lambda>_.
       if relevant = {} then Inr 0
       else Inr (real (card (set (take (nat k) ranked) \<inter> relevant)) / real (card relevant)))"

definition gain :: "nat \<Rightarrow> real" where
  "gain rank = 1 / log 2 (real rank + 2)"

definition dcg :: "'a set \<Rightarrow> 'a list \<Rightarrow> real" where
  "dcg relevant xs = sum_list (map (\<lambda>(rank, x). gain rank) (filter (\<lambda>(rank, x). x \<in> relevant) (enumerate 0 xs)))"

definition ideal_dcg :: "nat \<Rightarrow> real" where
  "ideal_dcg n = sum_list (map gain [0..<n])"

definition ndcg_at_k :: "'a list \<Rightarrow> 'a set \<Rightarrow> int \<Rightarrow> real res" where
  "ndcg_at_k ranked relevant k =
     bind_res (validate_k k) (\<lambda>_.
       if relevant = {} then Inr 0
       else let ideal = ideal_dcg (min (nat k) (card relevant)) in
         Inr (if ideal \<noteq> 0 then dcg relevant (take (nat k) ranked) / ideal else 0))"

definition hit_rate_at_k :: "'a list \<Rightarrow> 'a set \<Rightarrow> int \<Rightarrow> real res" where
  "hit_rate_at_k ranked relevant k =
     bind_res (validate_k k) (\<lambda>_. Inr (if list_ex (\<lambda>x. x \<in> relevant) (take (nat k) ranked) then 1 else 0))"

fun reciprocal_rank_from :: "nat \<Rightarrow> 'a list \<Rightarrow> 'a set \<Rightarrow> real" where
  "reciprocal_rank_from rank [] relevant = 0"
| "reciprocal_rank_from rank (x # xs) relevant =
     (if x \<in> relevant then 1 / real rank else reciprocal_rank_from (Suc rank) xs relevant)"

definition reciprocal_rank :: "'a list \<Rightarrow> 'a set \<Rightarrow> real" where
  "reciprocal_rank ranked relevant = reciprocal_rank_from 1 ranked relevant"

section \<open>Pairwise AUC\<close>

definition pair_credit :: "real \<Rightarrow> real \<Rightarrow> real" where
  "pair_credit p n = (if p > n then 1 else if p = n then 1 / 2 else 0)"

definition scores_of :: "int \<Rightarrow> real list \<Rightarrow> int list \<Rightarrow> real list" where
  "scores_of label scores labels = map fst (filter (\<lambda>(_, l). l = label) (zip scores labels))"

definition impression_auc :: "real list \<Rightarrow> int list \<Rightarrow> real option res" where
  "impression_auc scores labels =
     (if length scores \<noteq> length labels then Inl (ValueError ''scores and labels must have the same length'')
      else if list_ex (\<lambda>l. l \<notin> {0, 1}) labels then Inl (ValueError ''impression AUC labels must be binary'')
      else let positives = scores_of 1 scores labels; negatives = scores_of 0 scores labels in
        if positives = [] \<or> negatives = [] then Inr None
        else Inr (Some (sum_list (concat (map (\<lambda>p. map (pair_credit p) negatives) positives)) /
                        (real (length positives) * real (length negatives)))))"

section \<open>Catalogue and topics\<close>

definition catalog_coverage :: "'a list list \<Rightarrow> int \<Rightarrow> real" where
  "catalog_coverage rankings catalog_size =
     (if catalog_size \<le> 0 then 0
      else min 1 (real (card (\<Union>ranking\<in>set rankings. set ranking)) / of_int catalog_size))"

definition nonempty_topics :: "string list \<Rightarrow> string set" where
  "nonempty_topics ts = set (filter (\<lambda>t. t \<noteq> []) ts)"

definition topic_diversity :: "string list list \<Rightarrow> real" where
  "topic_diversity item_topics =
     (if item_topics = [] then 0
      else min 1 (real (card (\<Union>ts\<in>set item_topics. nonempty_topics ts)) / real (length item_topics)))"

definition topic_precision_at_k :: "string list list \<Rightarrow> string list \<Rightarrow> int \<Rightarrow> real res" where
  "topic_precision_at_k ranked_topics positive_topics k =
     bind_res (validate_k k) (\<lambda>_.
       Inr (real (length (filter (\<lambda>ts. nonempty_topics positive_topics \<inter> nonempty_topics ts \<noteq> {})
                    (take (nat k) ranked_topics))) / of_int k))"

section \<open>Bounds\<close>

lemma validate_k_ok [simp]: "validate_k k = Inr u \<longleftrightarrow> 0 < k"
  by (auto simp: validate_k_def)

lemma filter_take_bound: "0 < k \<Longrightarrow> real (length (filter P (take (nat k) xs))) / of_int k \<le> 1"
proof -
  assume "0 < k"
  moreover have "length (filter P (take (nat k) xs)) \<le> nat k"
    by (rule order_trans[OF length_filter_le]) simp
  ultimately show ?thesis by (simp add: divide_le_eq_1)
qed

lemma gain_pos: "0 < gain n"
  by (simp add: gain_def)

lemma gain_decr: "m \<le> n \<Longrightarrow> gain n \<le> gain m"
  unfolding gain_def by (intro divide_left_mono mult_pos_pos) (simp_all add: log_le_cancel_iff)

lemma ideal_dcg_Suc: "ideal_dcg (Suc n) = ideal_dcg n + gain n"
  by (simp add: ideal_dcg_def)

lemma ideal_dcg_pos: "0 < n \<Longrightarrow> 0 < ideal_dcg n"
proof (induction n)
  case (Suc n)
  then show ?case using gain_pos[of n] gain_pos[of 0] by (cases n) (auto simp: ideal_dcg_Suc ideal_dcg_def)
qed simp

lemma ideal_dcg_mono: "m \<le> n \<Longrightarrow> ideal_dcg m \<le> ideal_dcg n"
  by (induction n rule: dec_induct) (use gain_pos in \<open>auto simp: ideal_dcg_Suc intro: order_trans less_imp_le add_increasing2\<close>)

lemma dcg_snoc: "dcg R (xs @ [x]) = dcg R xs + (if x \<in> R then gain (length xs) else 0)"
  by (simp add: dcg_def enumerate_append_eq)

lemma dcg_nonneg: "0 \<le> dcg R xs"
proof (induction xs rule: rev_induct)
  case Nil
  then show ?case by (simp add: dcg_def)
next
  case (snoc x xs)
  then show ?case using gain_pos[of "length xs"] by (simp add: dcg_snoc)
qed

text \<open>The gain of a ranking is at most that of its hits moved to the front.\<close>

lemma dcg_le_hits: "dcg R xs \<le> ideal_dcg (length (filter (\<lambda>x. x \<in> R) xs))"
proof (induction xs rule: rev_induct)
  case Nil
  then show ?case by (simp add: dcg_def ideal_dcg_def)
next
  case (snoc x xs)
  have "gain (length xs) \<le> gain (length (filter (\<lambda>x. x \<in> R) xs))" by (intro gain_decr length_filter_le)
  with snoc show ?case by (simp add: dcg_snoc ideal_dcg_Suc)
qed

lemma dcg_le_ideal:
  assumes "distinct xs" "finite R"
  shows "dcg R (take n xs) \<le> ideal_dcg (min n (card R))"
proof -
  let ?h = "filter (\<lambda>x. x \<in> R) (take n xs)"
  have "length ?h = card (set ?h)" using assms(1) by (metis distinct_card distinct_filter distinct_take)
  also have "\<dots> \<le> card R" using assms(2) by (intro card_mono) auto
  finally have "length ?h \<le> min n (card R)"
    using length_filter_le[of "\<lambda>x. x \<in> R" "take n xs"] by simp
  then show ?thesis using dcg_le_hits[of R "take n xs"] ideal_dcg_mono by (meson order_trans)
qed

lemma reciprocal_rank_bounds: "0 < n \<Longrightarrow> 0 \<le> reciprocal_rank_from n xs R \<and> reciprocal_rank_from n xs R \<le> 1"
  by (induction n xs R rule: reciprocal_rank_from.induct) auto

definition unit_interval :: "real \<Rightarrow> bool" where
  "unit_interval x \<longleftrightarrow> 0 \<le> x \<and> x \<le> 1"

lemma precision_unit: "precision_at_k xs R k = Inr p \<Longrightarrow> unit_interval p"
  using filter_take_bound by (auto simp: precision_at_k_def unit_interval_def)

lemma recall_unit:
  assumes "recall_at_k xs R k = Inr p" "finite R"
  shows "unit_interval p"
proof -
  have "card (set (take (nat k) xs) \<inter> R) \<le> card R" using assms(2) by (intro card_mono) auto
  with assms(1) show ?thesis by (auto simp: recall_at_k_def unit_interval_def divide_le_eq_1 split: if_splits)
qed

lemma ndcg_unit:
  assumes "ndcg_at_k xs R k = Inr p" "distinct xs" "finite R"
  shows "unit_interval p"
proof (cases "R = {}")
  case True
  with assms show ?thesis by (auto simp: ndcg_at_k_def unit_interval_def)
next
  case False
  then have "0 < ideal_dcg (min (nat k) (card R))" if "0 < k"
    using that assms(3) by (intro ideal_dcg_pos) (simp add: card_gt_0_iff)
  with assms False show ?thesis
    using dcg_le_ideal[OF assms(2,3), of "nat k"] dcg_nonneg[of R "take (nat k) xs"]
    by (auto simp: ndcg_at_k_def unit_interval_def divide_le_eq_1 Let_def)
qed

lemma hit_rate_unit: "hit_rate_at_k xs R k = Inr p \<Longrightarrow> unit_interval p"
  by (auto simp: hit_rate_at_k_def unit_interval_def)

lemma coverage_unit: "unit_interval (catalog_coverage rankings n)"
  by (auto simp: catalog_coverage_def unit_interval_def)

lemma diversity_unit: "unit_interval (topic_diversity ts)"
  by (auto simp: topic_diversity_def unit_interval_def)

text \<open>No metric sees anything exactly when the cutoff holds no relevant item.\<close>

definition no_hit :: "'a list \<Rightarrow> 'a set \<Rightarrow> int \<Rightarrow> bool" where
  "no_hit ranked relevant k \<longleftrightarrow> set (take (nat k) ranked) \<inter> relevant = {}"

lemma precision_zero: "precision_at_k xs R k = Inr p \<Longrightarrow> p = 0 \<longleftrightarrow> no_hit xs R k"
  by (auto simp: precision_at_k_def no_hit_def filter_empty_conv)

lemma recall_zero: "recall_at_k xs R k = Inr p \<Longrightarrow> finite R \<Longrightarrow> p = 0 \<longleftrightarrow> no_hit xs R k"
  by (auto simp: recall_at_k_def no_hit_def split: if_splits)

lemma dcg_zero: "dcg R xs = 0 \<longleftrightarrow> set xs \<inter> R = {}"
proof (induction xs rule: rev_induct)
  case Nil
  then show ?case by (simp add: dcg_def)
next
  case (snoc x xs)
  then show ?case using dcg_nonneg[of R xs] gain_pos[of "length xs"] by (auto simp: dcg_snoc)
qed

lemma ndcg_zero:
  assumes "ndcg_at_k xs R k = Inr p" "finite R"
  shows "p = 0 \<longleftrightarrow> no_hit xs R k"
proof (cases "R = {}")
  case True
  with assms show ?thesis by (auto simp: ndcg_at_k_def no_hit_def)
next
  case False
  then have "0 < k \<Longrightarrow> 0 < ideal_dcg (min (nat k) (card R))"
    using assms(2) by (intro ideal_dcg_pos) (simp add: card_gt_0_iff)
  with assms(1) False show ?thesis by (auto simp: ndcg_at_k_def no_hit_def dcg_zero Let_def)
qed

lemma hit_rate_zero: "hit_rate_at_k xs R k = Inr p \<Longrightarrow> p = 0 \<longleftrightarrow> no_hit xs R k"
  by (auto simp: hit_rate_at_k_def no_hit_def list_ex_iff split: if_splits)

lemma metrics_total:
  assumes "0 < k"
  shows "\<exists>p r n h. precision_at_k xs R k = Inr p \<and> recall_at_k xs R k = Inr r \<and> ndcg_at_k xs R k = Inr n \<and>
    hit_rate_at_k xs R k = Inr h"
  using assms by (simp add: precision_at_k_def recall_at_k_def ndcg_at_k_def hit_rate_at_k_def validate_k_def Let_def)

text \<open>
  C32. With a positive cutoff and a ranking without repetitions no metric raises, each lies between
  zero and one, and precision, recall, normalised gain and hit rate are zero together, exactly when no
  relevant item is in the cutoff.
\<close>

theorem ranking_metrics_bounded:
  assumes "distinct ranked" "finite relevant" "0 < k"
  shows "\<exists>p r n h. precision_at_k ranked relevant k = Inr p \<and> recall_at_k ranked relevant k = Inr r \<and>
    ndcg_at_k ranked relevant k = Inr n \<and> hit_rate_at_k ranked relevant k = Inr h \<and>
    (\<forall>x\<in>{p, r, n, h, reciprocal_rank ranked relevant}. unit_interval x) \<and>
    (\<forall>x\<in>{p, r, n, h}. x = 0 \<longleftrightarrow> no_hit ranked relevant k)"
proof -
  obtain p r n h where m: "precision_at_k ranked relevant k = Inr p" "recall_at_k ranked relevant k = Inr r"
    "ndcg_at_k ranked relevant k = Inr n" "hit_rate_at_k ranked relevant k = Inr h"
    using metrics_total[OF assms(3)] by blast
  have "unit_interval (reciprocal_rank ranked relevant)"
    using reciprocal_rank_bounds[of 1] by (simp add: reciprocal_rank_def unit_interval_def)
  with m show ?thesis
    using precision_unit[OF m(1)] recall_unit[OF m(2) assms(2)] ndcg_unit[OF m(3) assms(1,2)] hit_rate_unit[OF m(4)]
      precision_zero[OF m(1)] recall_zero[OF m(2) assms(2)] ndcg_zero[OF m(3) assms(2)] hit_rate_zero[OF m(4)]
    by simp
qed

theorem ranking_metrics_bounded_witness:
  "\<exists>n. ndcg_at_k [3, 1, 2 :: nat] {1, 2} 2 = Inr n \<and> unit_interval n \<and> n \<noteq> 0"
proof -
  have hit: "\<not> no_hit [3, 1, 2 :: nat] {1, 2} 2" by (simp add: no_hit_def)
  from ranking_metrics_bounded[of "[3, 1, 2 :: nat]" "{1, 2}" 2] hit show ?thesis by auto
qed

text \<open>Repeated items in a ranking break the bound of the normalised gain.\<close>

lemma ndcg_repetition: "ndcg_at_k [1, 1 :: nat] {1} 2 = Inr (1 + 1 / log 2 3)"
  by (simp add: ndcg_at_k_def validate_k_def dcg_def ideal_dcg_def gain_def Let_def numeral_eq_Suc)

section \<open>AUC counts ordered pairs\<close>

definition pair_sum :: "real list \<Rightarrow> real list \<Rightarrow> real" where
  "pair_sum ps ns = sum_list (concat (map (\<lambda>p. map (pair_credit p) ns) ps))"

lemma pair_sum_Nil [simp]: "pair_sum [] ns = 0"
  by (simp add: pair_sum_def)

lemma pair_sum_Cons: "pair_sum (p # ps) ns = sum_list (map (pair_credit p) ns) + pair_sum ps ns"
  by (simp add: pair_sum_def)

lemma credit_row_bounds:
  "0 \<le> sum_list (map (pair_credit p) ns) \<and> sum_list (map (pair_credit p) ns) \<le> real (length ns) \<and>
    (sum_list (map (pair_credit p) ns) = real (length ns) \<longleftrightarrow> (\<forall>n\<in>set ns. n < p))"
  by (induction ns) (auto simp: pair_credit_def split: if_splits)

lemma pair_sum_bounds:
  "0 \<le> pair_sum ps ns \<and> pair_sum ps ns \<le> real (length ps) * real (length ns) \<and>
    (pair_sum ps ns = real (length ps) * real (length ns) \<longleftrightarrow> (\<forall>p\<in>set ps. \<forall>n\<in>set ns. n < p))"
proof (induction ps)
  case (Cons p ps)
  note row = credit_row_bounds[of p ns]
  have "real (length (p # ps)) * real (length ns) = real (length ns) + real (length ps) * real (length ns)"
    by (simp add: algebra_simps)
  moreover have "sum_list (map (pair_credit p) ns) + pair_sum ps ns = real (length ns) + real (length ps) * real (length ns) \<longleftrightarrow>
      sum_list (map (pair_credit p) ns) = real (length ns) \<and> pair_sum ps ns = real (length ps) * real (length ns)"
    using row Cons by linarith
  ultimately show ?case using row Cons unfolding pair_sum_Cons by simp
qed simp

lemma credit_row_map:
  assumes "\<And>n. n \<in> set ns \<Longrightarrow> pair_credit (f p) (f n) = c + d * pair_credit p n"
  shows "sum_list (map (pair_credit (f p)) (map f ns)) = c * real (length ns) + d * sum_list (map (pair_credit p) ns)"
  using assms by (induction ns) (auto simp: algebra_simps)

lemma pair_sum_map:
  assumes "\<And>p n. p \<in> set ps \<Longrightarrow> n \<in> set ns \<Longrightarrow> pair_credit (f p) (f n) = c + d * pair_credit p n"
  shows "pair_sum (map f ps) (map f ns) = c * (real (length ps) * real (length ns)) + d * pair_sum ps ns"
  using assms
proof (induction ps)
  case (Cons p ps)
  have "sum_list (map (pair_credit (f p)) (map f ns)) = c * real (length ns) + d * sum_list (map (pair_credit p) ns)"
    using Cons.prems by (intro credit_row_map) simp
  with Cons show ?case by (simp add: pair_sum_Cons algebra_simps del: map_map)
qed simp

lemma scores_of_map: "scores_of l (map f scores) labels = map f (scores_of l scores labels)"
  by (simp add: scores_of_def zip_map1 filter_map o_def case_prod_unfold)

lemma impression_auc_alt:
  "impression_auc scores labels = Inr (Some a) \<longleftrightarrow>
     length scores = length labels \<and> set labels \<subseteq> {0, 1} \<and> scores_of 1 scores labels \<noteq> [] \<and> scores_of 0 scores labels \<noteq> [] \<and>
     a = pair_sum (scores_of 1 scores labels) (scores_of 0 scores labels) /
       (real (length (scores_of 1 scores labels)) * real (length (scores_of 0 scores labels)))"
  by (auto simp: impression_auc_def pair_sum_def list_ex_iff Let_def)

lemma auc_affine:
  assumes auc: "impression_auc scores labels = Inr (Some a)"
    and credit: "\<And>p n. p \<in> set (scores_of 1 scores labels) \<Longrightarrow> n \<in> set (scores_of 0 scores labels) \<Longrightarrow>
      pair_credit (f p) (f n) = c + d * pair_credit p n"
  shows "impression_auc (map f scores) labels = Inr (Some (c + d * a))"
proof -
  let ?ps = "scores_of 1 scores labels" and ?ns = "scores_of 0 scores labels"
  have ne: "?ps \<noteq> []" "?ns \<noteq> []" and a: "a = pair_sum ?ps ?ns / (real (length ?ps) * real (length ?ns))"
    using auc by (auto simp: impression_auc_alt)
  have "pair_sum (map f ?ps) (map f ?ns) / (real (length ?ps) * real (length ?ns)) = c + d * a"
    using ne by (simp add: pair_sum_map[OF credit] a add_divide_distrib)
  with auc show ?thesis by (simp add: impression_auc_alt scores_of_map)
qed

lemma scores_of_subset: "set (scores_of l scores labels) \<subseteq> set scores"
  by (auto simp: scores_of_def dest: set_zip_leftD)

text \<open>
  The AUC of an impression lies between zero and one; it is one exactly when every positive
  outscores every negative; negating the scores reflects it; and it depends on the scores only through
  their order.
\<close>

theorem impression_auc_order:
  assumes "impression_auc scores labels = Inr (Some a)" "strict_mono_on (set scores) f"
  shows "unit_interval a \<and>
    (a = 1 \<longleftrightarrow> (\<forall>p\<in>set (scores_of 1 scores labels). \<forall>n\<in>set (scores_of 0 scores labels). n < p)) \<and>
    impression_auc (map uminus scores) labels = Inr (Some (1 - a)) \<and>
    impression_auc (map f scores) labels = Inr (Some a)"
proof -
  let ?ps = "scores_of 1 scores labels" and ?ns = "scores_of 0 scores labels"
  have ne: "?ps \<noteq> []" "?ns \<noteq> []" and a: "a = pair_sum ?ps ?ns / (real (length ?ps) * real (length ?ns))"
    using assms(1) by (auto simp: impression_auc_alt)
  have "0 < real (length ?ps) * real (length ?ns)" using ne by simp
  then have bounds: "unit_interval a" "a = 1 \<longleftrightarrow> (\<forall>p\<in>set ?ps. \<forall>n\<in>set ?ns. n < p)"
    using pair_sum_bounds[of ?ps ?ns] by (auto simp: a unit_interval_def divide_le_eq_1 divide_eq_1_iff)
  have "impression_auc (map uminus scores) labels = Inr (Some (1 + (- 1) * a))"
    by (rule auc_affine[OF assms(1)]) (auto simp: pair_credit_def)
  moreover have "impression_auc (map f scores) labels = Inr (Some (0 + 1 * a))"
  proof (rule auc_affine[OF assms(1)])
    fix p n assume "p \<in> set ?ps" "n \<in> set ?ns"
    then have "p \<in> set scores" "n \<in> set scores" using scores_of_subset by blast+
    then have "n < p \<Longrightarrow> f n < f p" "p < n \<Longrightarrow> f p < f n"
      using assms(2) by (auto dest: strict_mono_onD)
    then show "pair_credit (f p) (f n) = 0 + 1 * pair_credit p n"
      by (cases p n rule: linorder_cases) (simp_all add: pair_credit_def)
  qed
  ultimately show ?thesis using bounds by simp
qed

theorem impression_auc_order_witness:
  "unit_interval (3 / 4) \<and> impression_auc (map uminus [3, 1, 2, 0]) [1, 1, 0, 0] = Inr (Some (1 - 3 / 4))"
proof -
  have "impression_auc [3, 1, 2, 0] [1, 1, 0, 0] = Inr (Some (3 / 4))"
    by (simp add: impression_auc_def scores_of_def pair_credit_def)
  from impression_auc_order[OF this, of "\<lambda>x. x"] show ?thesis by (simp add: strict_mono_on_def)
qed

end
