(* ===== verification/OnlineEvaluate.thy ===== *)
theory OnlineEvaluate
  imports RecommendationLabel Metrics
begin

text \<open>
  \<open>recommendation_api/app/evaluate.py\<close>: the offline evaluation of served impressions. A temporal split
  separates training events from the impressions whose label window has elapsed; each request is scored
  with the metrics against the labels observed inside its window. The lemmas show that no event leaks
  across the cutoff and that every reported rate is a rate.
\<close>

section \<open>Records\<close>

record impression_record =
  oi_id :: uuid
  oi_request_id :: uuid
  oi_user_id :: uuid
  oi_post_id :: uuid
  oi_position :: int
  oi_feed_source :: string
  oi_topics :: "string list"
  oi_served_at :: datetime

record behavior_record =
  ob_impression_id :: "uuid option"
  ob_user_id :: uuid
  ob_post_id :: uuid
  ob_event_type :: string
  ob_occurred_at :: datetime
  ob_dwell_ms :: "int option"
  ob_metadata :: "(string, pyval) dict option"
  ob_event_id :: "uuid option"
  ob_ingested_at :: "datetime option"
  ob_event_version :: "string option"

definition opt_py :: "('a \<Rightarrow> pyval) \<Rightarrow> 'a option \<Rightarrow> pyval" where
  "opt_py f x = (case x of None \<Rightarrow> VNone | Some y \<Rightarrow> f y)"

definition behavior_object :: "behavior_record \<Rightarrow> event_src" where
  "behavior_object e =
     EObject [(''impression_id'', opt_py VUuid (ob_impression_id e)), (''user_id'', VUuid (ob_user_id e)),
       (''post_id'', VUuid (ob_post_id e)), (''event_type'', VStr (ob_event_type e)),
       (''occurred_at'', VTime (ob_occurred_at e)), (''dwell_ms'', opt_py VInt (ob_dwell_ms e)),
       (''metadata'', opt_py VMap (ob_metadata e)), (''event_id'', opt_py VUuid (ob_event_id e)),
       (''ingested_at'', opt_py VTime (ob_ingested_at e)), (''event_version'', opt_py VStr (ob_event_version e))]"

section \<open>Temporal split\<close>

record temporal_split =
  ts_training :: "behavior_record list"
  ts_validation :: "impression_record list"
  ts_labels :: "(uuid, behavior_record list) dict"

fun aware_named :: "datetime \<Rightarrow> string \<Rightarrow> instant res" where
  "aware_named (Naive _) name = Inl (ValueError (name @ '' must include a timezone''))"
| "aware_named (Aware t) name = Inr t"

definition in_training :: "instant \<Rightarrow> behavior_record \<Rightarrow> bool res" where
  "in_training cutoff e =
     bind_res (aware_named (ob_occurred_at e) ''event.occurred_at'') (\<lambda>occurred.
       if occurred < cutoff
       then (case ob_ingested_at e of
               None \<Rightarrow> Inr True
             | Some ing \<Rightarrow> bind_res (aware_named ing ''event.ingested_at'') (\<lambda>t. Inr (t < cutoff)))
       else Inr False)"

definition in_validation :: "instant \<Rightarrow> instant \<Rightarrow> impression_record \<Rightarrow> bool res" where
  "in_validation cutoff finalized_before i =
     bind_res (aware_named (oi_served_at i) ''impression.served_at'') (\<lambda>served.
       Inr (cutoff \<le> served \<and> served \<le> finalized_before))"

definition label_event_step ::
    "(uuid, impression_record) dict \<Rightarrow> int \<Rightarrow> instant \<Rightarrow> (uuid, behavior_record list) dict \<Rightarrow> behavior_record \<Rightarrow>
     (uuid, behavior_record list) dict res" where
  "label_event_step by_id window evaluation_time labels e =
     (case Option.bind (ob_impression_id e) (dget by_id) of
        None \<Rightarrow> Inr labels
      | Some i \<Rightarrow>
          bind_res (aware_named (ob_occurred_at e) ''event.occurred_at'') (\<lambda>occurred.
          bind_res (case ob_ingested_at e of None \<Rightarrow> Inr occurred | Some t \<Rightarrow> aware_named t ''event.ingested_at'') (\<lambda>ingested.
          bind_res (aware_named (oi_served_at i) ''impression.served_at'') (\<lambda>served.
            if ob_user_id e = oi_user_id i \<and> ob_post_id e = oi_post_id i \<and> served \<le> occurred \<and>
               occurred \<le> served + window \<and> occurred \<le> evaluation_time \<and> ingested \<le> evaluation_time
            then Inr (dset labels (oi_id i) (dget_default labels (oi_id i) [] @ [e]))
            else Inr labels))))"

definition build_temporal_split ::
    "impression_record list \<Rightarrow> behavior_record list \<Rightarrow> datetime \<Rightarrow> int \<Rightarrow> datetime \<Rightarrow> temporal_split res" where
  "build_temporal_split impressions evs cutoff_at label_window_hours as_of =
     (if label_window_hours \<le> 0 then Inl (ValueError ''label_window_hours must be positive'')
      else
        bind_res (aware_named cutoff_at ''cutoff_at'') (\<lambda>cutoff.
        bind_res (aware_named as_of ''as_of'') (\<lambda>evaluation_time.
        if cutoff \<ge> evaluation_time then Inl (ValueError ''cutoff_at must be before as_of'')
        else let window = hours_us label_window_hours in
          bind_res (filter_res (in_training cutoff) evs) (\<lambda>training.
          bind_res (filter_res (in_validation cutoff (evaluation_time - window)) impressions) (\<lambda>validation.
          let validation = sort_key (\<lambda>i. (oi_user_id i, oi_request_id i, oi_position i)) validation;
              by_id = foldl (\<lambda>d i. dset d (oi_id i) i) [] validation in
          bind_res (fold_res (label_event_step by_id window evaluation_time) [] evs) (\<lambda>labels.
            Inr \<lparr>ts_training = training, ts_validation = validation, ts_labels = labels\<rparr>))))))"

section \<open>Scoring requests\<close>

record request_scores =
  rs_precision :: real
  rs_recall :: real
  rs_ndcg :: real
  rs_hit_rate :: real
  rs_diversity :: real
  rs_list :: "uuid list"

definition impression_label ::
    "pylib \<Rightarrow> string \<Rightarrow> int \<Rightarrow> behavior_record list \<Rightarrow> label_result res" where
  "impression_label lib default_version qualified_read_ms evs =
     bind_res (map_res (\<lambda>e. event_label_version lib (behavior_object e)) evs) (\<lambda>versions.
       case dedup versions of
         [] \<Rightarrow> derive_label lib [] default_version qualified_read_ms True [] (default_version = ''v1'')
       | [version] \<Rightarrow>
           derive_label lib (map behavior_object evs) version qualified_read_ms True [] (version = ''v1'')
       | _ \<Rightarrow> Inl (ValueError ''mixed persisted label versions within one impression''))"

definition relevant_posts ::
    "pylib \<Rightarrow> string \<Rightarrow> int \<Rightarrow> (uuid, behavior_record list) dict \<Rightarrow> impression_record list \<Rightarrow> uuid set res" where
  "relevant_posts lib version qualified_read_ms labels ranked =
     fold_res (\<lambda>relevant i.
       bind_res (impression_label lib version qualified_read_ms (dget_default labels (oi_id i) [])) (\<lambda>label.
         Inr (if training_target label = Some 1 then insert (oi_post_id i) relevant else relevant))) {} ranked"

definition score_request ::
    "pylib \<Rightarrow> string \<Rightarrow> int \<Rightarrow> (uuid, behavior_record list) dict \<Rightarrow> int \<Rightarrow> impression_record list \<Rightarrow> request_scores res" where
  "score_request lib version qualified_read_ms labels k impressions =
     (let ranked = sort_key oi_position impressions; ids = map oi_post_id ranked; top = take (nat k) ranked in
      bind_res (relevant_posts lib version qualified_read_ms labels ranked) (\<lambda>relevant.
      bind_res (precision_at_k ids relevant k) (\<lambda>p.
      bind_res (recall_at_k ids relevant k) (\<lambda>r.
      bind_res (ndcg_at_k ids relevant k) (\<lambda>n.
      bind_res (hit_rate_at_k ids relevant k) (\<lambda>h.
        Inr \<lparr>rs_precision = p, rs_recall = r, rs_ndcg = n, rs_hit_rate = h,
             rs_diversity = topic_diversity (map oi_topics top), rs_list = map oi_post_id top\<rparr>))))))"

definition fmean :: "real list \<Rightarrow> real" where
  "fmean xs = sum_list xs / real (length xs)"

record evaluate_metrics =
  em_precision :: real
  em_recall :: real
  em_ndcg :: real
  em_hit_rate :: real
  em_coverage :: real
  em_diversity :: real
  em_ctr :: real
  em_fallback :: real

record evaluate_response =
  er_metrics :: "evaluate_metrics option"
  er_users :: nat
  er_impressions :: nat
  er_cutoff_at :: datetime
  er_label_window_hours :: int

definition response_status :: "evaluate_response \<Rightarrow> string" where
  "response_status r = (if er_metrics r = None then ''insufficient_data'' else ''ok'')"

definition clicked :: "(uuid, behavior_record list) dict \<Rightarrow> impression_record \<Rightarrow> bool" where
  "clicked labels i = list_ex (\<lambda>e. ob_event_type e = ''click'') (dget_default labels (oi_id i) [])"

definition evaluate_records ::
    "pylib \<Rightarrow> impression_record list \<Rightarrow> behavior_record list \<Rightarrow> datetime \<Rightarrow> int \<Rightarrow> datetime \<Rightarrow> int \<Rightarrow> int \<Rightarrow> string \<Rightarrow>
     int \<Rightarrow> evaluate_response res" where
  "evaluate_records lib impressions evs cutoff_at label_window_hours as_of k catalog_size version qualified_read_ms =
     (if k \<le> 0 then Inl (ValueError ''k must be positive'')
      else bind_res (build_temporal_split impressions evs cutoff_at label_window_hours as_of) (\<lambda>split.
        let finalized = ts_validation split; labels = ts_labels split; total = real (length finalized) in
        if finalized = []
        then Inr \<lparr>er_metrics = None, er_users = 0, er_impressions = 0, er_cutoff_at = cutoff_at,
                  er_label_window_hours = label_window_hours\<rparr>
        else
          bind_res (map_res (score_request lib version qualified_read_ms labels k)
                      (dvalues (group_by (\<lambda>i. (oi_user_id i, oi_request_id i)) finalized))) (\<lambda>scores.
            Inr \<lparr>er_metrics = Some
                  \<lparr>em_precision = py_round 4 (fmean (map rs_precision scores)),
                   em_recall = py_round 4 (fmean (map rs_recall scores)),
                   em_ndcg = py_round 4 (fmean (map rs_ndcg scores)),
                   em_hit_rate = py_round 4 (fmean (map rs_hit_rate scores)),
                   em_coverage = py_round 4 (catalog_coverage (map rs_list scores) catalog_size),
                   em_diversity = py_round 4 (fmean (map rs_diversity scores)),
                   em_ctr = py_round 4 (real (card (oi_id ` {i \<in> set finalized. clicked labels i})) / total),
                   em_fallback = py_round 4 (real (length (filter (\<lambda>i. oi_feed_source i = ''fallback'') finalized)) / total)\<rparr>,
                 er_users = card (oi_user_id ` set finalized), er_impressions = length finalized,
                 er_cutoff_at = cutoff_at, er_label_window_hours = label_window_hours\<rparr>)))"

section \<open>Reading the database\<close>

text \<open>
  \<open>evaluate\<close> selects a user's impressions and events. The driver returns a \<open>jsonb\<close> column as text
  unless a codec is installed, so \<open>metadata\<close> is a Python value, and \<open>dict(metadata or {})\<close> can raise.
\<close>

record impression_row =
  ir_impression :: impression_record
  ir_topics :: "string list option"

record event_row =
  er_event :: behavior_record
  er_metadata :: pyval

record online_db =
  db_impressions :: "impression_row list"
  db_events :: "event_row list"
  db_published :: nat

fun py_dict :: "pyval \<Rightarrow> (string, pyval) dict res" where
  "py_dict (VMap d) = Inr d"
| "py_dict (VStr (c # cs)) = Inl (ValueError ''dictionary update sequence element has length 1; 2 is required'')"
| "py_dict (VStr []) = Inr []"
| "py_dict _ = Inl (TypeError ''object is not iterable'')"

definition event_of_row :: "pylib \<Rightarrow> event_row \<Rightarrow> behavior_record res" where
  "event_of_row lib row =
     bind_res (py_dict (py_or (er_metadata row) (VMap []))) (\<lambda>metadata.
       Inr ((er_event row)\<lparr>ob_metadata := Some metadata,
              ob_event_version := Some (case map_of metadata ''event_version'' of
                                          None \<Rightarrow> ''v1'' | Some v \<Rightarrow> py_str lib v)\<rparr>))"

definition aware_at_most :: "datetime \<Rightarrow> datetime \<Rightarrow> bool" where
  "aware_at_most a b \<longleftrightarrow> (case (a, b) of (Aware s, Aware t) \<Rightarrow> s \<le> t | _ \<Rightarrow> False)"

definition evaluate_endpoint_query ::
    "online_db \<Rightarrow> uuid \<Rightarrow> datetime \<Rightarrow> datetime \<Rightarrow> impression_record list \<times> event_row list" where
  "evaluate_endpoint_query db user cutoff evaluation_time =
     (map (\<lambda>r. (ir_impression r)\<lparr>oi_topics := (case ir_topics r of None \<Rightarrow> [] | Some ts \<Rightarrow> ts)\<rparr>)
        (sort_key (\<lambda>r. (oi_request_id (ir_impression r), oi_position (ir_impression r)))
          (filter (\<lambda>r. oi_user_id (ir_impression r) = user \<and> aware_at_most cutoff (oi_served_at (ir_impression r)) \<and>
                       aware_at_most (oi_served_at (ir_impression r)) evaluation_time) (db_impressions db))),
      sort_key (\<lambda>r. wall_of (ob_occurred_at (er_event r)))
        (filter (\<lambda>r. ob_user_id (er_event r) = user \<and> aware_at_most (ob_occurred_at (er_event r)) evaluation_time \<and>
                     (case ob_ingested_at (er_event r) of None \<Rightarrow> False | Some t \<Rightarrow> aware_at_most t evaluation_time))
          (db_events db)))"

fun shift_days :: "int \<Rightarrow> datetime \<Rightarrow> datetime" where
  "shift_days n (Naive t) = Naive (t + n * us_per_day)"
| "shift_days n (Aware t) = Aware (t + n * us_per_day)"

definition evaluate ::
    "pylib \<Rightarrow> online_db \<Rightarrow> uuid \<Rightarrow> int \<Rightarrow> datetime option \<Rightarrow> int \<Rightarrow> datetime \<Rightarrow> string \<Rightarrow> int \<Rightarrow> evaluate_response res" where
  "evaluate lib db user k cutoff_at label_window_hours now version qualified_read_ms =
     (let cutoff = (case cutoff_at of Some t \<Rightarrow> t | None \<Rightarrow> shift_days (- 7) now);
          (impressions, rows) = evaluate_endpoint_query db user cutoff now in
      bind_res (map_res (event_of_row lib) rows) (\<lambda>evs.
        evaluate_records lib impressions evs cutoff label_window_hours now k (int (db_published db)) version
          qualified_read_ms))"

datatype http_error = BadRequest string | InternalError py_error

definition evaluate_endpoint ::
    "pylib \<Rightarrow> online_db \<Rightarrow> uuid \<Rightarrow> int \<Rightarrow> datetime option \<Rightarrow> int \<Rightarrow> datetime \<Rightarrow> string \<Rightarrow> int \<Rightarrow>
     http_error + evaluate_response" where
  "evaluate_endpoint lib db user k cutoff_at label_window_hours now version qualified_read_ms =
     (if k < 1 \<or> k > 100 then Inl (BadRequest ''k must be in [1,100]'')
      else if label_window_hours < 1 \<or> label_window_hours > 720
      then Inl (BadRequest ''label_window_hours must be in [1,720]'')
      else if (case cutoff_at of Some t \<Rightarrow> tz_missing t | None \<Rightarrow> False)
      then Inl (BadRequest ''cutoff_at must include a timezone'')
      else map_sum InternalError id
             (evaluate lib db user k cutoff_at label_window_hours now version qualified_read_ms))"

section \<open>Nothing leaks across the cutoff\<close>

lemma aware_utc_Inr [simp]: "aware_named d name = Inr t \<longleftrightarrow> d = Aware t"
  by (cases d) auto

lemma fold_dset_lookup:
  "dget (foldl (\<lambda>d i. dset d (f i) i) d xs) k = Some v \<Longrightarrow> dget d k = Some v \<or> (v \<in> set xs \<and> f v = k)"
  by (induction xs arbitrary: d) (fastforce split: if_splits)+

text \<open>The event \<open>e\<close> labels the impression with identity \<open>x\<close>.\<close>

definition labels_impression ::
    "(uuid, impression_record) dict \<Rightarrow> int \<Rightarrow> instant \<Rightarrow> uuid \<Rightarrow> behavior_record \<Rightarrow> bool" where
  "labels_impression by_id window t x e \<longleftrightarrow>
     (\<exists>i. Option.bind (ob_impression_id e) (dget by_id) = Some i \<and> oi_id i = x \<and>
        ob_user_id e = oi_user_id i \<and> ob_post_id e = oi_post_id i \<and>
        \<not> tz_missing (ob_occurred_at e) \<and> wall_of (oi_served_at i) \<le> wall_of (ob_occurred_at e) \<and>
        wall_of (ob_occurred_at e) \<le> wall_of (oi_served_at i) + window \<and> wall_of (ob_occurred_at e) \<le> t \<and>
        (\<forall>d. ob_ingested_at e = Some d \<longrightarrow> wall_of d \<le> t))"

lemma label_event_step_exact:
  assumes "label_event_step by_id window t labels e = Inr labels'"
  shows "dget_default labels' x [] = dget_default labels x [] @ (if labels_impression by_id window t x e then [e] else [])"
proof (cases "Option.bind (ob_impression_id e) (dget by_id)")
  case None
  with assms show ?thesis by (auto simp: label_event_step_def labels_impression_def)
next
  case (Some i)
  then obtain occurred ingested served where o: "ob_occurred_at e = Aware occurred" "oi_served_at i = Aware served"
    and ing: "(case ob_ingested_at e of None \<Rightarrow> Inr occurred | Some d \<Rightarrow> aware_named d ''event.ingested_at'') = Inr ingested"
    and res: "labels' = (if ob_user_id e = oi_user_id i \<and> ob_post_id e = oi_post_id i \<and> served \<le> occurred \<and>
        occurred \<le> served + window \<and> occurred \<le> t \<and> ingested \<le> t
      then dset labels (oi_id i) (dget_default labels (oi_id i) [] @ [e]) else labels)"
    using assms by (auto simp: label_event_step_def split: if_splits)
  have "occurred \<le> t \<Longrightarrow> ingested \<le> t \<longleftrightarrow> (\<forall>d. ob_ingested_at e = Some d \<longrightarrow> wall_of d \<le> t)"
    using ing by (auto split: option.splits)
  then have "labels_impression by_id window t x e \<longleftrightarrow> oi_id i = x \<and> ob_user_id e = oi_user_id i \<and>
      ob_post_id e = oi_post_id i \<and> served \<le> occurred \<and> occurred \<le> served + window \<and> occurred \<le> t \<and> ingested \<le> t"
    using Some o by (auto simp: labels_impression_def)
  then show ?thesis by (auto simp: res dget_default_def)
qed

lemma label_events_exact:
  assumes "fold_res (label_event_step by_id window t) [] evs = Inr labels"
  shows "dget_default labels x [] = filter (labels_impression by_id window t x) evs"
  using assms
proof (induction evs arbitrary: labels rule: rev_induct)
  case Nil
  then show ?case by (simp add: dget_default_def)
next
  case (snoc e evs)
  then show ?case using label_event_step_exact by (fastforce simp: fold_res_snoc)
qed

lemma in_training_iff:
  assumes "in_training c e = Inr b"
  shows "b \<longleftrightarrow> wall_of (ob_occurred_at e) < c \<and> (\<forall>d. ob_ingested_at e = Some d \<longrightarrow> wall_of d < c)"
proof -
  obtain occurred where o: "ob_occurred_at e = Aware occurred"
    using assms unfolding in_training_def by (elim bind_resE) simp
  show ?thesis
  proof (cases "ob_ingested_at e")
    case None
    with assms o show ?thesis by (simp add: in_training_def split: if_splits)
  next
    case (Some d)
    with assms o show ?thesis by (cases d) (simp_all add: in_training_def split: if_splits)
  qed
qed

lemma temporal_split_cases:
  assumes "build_temporal_split impressions evs cutoff_at hours as_of = Inr s"
  obtains c t validation where "cutoff_at = Aware c" "as_of = Aware t" "c < t" "0 < hours"
    "filter_res (in_training c) evs = Inr (ts_training s)"
    "filter_res (in_validation c (t - hours_us hours)) impressions = Inr validation"
    "ts_validation s = sort_key (\<lambda>i. (oi_user_id i, oi_request_id i, oi_position i)) validation"
    "fold_res (label_event_step (foldl (\<lambda>d i. dset d (oi_id i) i) [] (ts_validation s)) (hours_us hours) t) [] evs =
       Inr (ts_labels s)"
  using assms unfolding build_temporal_split_def Let_def
  by (auto split: if_splits)

text \<open>
  C13. The temporal split never leaks: it trains only on events that occurred and were ingested before
  the cutoff; it evaluates exactly the impressions served from the cutoff on whose label window has
  elapsed; and an impression is labelled by exactly the same user's events on it, inside its window and
  known by the evaluation time, so that no event is used on both sides.
\<close>

theorem temporal_split_no_leakage:
  assumes "build_temporal_split impressions evs cutoff_at hours as_of = Inr s"
  shows "\<exists>c t. cutoff_at = Aware c \<and> as_of = Aware t \<and> c < t \<and>
    set (ts_training s) = {e \<in> set evs. wall_of (ob_occurred_at e) < c \<and>
      (\<forall>d. ob_ingested_at e = Some d \<longrightarrow> wall_of d < c)} \<and>
    set (ts_validation s) = {i \<in> set impressions. c \<le> wall_of (oi_served_at i) \<and>
      wall_of (oi_served_at i) + hours_us hours \<le> t} \<and>
    (\<forall>x. \<forall>e\<in>set (dget_default (ts_labels s) x []). e \<in> set evs - set (ts_training s) \<and>
      (\<exists>i\<in>set (ts_validation s). oi_id i = x \<and> ob_impression_id e = Some x \<and> ob_user_id e = oi_user_id i \<and>
         ob_post_id e = oi_post_id i \<and> wall_of (oi_served_at i) \<le> wall_of (ob_occurred_at e) \<and>
         wall_of (ob_occurred_at e) \<le> wall_of (oi_served_at i) + hours_us hours \<and>
         (\<forall>d. ob_ingested_at e = Some d \<longrightarrow> wall_of d \<le> t)))"
  using assms
proof (cases rule: temporal_split_cases)
  case (1 c t validation)
  have tr: "set (ts_training s) = {e \<in> set evs. wall_of (ob_occurred_at e) < c \<and>
      (\<forall>d. ob_ingested_at e = Some d \<longrightarrow> wall_of d < c)}"
  proof -
    note f = filter_res_InrD[OF 1(5)]
    have iff: "in_training c e = Inr True \<longleftrightarrow> wall_of (ob_occurred_at e) < c \<and> (\<forall>d. ob_ingested_at e = Some d \<longrightarrow> wall_of d < c)"
      if e: "e \<in> set evs" for e
    proof -
      obtain b where "in_training c e = Inr b" using f e by blast
      from in_training_iff[OF this] this show ?thesis by simp
    qed
    have "ts_training s = filter (\<lambda>e. in_training c e = Inr True) evs" using f by simp
    then show ?thesis by (auto simp: iff)
  qed
  have va: "set (ts_validation s) = {i \<in> set impressions. c \<le> wall_of (oi_served_at i) \<and>
      wall_of (oi_served_at i) + hours_us hours \<le> t}"
  proof -
    note f = filter_res_InrD[OF 1(6)]
    have iff: "in_validation c (t - hours_us hours) i = Inr True \<longleftrightarrow>
        c \<le> wall_of (oi_served_at i) \<and> wall_of (oi_served_at i) + hours_us hours \<le> t" if i: "i \<in> set impressions" for i
    proof -
      obtain b where "in_validation c (t - hours_us hours) i = Inr b" using f i by blast
      then show ?thesis by (auto simp: in_validation_def)
    qed
    have "validation = filter (\<lambda>i. in_validation c (t - hours_us hours) i = Inr True) impressions" using f by simp
    then show ?thesis by (auto simp: 1(7) iff)
  qed
  have "e \<in> set evs - set (ts_training s) \<and> (\<exists>i\<in>set (ts_validation s). oi_id i = x \<and> ob_impression_id e = Some x \<and>
      ob_user_id e = oi_user_id i \<and> ob_post_id e = oi_post_id i \<and> wall_of (oi_served_at i) \<le> wall_of (ob_occurred_at e) \<and>
      wall_of (ob_occurred_at e) \<le> wall_of (oi_served_at i) + hours_us hours \<and>
      (\<forall>d. ob_ingested_at e = Some d \<longrightarrow> wall_of d \<le> t))"
    if e: "e \<in> set (dget_default (ts_labels s) x [])" for x e
  proof -
    let ?by = "foldl (\<lambda>d i. dset d (oi_id i) i) [] (ts_validation s)"
    have e': "e \<in> set evs" "labels_impression ?by (hours_us hours) t x e"
      using e by (simp_all add: label_events_exact[OF 1(8)])
    then obtain i where i: "Option.bind (ob_impression_id e) (dget ?by) = Some i" "oi_id i = x"
      "ob_user_id e = oi_user_id i" "ob_post_id e = oi_post_id i" "wall_of (oi_served_at i) \<le> wall_of (ob_occurred_at e)"
      "wall_of (ob_occurred_at e) \<le> wall_of (oi_served_at i) + hours_us hours"
      "\<forall>d. ob_ingested_at e = Some d \<longrightarrow> wall_of d \<le> t"
      unfolding labels_impression_def by blast
    from i(1) obtain y where y: "ob_impression_id e = Some y" "dget ?by y = Some i"
      by (cases "ob_impression_id e") auto
    from fold_dset_lookup[OF y(2)] have iv: "i \<in> set (ts_validation s)" and "oi_id i = y" by simp_all
    with i(2) y(1) have "ob_impression_id e = Some x" by simp
    moreover have "c \<le> wall_of (oi_served_at i)" using iv by (simp add: va)
    then have "e \<notin> set (ts_training s)" using i(5) by (auto simp: tr)
    ultimately show ?thesis using e'(1) i iv by blast
  qed
  with 1(1-3) tr va show ?thesis by blast
qed

section \<open>Every reported rate is a rate\<close>

lemma unit_interval_round: "unit_interval x \<Longrightarrow> unit_interval (py_round n x)"
  using py_round_unit by (simp add: unit_interval_def)

lemma fmean_unit:
  assumes "\<And>x. x \<in> set xs \<Longrightarrow> unit_interval x"
  shows "unit_interval (fmean xs)"
proof -
  have "0 \<le> sum_list xs \<and> sum_list xs \<le> real (length xs)"
    using assms
  proof (induction xs)
    case (Cons a xs)
    then have "0 \<le> sum_list xs" "sum_list xs \<le> real (length xs)" "0 \<le> a" "a \<le> 1" by (auto simp: unit_interval_def)
    then show ?case by simp
  qed simp
  then show ?thesis by (auto simp: fmean_def unit_interval_def divide_le_eq_1)
qed

definition metrics_list :: "evaluate_metrics \<Rightarrow> real list" where
  "metrics_list m = [em_precision m, em_recall m, em_ndcg m, em_hit_rate m, em_coverage m, em_diversity m, em_ctr m, em_fallback m]"

lemma relevant_posts_finite: "relevant_posts lib v q labels ranked = Inr R \<Longrightarrow> finite R"
  unfolding relevant_posts_def
  by (rule fold_res_invariant[where P = finite]) (auto split: if_splits)

lemma score_request_unit:
  assumes "score_request lib v q labels k imps = Inr s" "distinct (map oi_post_id imps)"
  shows "unit_interval (rs_precision s) \<and> unit_interval (rs_recall s) \<and> unit_interval (rs_ndcg s) \<and>
    unit_interval (rs_hit_rate s) \<and> unit_interval (rs_diversity s)"
proof -
  have "mset (map oi_post_id (sort_key oi_position imps)) = mset (map oi_post_id imps)" by simp
  then have "distinct (map oi_post_id (sort_key oi_position imps))"
    using assms(2) mset_eq_imp_distinct_iff by blast
  moreover obtain R p r n h where R: "relevant_posts lib v q labels (sort_key oi_position imps) = Inr R"
    and m: "precision_at_k (map oi_post_id (sort_key oi_position imps)) R k = Inr p"
      "recall_at_k (map oi_post_id (sort_key oi_position imps)) R k = Inr r"
      "ndcg_at_k (map oi_post_id (sort_key oi_position imps)) R k = Inr n"
      "hit_rate_at_k (map oi_post_id (sort_key oi_position imps)) R k = Inr h"
    and s: "rs_precision s = p" "rs_recall s = r" "rs_ndcg s = n" "rs_hit_rate s = h"
      "rs_diversity s = topic_diversity (map oi_topics (take (nat k) (sort_key oi_position imps)))"
    using assms(1) unfolding score_request_def Let_def by (elim bind_resE) auto
  ultimately show ?thesis
    using precision_unit[OF m(1)] recall_unit[OF m(2)] ndcg_unit[OF m(3)] hit_rate_unit[OF m(4)] diversity_unit
      relevant_posts_finite[OF R] by (simp add: s)
qed

lemma ratio_unit: "a \<le> b \<Longrightarrow> unit_interval (real a / real b)"
  by (cases "b = 0") (simp_all add: unit_interval_def)

lemma split_request_posts:
  assumes "build_temporal_split impressions evs cutoff_at hours as_of = Inr s"
    and "distinct (map (\<lambda>i. (oi_user_id i, oi_request_id i, oi_post_id i)) impressions)"
    and "g \<in> set (dvalues (group_by (\<lambda>i. (oi_user_id i, oi_request_id i)) (ts_validation s)))"
  shows "distinct (map oi_post_id g)"
  using assms(1)
proof (cases rule: temporal_split_cases)
  case (1 c t validation)
  obtain k where g: "g = filter (\<lambda>i. (oi_user_id i, oi_request_id i) = k) (ts_validation s)"
    using assms(3) group_by_entry(1)[of k g] group_by_entry(1) by fastforce
  have "validation = filter (\<lambda>i. in_validation c (t - hours_us hours) i = Inr True) impressions"
    using filter_res_InrD[OF 1(6)] by simp
  then have "distinct (map (\<lambda>i. (oi_user_id i, oi_request_id i, oi_post_id i)) validation)"
    using assms(2) by (simp add: distinct_map_filter)
  then have inj: "inj_on (\<lambda>i. (oi_user_id i, oi_request_id i, oi_post_id i)) (set validation)" and "distinct validation"
    by (simp_all add: distinct_map)
  then have "distinct g" by (simp add: g 1(7))
  moreover have "inj_on oi_post_id (set g)"
    by (rule inj_onI) (use inj in \<open>auto simp: g 1(7) inj_on_def\<close>)
  ultimately show ?thesis by (simp add: distinct_map)
qed

text \<open>
  An evaluation reports data exactly when some impression is final, counts every final impression,
  and then all its rates lie between zero and one, provided no request serves one post twice (as the
  table's unique key guarantees).
\<close>

theorem evaluate_records_rates:
  assumes ev: "evaluate_records lib impressions evs cutoff_at hours as_of k catalog_size version q = Inr res"
    and uniq: "distinct (map (\<lambda>i. (oi_user_id i, oi_request_id i, oi_post_id i)) impressions)"
  shows "\<exists>s. build_temporal_split impressions evs cutoff_at hours as_of = Inr s \<and>
    er_impressions res = length (ts_validation s) \<and> er_users res \<le> er_impressions res \<and>
    (response_status res = ''insufficient_data'' \<longleftrightarrow> ts_validation s = []) \<and>
    (\<forall>m. er_metrics res = Some m \<longrightarrow> list_all unit_interval (metrics_list m))"
proof -
  obtain s where s: "build_temporal_split impressions evs cutoff_at hours as_of = Inr s"
    using ev by (auto simp: evaluate_records_def split: if_splits)
  show ?thesis
  proof (cases "ts_validation s = []")
    case True
    with ev s show ?thesis by (auto simp: evaluate_records_def response_status_def Let_def split: if_splits)
  next
    case False
    let ?groups = "dvalues (group_by (\<lambda>i. (oi_user_id i, oi_request_id i)) (ts_validation s))"
    obtain scores where scores: "map_res (score_request lib version q (ts_labels s) k) ?groups = Inr scores"
      and res: "er_metrics res = Some
                  \<lparr>em_precision = py_round 4 (fmean (map rs_precision scores)),
                   em_recall = py_round 4 (fmean (map rs_recall scores)),
                   em_ndcg = py_round 4 (fmean (map rs_ndcg scores)),
                   em_hit_rate = py_round 4 (fmean (map rs_hit_rate scores)),
                   em_coverage = py_round 4 (catalog_coverage (map rs_list scores) catalog_size),
                   em_diversity = py_round 4 (fmean (map rs_diversity scores)),
                   em_ctr = py_round 4 (real (card (oi_id ` {i \<in> set (ts_validation s). clicked (ts_labels s) i})) /
                     real (length (ts_validation s))),
                   em_fallback = py_round 4 (real (length (filter (\<lambda>i. oi_feed_source i = ''fallback'') (ts_validation s))) /
                     real (length (ts_validation s)))\<rparr>"
        "er_users res = card (oi_user_id ` set (ts_validation s))" "er_impressions res = length (ts_validation s)"
      using ev s False by (auto simp: evaluate_records_def Let_def split: if_splits)
    have unit: "unit_interval (rs_precision x) \<and> unit_interval (rs_recall x) \<and> unit_interval (rs_ndcg x) \<and>
        unit_interval (rs_hit_rate x) \<and> unit_interval (rs_diversity x)" if x: "x \<in> set scores" for x
    proof -
      obtain g where g: "g \<in> set ?groups" "score_request lib version q (ts_labels s) k g = Inr x"
        using map_res_memD[OF scores x] by blast
      have "distinct (map oi_post_id g)" using split_request_posts[OF s uniq] g(1) by blast
      from score_request_unit[OF g(2) this] show ?thesis .
    qed
    have card_le: "card (f ` {i \<in> set (ts_validation s). P i}) \<le> length (ts_validation s)" for f :: "impression_record \<Rightarrow> uuid" and P
      using card_image_le[of "{i \<in> set (ts_validation s). P i}" f] card_mono[of "set (ts_validation s)" "{i \<in> set (ts_validation s). P i}"]
        card_length[of "ts_validation s"] by fastforce
    have "list_all unit_interval (metrics_list m)" if "er_metrics res = Some m" for m
      using that unit card_le length_filter_le[of "\<lambda>i. oi_feed_source i = ''fallback''" "ts_validation s"]
      unfolding res(1) by (auto simp: metrics_list_def coverage_unit intro!: unit_interval_round fmean_unit ratio_unit)
    moreover have "er_users res \<le> er_impressions res" using card_le[of oi_user_id "\<lambda>_. True"] by (simp add: res)
    ultimately show ?thesis using s False res by (auto simp: response_status_def)
  qed
qed

section \<open>Text metadata\<close>

text \<open>
  A \<open>jsonb\<close> column read as text makes the evaluation raise as soon as the user has one event before the
  evaluation time: \<open>dict\<close> of a nonempty string fails.
\<close>

lemma map_res_fails: "x \<in> set xs \<Longrightarrow> f x = Inl e \<Longrightarrow> \<exists>e'. map_res f xs = Inl e'"
  by (cases "map_res f xs") (auto dest: map_res_argD)

lemma evaluate_text_metadata:
  assumes "row \<in> set (db_events db)" "er_metadata row = VStr (c # cs)" "ob_user_id (er_event row) = user"
    and "aware_at_most (ob_occurred_at (er_event row)) now" "ob_ingested_at (er_event row) = Some t" "aware_at_most t now"
  shows "\<exists>e. evaluate lib db user k cutoff_at hours now version q = Inl e"
proof -
  define cutoff where "cutoff = (case cutoff_at of Some t \<Rightarrow> t | None \<Rightarrow> shift_days (- 7) now)"
  obtain impressions rows where query: "evaluate_endpoint_query db user cutoff now = (impressions, rows)" by fastforce
  have "row \<in> set rows" using query assms by (auto simp: evaluate_endpoint_query_def)
  moreover have "\<exists>e. event_of_row lib row = Inl e" using assms(2) by (simp add: event_of_row_def py_or_def)
  ultimately obtain e where "map_res (event_of_row lib) rows = Inl e" using map_res_fails by metis
  then show ?thesis by (simp add: evaluate_def query cutoff_def[symmetric])
qed

section \<open>Examples\<close>

definition demo_served :: impression_record where
  "demo_served = \<lparr>oi_id = 1, oi_request_id = 2, oi_user_id = 9, oi_post_id = 3, oi_position = 0,
     oi_feed_source = ''personalized'', oi_topics = [''ai''], oi_served_at = Aware 10\<rparr>"

definition demo_behavior :: "int \<Rightarrow> behavior_record" where
  "demo_behavior t = \<lparr>ob_impression_id = Some 1, ob_user_id = 9, ob_post_id = 3, ob_event_type = ''click'',
     ob_occurred_at = Aware t, ob_dwell_ms = None, ob_metadata = None, ob_event_id = Some 7,
     ob_ingested_at = None, ob_event_version = None\<rparr>"

theorem temporal_split_no_leakage_witness:
  "\<exists>s. build_temporal_split [demo_served] [demo_behavior 1, demo_behavior 12] (Aware 5) 1 (Aware 9000000000) = Inr s \<and>
     demo_behavior 12 \<in> set (dget_default (ts_labels s) 1 []) - set (ts_training s) \<and>
     set (ts_training s) = {demo_behavior 1}"
proof -
  have "\<exists>s. build_temporal_split [demo_served] [demo_behavior 1, demo_behavior 12] (Aware 5) 1 (Aware 9000000000) = Inr s \<and>
      dget_default (ts_labels s) 1 [] = [demo_behavior 12]"
    by (simp add: build_temporal_split_def in_training_def in_validation_def label_event_step_def demo_served_def
        demo_behavior_def dget_default_def hours_us_def us_per_hour_def us_per_second_def Let_def)
  then obtain s where s: "build_temporal_split [demo_served] [demo_behavior 1, demo_behavior 12] (Aware 5) 1 (Aware 9000000000) = Inr s"
    "dget_default (ts_labels s) 1 [] = [demo_behavior 12]" by blast
  from temporal_split_no_leakage[OF s(1)] obtain c t where "Aware 5 = Aware c"
    "set (ts_training s) = {e \<in> set [demo_behavior 1, demo_behavior 12]. wall_of (ob_occurred_at e) < c \<and>
      (\<forall>d. ob_ingested_at e = Some d \<longrightarrow> wall_of d < c)}" by (elim exE conjE) (rule that)
  then have "set (ts_training s) = {e \<in> {demo_behavior 1, demo_behavior 12}. wall_of (ob_occurred_at e) < 5 \<and>
      (\<forall>d. ob_ingested_at e = Some d \<longrightarrow> wall_of d < 5)}" by simp
  also have "\<dots> = {demo_behavior 1}"
  proof -
    have "ob_occurred_at (demo_behavior u) = Aware u" "ob_ingested_at (demo_behavior u) = None" for u
      by (simp_all add: demo_behavior_def)
    then show ?thesis by auto
  qed
  finally have "set (ts_training s) = {demo_behavior 1}" .
  moreover have "demo_behavior 12 \<noteq> demo_behavior 1" by (simp add: demo_behavior_def)
  ultimately show ?thesis using s by simp
qed

theorem evaluate_records_rates_witness:
  "\<exists>res m. evaluate_records clock_lib [demo_served] [] (Aware 5) 1 (Aware 9000000000) 10 100 ''v1'' 10000 = Inr res \<and>
     er_metrics res = Some m \<and> list_all unit_interval (metrics_list m)"
proof -
  have split: "build_temporal_split [demo_served] [] (Aware 5) 1 (Aware 9000000000) =
      Inr \<lparr>ts_training = [], ts_validation = [demo_served], ts_labels = []\<rparr>"
    by (simp add: build_temporal_split_def in_validation_def demo_served_def hours_us_def us_per_hour_def us_per_second_def Let_def)
  have label: "\<exists>label. impression_label clock_lib ''v1'' 10000 [] = Inr label \<and> training_target label = Some 0"
    by (simp add: impression_label_def derive_label_def dedup_events_def dedup_init_def sort_events_def sorted_res_def
        label_init_def label_candidates_def active_flag_def dget_default_def find_PRECEDENCE target_of_def)
  have "relevant_posts clock_lib ''v1'' 10000 [] [demo_served] = Inr {}"
    using label by (auto simp: relevant_posts_def dget_default_def simp del: bind_res_Inr)
  moreover have "sort_key oi_position [demo_served] = [demo_served]" by simp
  moreover obtain p r n h where "precision_at_k [3 :: uuid] {} 10 = Inr p" "recall_at_k [3 :: uuid] {} 10 = Inr r"
    "ndcg_at_k [3 :: uuid] {} 10 = Inr n" "hit_rate_at_k [3 :: uuid] {} 10 = Inr h" using metrics_total[of 10 "[3 :: uuid]" "{}"] by auto
  moreover have "map oi_post_id [demo_served] = [3]" by (simp add: demo_served_def)
  ultimately have scored: "\<exists>sc. score_request clock_lib ''v1'' 10000 [] 10 [demo_served] = Inr sc"
    unfolding score_request_def Let_def by (simp only: bind_res.simps) blast
  have "\<exists>res m. evaluate_records clock_lib [demo_served] [] (Aware 5) 1 (Aware 9000000000) 10 100 ''v1'' 10000 = Inr res \<and>
      er_metrics res = Some m"
    using scored by (auto simp: evaluate_records_def split group_by_def group_add_def dget_default_def)
  then obtain res m where r: "evaluate_records clock_lib [demo_served] [] (Aware 5) 1 (Aware 9000000000) 10 100 ''v1'' 10000 = Inr res"
    "er_metrics res = Some m" by blast
  from evaluate_records_rates[OF r(1)] r show ?thesis by auto
qed

end
