(* ===== verification/PreferenceServe.thy ===== *)
theory PreferenceServe
  imports FeatureStore DatasetHistory
begin

text \<open>
  The preference half of \<open>recommendation_api/app/db.py\<close>, over the tables and the cache the feature
  store worker writes: decoding cached and stored vectors, projecting a v2 vector to serving time and
  blending it with declared topics, and the order in which \<open>fetch_user_vector\<close> tries its sources. The
  last section shows that what the worker stored is what is served. \<open>serve_cfg\<close> is
  \<open>recommendation_api/app/settings.py\<close>.
\<close>

section \<open>Settings\<close>

record serve_cfg = history_limits +
  sc_feed_candidate_pool :: int
  sc_half_life_hours :: real
  sc_seen_cooldown_days :: int
  sc_declared_topic_weight :: real
  sc_telemetry_sample_rate :: real
  sc_semantic_enabled :: bool
  sc_model_timeout_ms :: int
  sc_label_version :: string
  sc_qualified_read_ms :: int
  sc_preference_schema_version :: string
  sc_preference_half_life_hours :: real
  sc_behavior_coefficient :: real
  sc_declared_coefficient :: real
  sc_evidence_saturation :: real
  sc_history_cache_ttl_seconds :: int
  sc_history_lookup_slack :: int

text \<open>The field constraints \<open>Settings\<close> is validated against when it is constructed.\<close>

definition settings_valid :: "serve_cfg \<Rightarrow> bool" where
  "settings_valid c \<longleftrightarrow>
     0 \<le> sc_seen_cooldown_days c \<and> sc_seen_cooldown_days c \<le> 3650 \<and>
     0 \<le> sc_declared_topic_weight c \<and> sc_declared_topic_weight c \<le> 100 \<and>
     0 \<le> sc_telemetry_sample_rate c \<and> sc_telemetry_sample_rate c \<le> 1 \<and>
     1 \<le> sc_model_timeout_ms c \<and> sc_model_timeout_ms c \<le> 400 \<and>
     sc_label_version c \<in> {''v1'', ''v2''} \<and>
     0 < sc_qualified_read_ms c \<and> sc_qualified_read_ms c \<le> 1800000 \<and>
     sc_preference_schema_version c \<in> {''v1'', ''v2''} \<and>
     0 < sc_preference_half_life_hours c \<and> 0 \<le> sc_behavior_coefficient c \<and>
     0 \<le> sc_declared_coefficient c \<and> 0 < sc_evidence_saturation c \<and>
     0 \<le> dc_history_recent_limit c \<and> dc_history_recent_limit c \<le> 500 \<and>
     0 \<le> dc_history_long_term_limit c \<and> dc_history_long_term_limit c \<le> 500 \<and>
     1 \<le> sc_history_cache_ttl_seconds c \<and> sc_history_cache_ttl_seconds c \<le> 86400 \<and>
     0 \<le> sc_history_lookup_slack c \<and> sc_history_lookup_slack c \<le> 500"

section \<open>Decoding\<close>

text \<open>An \<open>except\<close> clause that turns the listed exceptions into \<open>None\<close>.\<close>

fun suppress :: "(py_error \<Rightarrow> bool) \<Rightarrow> 'a option res \<Rightarrow> 'a option res" where
  "suppress caught (Inl e) = (if caught e then Inr None else Inl e)"
| "suppress caught (Inr x) = Inr x"

fun type_or_value :: "py_error \<Rightarrow> bool" where
  "type_or_value (TypeError _) = True"
| "type_or_value (ValueError _) = True"
| "type_or_value _ = False"

text \<open>\<open>json.loads(raw) if isinstance(raw, str) else raw\<close>\<close>

definition json_text :: "pylib \<Rightarrow> pyval \<Rightarrow> pyval res" where
  "json_text lib raw =
     (case raw of
        VStr s \<Rightarrow> (case json_loads lib s of None \<Rightarrow> Inl (ValueError ''JSONDecodeError'') | Some v \<Rightarrow> Inr v)
      | _ \<Rightarrow> Inr raw)"

fun parse_timestamp :: "pylib \<Rightarrow> pyval \<Rightarrow> instant res" where
  "parse_timestamp lib (VTime (Aware t)) = Inr t"
| "parse_timestamp lib (VTime (Naive t)) = Inl (ValueError ''reference_at must include timezone'')"
| "parse_timestamp lib (VStr s) =
     bind_res (parse_iso lib s) (\<lambda>d. case d of
        Aware t \<Rightarrow> Inr t | Naive t \<Rightarrow> Inl (ValueError ''reference_at must include timezone''))"
| "parse_timestamp lib _ = Inl (TypeError ''reference_at is required'')"

definition float_items :: "pylib \<Rightarrow> (string, pyval) dict \<Rightarrow> channel res" where
  "float_items lib d = map_res (\<lambda>(key, weight). bind_res (py_float lib weight) (\<lambda>w. Inr (key, w))) d"

definition numeric_channel :: "pylib \<Rightarrow> pyval \<Rightarrow> channel res" where
  "numeric_channel lib value =
     bind_res (json_text lib value) (\<lambda>v. case v of
        VMap d \<Rightarrow> bind_res (float_items lib d) (\<lambda>channel.
          if list_ex (\<lambda>(_, weight). weight < 0 \<or> weight > 10) channel
          then Inl (ValueError ''preference channel value out of bounds'') else Inr channel)
      | _ \<Rightarrow> Inl (TypeError ''preference channel must be an object''))"

definition decode_v1 :: "pylib \<Rightarrow> pyval \<Rightarrow> channel option res" where
  "decode_v1 lib raw =
     (if raw = VNone then Inr None
      else suppress type_or_value (bind_res (json_text lib raw) (\<lambda>v. case v of
        VMap d \<Rightarrow> bind_res (float_items lib d) (\<lambda>ch. Inr (Some ch))
      | _ \<Rightarrow> Inr None)))"

definition decode_v2_payload :: "pylib \<Rightarrow> pyval \<Rightarrow> (string, pyval) dict option res" where
  "decode_v2_payload lib raw =
     (if raw = VNone then Inr None
      else suppress type_or_value (bind_res (json_text lib raw) (\<lambda>v. case v of
        VMap d \<Rightarrow>
          if vget d ''schema_version'' \<noteq> VStr PREFERENCE_SCHEMA_V2 then Inr None
          else bind_res (numeric_channel lib (vget d ''positive'')) (\<lambda>_.
               bind_res (numeric_channel lib (vget d ''negative'')) (\<lambda>_.
               bind_res (parse_timestamp lib (vget d ''reference_at'')) (\<lambda>_. Inr (Some d))))
      | _ \<Rightarrow> Inr None)))"

text \<open>The row of \<open>user_preference_vectors_v2\<close>; its jsonb columns parse back to the weights.\<close>

definition v2_row_payload :: "pylib \<Rightarrow> feature_db \<Rightarrow> uuid \<Rightarrow> (string, pyval) dict option res" where
  "v2_row_payload lib db user =
     (case dget (vectors_v2 db) user of
        None \<Rightarrow> Inr None
      | Some v \<Rightarrow> decode_v2_payload lib (vector_payload lib v))"

section \<open>Projecting and blending\<close>

definition serve_normalize :: "channel \<Rightarrow> channel" where
  "serve_normalize ch =
     (let total = sum_list (dvalues ch) in if total > 0 then map (\<lambda>(key, v). (key, v / total)) ch else [])"

definition scale_channel :: "real \<Rightarrow> channel \<Rightarrow> channel" where
  "scale_channel factor ch = map (\<lambda>(k, v). (k, v * factor)) ch"

definition age_factor :: "instant \<Rightarrow> instant \<Rightarrow> real \<Rightarrow> real" where
  "age_factor serving_at reference_at half_life_hours =
     exp2 (- max 0 (total_seconds (serving_at - reference_at) / 3600) / half_life_hours)"

definition merge_preference_vector_v2 ::
    "pylib \<Rightarrow> (string, pyval) dict \<Rightarrow> string list \<Rightarrow> instant \<Rightarrow> real \<Rightarrow> real \<Rightarrow> real \<Rightarrow> real \<Rightarrow> channel res" where
  "merge_preference_vector_v2 lib payload declared_topics serving_at half_life_hours
      behavior_coefficient declared_coefficient evidence_saturation =
     (if vget payload ''schema_version'' \<noteq> VStr PREFERENCE_SCHEMA_V2
      then Inl (ValueError ''unsupported preference schema'')
      else if half_life_hours \<le> 0 \<or> evidence_saturation \<le> 0
      then Inl (ValueError ''decay and saturation values must be positive'')
      else if behavior_coefficient < 0 \<or> declared_coefficient < 0
      then Inl (ValueError ''blend coefficients must be non-negative'')
      else
        bind_res (parse_timestamp lib (vget payload ''reference_at'')) (\<lambda>reference_at.
        bind_res (numeric_channel lib (vget payload ''positive'')) (\<lambda>pos.
        bind_res (numeric_channel lib (vget payload ''negative'')) (\<lambda>neg.
          let factor = age_factor serving_at reference_at half_life_hours;
              positive = scale_channel factor pos;
              negative = scale_channel factor neg;
              evidence = max (sum_list (dvalues positive)) (sum_list (dvalues negative));
              confidence = min 1 (evidence / evidence_saturation);
              coefficient_total = behavior_coefficient + declared_coefficient in
          if coefficient_total \<le> 0 then Inr []
          else
            let b = behavior_coefficient / coefficient_total;
                d = declared_coefficient / coefficient_total;
                declared = sorted_list_of_set (set (filter (\<lambda>t. t \<noteq> []) declared_topics));
                declared_norm = map (\<lambda>t. (t, 1 / real (length declared))) declared;
                m1 = merge_channel (b * confidence) [] (serve_normalize positive);
                m2 = merge_channel (- (b * confidence)) m1 (serve_normalize negative);
                merged = merge_channel d m2 declared_norm in
            Inr (map (\<lambda>(t, v). (t, py_round 10 v)) (filter (\<lambda>(t, v). v \<noteq> 0) (sort_key fst merged)))))))"

definition merge_with_config ::
    "pylib \<Rightarrow> serve_cfg \<Rightarrow> instant \<Rightarrow> (string, pyval) dict \<Rightarrow> string list \<Rightarrow> channel res" where
  "merge_with_config lib cfg now payload declared =
     merge_preference_vector_v2 lib payload declared now (sc_preference_half_life_hours cfg)
       (sc_behavior_coefficient cfg) (sc_declared_coefficient cfg) (sc_evidence_saturation cfg)"

section \<open>The sources, in order\<close>

text \<open>
  A tracked user whose next refresh is \<open>infinity\<close> (\<open>None\<close>) has no recent topics. The worker, the only
  writer of this table in the repository, always sets \<open>refreshed_at\<close>.
\<close>

definition declared_topics_of :: "feature_db \<Rightarrow> uuid \<Rightarrow> string list" where
  "declared_topics_of db user =
     (case dget (user_topics db) user of
        None \<Rightarrow> []
      | Some topics \<Rightarrow> (case dget (recent_prefs db) user of Some (_, None) \<Rightarrow> [] | _ \<Rightarrow> topics))"

definition recent_topics_row :: "feature_db \<Rightarrow> uuid \<Rightarrow> string list option" where
  "recent_topics_row db user =
     (case dget (user_topics db) user of
        None \<Rightarrow> None
      | Some topics \<Rightarrow> (case dget (recent_prefs db) user of
          None \<Rightarrow> None | Some (_, None) \<Rightarrow> Some [] | Some (_, Some _) \<Rightarrow> Some topics))"

definition ranked_vector :: "string list \<Rightarrow> channel" where
  "ranked_vector topics =
     (let n = length topics in map (\<lambda>(i, t). (t, (real n - real i) / real n)) (enumerate 0 topics))"

definition merge_v1_with_declared :: "feature_db \<Rightarrow> uuid \<Rightarrow> real \<Rightarrow> channel \<Rightarrow> channel" where
  "merge_v1_with_declared db user weight behavior =
     (if weight \<le> 0 then behavior
      else merge_channel weight behavior (map (\<lambda>t. (t, 1)) (dedup (declared_topics_of db user))))"

definition cache_get :: "cache_store \<Rightarrow> string \<Rightarrow> pyval" where
  "cache_get cache key = (case dget cache key of None \<Rightarrow> VNone | Some (v, _) \<Rightarrow> v)"

definition cached_v1 :: "pylib \<Rightarrow> cache_store \<Rightarrow> uuid \<Rightarrow> channel option res" where
  "cached_v1 lib cache user =
     bind_res (decode_v1 lib (cache_get cache (''pref:v1:'' @ str_uuid user))) (\<lambda>v1. case v1 of
        Some ch \<Rightarrow> Inr (Some ch)
      | None \<Rightarrow> decode_v1 lib (cache_get cache (''pref:'' @ str_uuid user)))"

definition stored_v1 :: "pylib \<Rightarrow> feature_db \<Rightarrow> uuid \<Rightarrow> channel option res" where
  "stored_v1 lib db user = decode_v1 lib (v1_row_json db user)"

definition declared_vector :: "feature_db \<Rightarrow> uuid \<Rightarrow> real \<Rightarrow> channel" where
  "declared_vector db user weight =
     (if weight \<le> 0 then [] else map (\<lambda>t. (t, weight)) (sorted_list_of_set (set (declared_topics_of db user))))"

definition v1_or_declared :: "pylib \<Rightarrow> serve_cfg \<Rightarrow> uuid \<Rightarrow> feature_db \<Rightarrow> channel res" where
  "v1_or_declared lib cfg user db =
     bind_res (stored_v1 lib db user) (\<lambda>row. case row of
        Some ch \<Rightarrow> Inr (merge_v1_with_declared db user (sc_declared_topic_weight cfg) ch)
      | None \<Rightarrow> Inr (declared_vector db user (sc_declared_topic_weight cfg)))"

definition fetch_user_vector :: "pylib \<Rightarrow> serve_cfg \<Rightarrow> instant \<Rightarrow> uuid \<Rightarrow> feature_world \<Rightarrow> channel res" where
  "fetch_user_vector lib cfg now user w =
     (let db = w_db w; cache = w_cache w; weight = sc_declared_topic_weight cfg in
      case recent_topics_row db user of
        Some topics \<Rightarrow> Inr (ranked_vector (dedup topics))
      | None \<Rightarrow>
          if sc_preference_schema_version cfg = ''v2'' then
            bind_res (decode_v2_payload lib (cache_get cache (''pref:v2:'' @ str_uuid user))) (\<lambda>cached. case cached of
              Some payload \<Rightarrow> merge_with_config lib cfg now payload (declared_topics_of db user)
            | None \<Rightarrow>
                bind_res (cached_v1 lib cache user) (\<lambda>v1. case v1 of
                  Some ch \<Rightarrow> Inr (merge_v1_with_declared db user weight ch)
                | None \<Rightarrow>
                    bind_res (v2_row_payload lib db user) (\<lambda>row. case row of
                      Some payload \<Rightarrow> merge_with_config lib cfg now payload (declared_topics_of db user)
                    | None \<Rightarrow> v1_or_declared lib cfg user db)))
          else
            bind_res (cached_v1 lib cache user) (\<lambda>v1. case v1 of
              Some ch \<Rightarrow> Inr (merge_v1_with_declared db user weight ch)
            | None \<Rightarrow> v1_or_declared lib cfg user db))"

section \<open>Serving never fails on stored values\<close>

lemma suppress_ok: "raises_only caught r \<Longrightarrow> \<exists>x. suppress caught r = Inr x"
  by (cases r) auto

lemma suppress_Some: "suppress caught r = Inr (Some x) \<longleftrightarrow> r = Inr (Some x)"
  by (cases r) auto

lemma py_float_raises [intro]: "raises_only type_or_value (py_float lib v)"
  by (cases v) (auto split: option.split)

lemma parse_iso_raises [intro]: "raises_only type_or_value (parse_iso lib s)"
  by (auto simp: parse_iso_def split: option.split)

lemma json_text_raises [intro]: "raises_only type_or_value (json_text lib v)"
  by (cases v) (auto simp: json_text_def split: option.split)

lemma float_items_raises [intro]: "raises_only type_or_value (float_items lib d)"
  unfolding float_items_def by (rule raises_only_map_res) (auto intro!: raises_only_bind)

lemma numeric_channel_raises [intro]: "raises_only type_or_value (numeric_channel lib v)"
  unfolding numeric_channel_def by (intro raises_only_bind json_text_raises) (auto split: pyval.split)

lemma parse_timestamp_raises [intro]: "raises_only type_or_value (parse_timestamp lib v)"
  by (induction lib v rule: parse_timestamp.induct) (auto split: datetime.split)

lemma decode_v1_total: "\<exists>x. decode_v1 lib raw = Inr x"
proof (cases "raw = VNone")
  case False
  then show ?thesis unfolding decode_v1_def if_not_P[OF False]
    by (intro suppress_ok raises_only_bind json_text_raises) (auto split: pyval.split)
qed (simp add: decode_v1_def)

lemma decode_v2_total: "\<exists>x. decode_v2_payload lib raw = Inr x"
proof (cases "raw = VNone")
  case False
  then show ?thesis unfolding decode_v2_payload_def if_not_P[OF False]
    by (intro suppress_ok raises_only_bind json_text_raises) (auto split: pyval.split intro!: raises_only_bind)
qed (simp add: decode_v2_payload_def)

lemma decode_v2_valid:
  assumes "decode_v2_payload lib raw = Inr (Some d)"
  shows "vget d ''schema_version'' = VStr PREFERENCE_SCHEMA_V2 \<and> (\<exists>p. numeric_channel lib (vget d ''positive'') = Inr p) \<and>
    (\<exists>n. numeric_channel lib (vget d ''negative'') = Inr n) \<and> (\<exists>t. parse_timestamp lib (vget d ''reference_at'') = Inr t)"
proof -
  obtain v where v: "(case v of
        VMap d \<Rightarrow>
          if vget d ''schema_version'' \<noteq> VStr PREFERENCE_SCHEMA_V2 then Inr None
          else bind_res (numeric_channel lib (vget d ''positive'')) (\<lambda>_.
               bind_res (numeric_channel lib (vget d ''negative'')) (\<lambda>_.
               bind_res (parse_timestamp lib (vget d ''reference_at'')) (\<lambda>_. Inr (Some d))))
      | _ \<Rightarrow> Inr None) = Inr (Some d)"
    using assms unfolding decode_v2_payload_def by (auto simp: suppress_Some simp del: bind_res_Inr elim!: bind_resE split: if_splits)
  then show ?thesis by (cases v) (auto split: if_splits)
qed

lemma merge_with_config_total:
  assumes "settings_valid cfg" "decode_v2_payload lib raw = Inr (Some d)"
  shows "\<exists>m. merge_with_config lib cfg now d declared = Inr m"
proof -
  obtain p n t where ok: "vget d ''schema_version'' = VStr PREFERENCE_SCHEMA_V2"
    "numeric_channel lib (vget d ''positive'') = Inr p" "numeric_channel lib (vget d ''negative'') = Inr n"
    "parse_timestamp lib (vget d ''reference_at'') = Inr t"
    using decode_v2_valid[OF assms(2)] by blast
  have c: "\<not> (sc_preference_half_life_hours cfg \<le> 0 \<or> sc_evidence_saturation cfg \<le> 0)"
    "\<not> (sc_behavior_coefficient cfg < 0 \<or> sc_declared_coefficient cfg < 0)"
    using assms(1) by (auto simp: settings_valid_def)
  show ?thesis
    unfolding merge_with_config_def merge_preference_vector_v2_def if_not_P[OF c(1)] if_not_P[OF c(2)] ok bind_res.simps
    by (simp add: Let_def)
qed

lemma cached_v1_total: "\<exists>x. cached_v1 lib cache user = Inr x"
  unfolding cached_v1_def raises_only_never[symmetric]
  by (intro raises_only_bind) (auto simp: raises_only_never decode_v1_total split: option.split)

lemma v1_or_declared_total: "\<exists>m. v1_or_declared lib cfg user db = Inr m"
  unfolding v1_or_declared_def stored_v1_def raises_only_never[symmetric]
  by (intro raises_only_bind) (auto simp: raises_only_never decode_v1_total split: option.split)

lemma v2_row_payload_total: "\<exists>x. v2_row_payload lib db user = Inr x"
  using decode_v2_total by (auto simp: v2_row_payload_def split: option.splits)

lemma v2_row_valid: "v2_row_payload lib db user = Inr (Some d) \<Longrightarrow> \<exists>raw. decode_v2_payload lib raw = Inr (Some d)"
  by (auto simp: v2_row_payload_def split: option.splits)

lemma fetch_untracked_total:
  assumes "settings_valid cfg" "recent_topics_row (w_db w) user = None"
  shows "\<exists>m. fetch_user_vector lib cfg now user w = Inr m"
proof -
  let ?db = "w_db w" and ?cache = "w_cache w"
  obtain v1 where v1: "cached_v1 lib ?cache user = Inr v1" using cached_v1_total by blast
  obtain row where row: "v2_row_payload lib ?db user = Inr row" using v2_row_payload_total by blast
  obtain cached where cached: "decode_v2_payload lib (cache_get ?cache (''pref:v2:'' @ str_uuid user)) = Inr cached"
    using decode_v2_total by blast
  obtain last where last: "v1_or_declared lib cfg user ?db = Inr last" using v1_or_declared_total by blast
  have fetch: "fetch_user_vector lib cfg now user w =
      (if sc_preference_schema_version cfg = ''v2''
       then case cached of
          Some payload \<Rightarrow> merge_with_config lib cfg now payload (declared_topics_of ?db user)
        | None \<Rightarrow> (case v1 of
            Some ch \<Rightarrow> Inr (merge_v1_with_declared ?db user (sc_declared_topic_weight cfg) ch)
          | None \<Rightarrow> (case row of
              Some payload \<Rightarrow> merge_with_config lib cfg now payload (declared_topics_of ?db user) | None \<Rightarrow> Inr last))
       else case v1 of
          Some ch \<Rightarrow> Inr (merge_v1_with_declared ?db user (sc_declared_topic_weight cfg) ch) | None \<Rightarrow> Inr last)"
    unfolding fetch_user_vector_def Let_def assms(2) option.case cached v1 row last bind_res.simps ..
  have "\<exists>m. merge_with_config lib cfg now d (declared_topics_of ?db user) = Inr m" if "cached = Some d \<or> row = Some d" for d
    using that merge_with_config_total[OF assms(1)] cached row v2_row_valid by blast
  then show ?thesis unfolding fetch by (cases cached; cases v1; cases row) auto
qed

text \<open>The vector of a tracked user: topics in rank order with weights falling from one.\<close>

lemma ranked_vector_nth:
  assumes "i < length topics"
  shows "ranked_vector topics ! i = (topics ! i, (real (length topics) - real i) / real (length topics))"
  using assms by (simp add: ranked_vector_def Let_def nth_enumerate_eq)

lemma dkeys_ranked_vector [simp]: "dkeys (ranked_vector topics) = topics"
  by (simp add: ranked_vector_def Let_def o_def case_prod_beta)

lemma ranked_vector_bounds: "(t, v) \<in> set (ranked_vector topics) \<Longrightarrow> 0 < v \<and> v \<le> 1"
  by (auto simp: ranked_vector_def Let_def in_set_enumerate_eq divide_le_eq intro!: divide_pos_pos)

lemma fetch_user_vector_ok: "settings_valid cfg \<Longrightarrow> \<exists>m. fetch_user_vector lib cfg now user w = Inr m"
  using fetch_untracked_total by (cases "recent_topics_row (w_db w) user") (auto simp: fetch_user_vector_def Let_def)

text \<open>
  Loading a user's vector never fails, whatever is cached or stored: undecodable values are skipped
  for the next source. A user with tracked recent topics gets exactly those, in their order, with
  weights in the unit interval.
\<close>

theorem fetch_user_vector_total:
  assumes "settings_valid cfg"
  shows "\<exists>m. fetch_user_vector lib cfg now user w = Inr m \<and>
    (case recent_topics_row (w_db w) user of
       None \<Rightarrow> True
     | Some topics \<Rightarrow> dkeys m = dedup topics \<and> list_all (\<lambda>(t, v). 0 < v \<and> v \<le> 1) m)"
proof (cases "recent_topics_row (w_db w) user")
  case None
  then show ?thesis using fetch_untracked_total[OF assms None] by simp
next
  case (Some topics)
  then have "fetch_user_vector lib cfg now user w = Inr (ranked_vector (dedup topics))"
    by (simp add: fetch_user_vector_def Let_def)
  then show ?thesis using Some ranked_vector_bounds by (auto simp: list_all_iff)
qed

definition demo_serve :: serve_cfg where
  "demo_serve = \<lparr>dc_history_recent_limit = 20, dc_history_long_term_limit = 30, sc_feed_candidate_pool = 300,
     sc_half_life_hours = 36, sc_seen_cooldown_days = 7, sc_declared_topic_weight = 1, sc_telemetry_sample_rate = 0,
     sc_semantic_enabled = False, sc_model_timeout_ms = 150, sc_label_version = ''v1'', sc_qualified_read_ms = 10000,
     sc_preference_schema_version = ''v2'', sc_preference_half_life_hours = 720, sc_behavior_coefficient = 3 / 4,
     sc_declared_coefficient = 1 / 4, sc_evidence_saturation = 5 / 2, sc_history_cache_ttl_seconds = 1800,
     sc_history_lookup_slack = 50\<rparr>"

lemma demo_serve_valid [simp]: "settings_valid demo_serve"
  by (simp add: settings_valid_def demo_serve_def)

definition demo_world :: feature_world where
  "demo_world = \<lparr>w_db = demo_db\<lparr>user_topics := [(7, [''ai'', ''tech''])], recent_prefs := [(7, (0, Some 5))]\<rparr>,
     w_cache = [(''pref:v2:'' @ str_uuid 7, (VStr ''not json'', 60))]\<rparr>"

theorem fetch_user_vector_total_witness:
  "\<exists>m. fetch_user_vector clock_lib demo_serve 0 7 demo_world = Inr m \<and> dkeys m = [''ai'', ''tech'']"
proof -
  have row: "recent_topics_row (w_db demo_world) 7 = Some [''ai'', ''tech'']"
    by (simp add: recent_topics_row_def demo_world_def)
  have "dedup [''ai'', ''tech''] = [''ai'', ''tech'']" by (simp add: dedup_def)
  then show ?thesis using fetch_user_vector_total[OF demo_serve_valid, of clock_lib 0 7 demo_world] by (auto simp: row)
qed

section \<open>Serving agrees with the worker's blend\<close>

text \<open>\<open>_normalize\<close> and \<open>normalize_channel\<close> give every topic the same weight on non-negative channels.\<close>

lemma normalized_weight:
  assumes "distinct (dkeys ch)" "\<And>t v. (t, v) \<in> set ch \<Longrightarrow> 0 \<le> v"
  shows "dget_default (map (\<lambda>(t, v). (t, max 0 v / tot)) (filter (\<lambda>(t, v). v > 0) ch)) k 0 =
    dget_default (map (\<lambda>(t, v). (t, v / tot)) ch) k (0 :: real)"
  using assms
proof (induction ch)
  case (Cons x ch)
  obtain t v where x: "x = (t, v)" by fastforce
  have "0 \<le> v" using Cons.prems(2)[of t v] x by simp
  moreover have "t \<notin> set (dkeys ch)" using Cons.prems(1) x by simp
  then have "(t, b) \<notin> set ch" for b by force
  then have "dget_default (map (\<lambda>(t, v). (t, max 0 v / tot)) (filter (\<lambda>(t, v). v > 0) ch)) t 0 = 0"
    using Cons.prems(1) x by (auto simp: dget_default_def map_of_eq_None_iff split: option.split dest!: map_of_SomeD)
  ultimately show ?case using Cons x by (auto simp: dget_default_def max_def)
qed simp

lemma normalize_agree:
  assumes "distinct (dkeys ch)" "\<And>t v. (t, v) \<in> set ch \<Longrightarrow> 0 \<le> v"
  shows "dget_default (normalize_channel ch) k 0 = dget_default (serve_normalize ch) k 0"
proof -
  have "max 0 v = v" if "v \<in> set (dvalues ch)" for v using that assms(2) by (auto simp: max_def)
  then have eq: "map (\<lambda>v. max 0 v) (dvalues ch) = dvalues ch" by (rule map_idI)
  show ?thesis
    using normalized_weight[OF assms, where tot = "sum_list (dvalues ch)"]
    unfolding normalize_channel_def serve_normalize_def Let_def eq by (simp add: not_le)
qed

lemma kept_entry:
  assumes "distinct (dkeys ch)"
  shows "(t, v) \<in> set ch \<and> keep_rounded True v \<longleftrightarrow> dget_default ch t 0 = v \<and> keep_rounded True v"
proof -
  have "\<not> keep_rounded True 0" by (simp add: keep_rounded_def)
  moreover have "(t, v) \<in> set ch \<longleftrightarrow> dget ch t = Some v" using assms by (auto dest: map_of_SomeD)
  ultimately show ?thesis by (cases "dget ch t") (auto simp: dget_default_def)
qed

lemma kept_agree:
  assumes "distinct (dkeys A)" "distinct (dkeys B)" "\<And>k. dget_default A k 0 = dget_default B k 0"
  shows "filter (\<lambda>(t, v). keep_rounded True v) (sort_key fst A) = filter (\<lambda>(t, v). keep_rounded True v) (sort_key id B)"
    (is "?l = ?r")
proof (rule sorted_distinct_map_unique)
  have mem: "(t, v) \<in> set ?l \<longleftrightarrow> (t, v) \<in> set ?r" for t v
    using kept_entry[OF assms(1), of t v] kept_entry[OF assms(2), of t v] assms(3)[of t] by auto
  then show "set ?l = set ?r" by auto
  have dA: "distinct (dkeys (sort_key fst A))"
    using assms(1) by (rule mset_eq_imp_distinct_iff[THEN iffD2, rotated]) simp
  then have dl: "distinct (dkeys ?l)" by (rule distinct_map_filter)
  show "distinct ?l" using dl by (simp add: distinct_map)
  show "inj_on fst (set ?l)" using dl by (simp add: distinct_map)
  show "distinct ?r" using distinct_map_filter[OF distinct_fst_sort[OF assms(2)]] by (simp add: distinct_map)
  show "sorted (dkeys ?l)" by (rule sorted_filter) simp
  have "sorted (sort_key id B)" using sorted_sort_key[of id B] by simp
  then have "sorted (dkeys (sort_key id B))"
    by (rule sorted_map_mono) (auto simp: mono_on_def less_eq_prod_def)
  then show "sorted (dkeys ?r)" by (rule sorted_filter)
qed

lemma rounded_kept_agree:
  assumes "distinct (dkeys A)" "distinct (dkeys B)" "\<And>k. dget_default A k 0 = dget_default B k 0"
  shows "filter (\<lambda>(t, v). \<bar>v\<bar> > 1 / 10 ^ 12)
      (map (\<lambda>(t, v). (t, py_round 10 v)) (filter (\<lambda>(t, v). v \<noteq> 0) (sort_key fst A))) = rounded_channel True B"
proof -
  have "filter (\<lambda>(t, v). \<bar>v\<bar> > 1 / 10 ^ 12) (map (\<lambda>(t, v). (t, py_round 10 v)) (filter (\<lambda>(t, v). v \<noteq> 0) xs)) =
    map (\<lambda>(t, v). (t, py_round 10 v)) (filter (\<lambda>(t, v). keep_rounded True v) xs)" for xs
    by (induction xs) (auto simp: keep_rounded_def)
  from this[of "sort_key fst A"] show ?thesis unfolding kept_agree[OF assms] rounded_channel_alt[OF assms(2)] .
qed

lemma numeric_channel_bounds: "numeric_channel lib v = Inr ch \<Longrightarrow> (t, x) \<in> set ch \<Longrightarrow> 0 \<le> x \<and> x \<le> 10"
  by (fastforce simp: numeric_channel_def list_ex_iff simp del: bind_res_Inr elim!: bind_resE split: pyval.splits if_splits)

lemma scale_channel_facts:
  assumes "numeric_channel lib v = Inr ch" "0 \<le> factor"
  shows "dkeys (scale_channel factor ch) = dkeys ch" "(t, x) \<in> set (scale_channel factor ch) \<Longrightarrow> 0 \<le> x"
    "0 \<le> sum_list (dvalues (scale_channel factor ch))"
proof -
  show keys: "dkeys (scale_channel factor ch) = dkeys ch" by (simp add: scale_channel_def o_def case_prod_beta)
  show pos: "(t, x) \<in> set (scale_channel factor ch) \<Longrightarrow> 0 \<le> x" for t x
    using numeric_channel_bounds[OF assms(1)] assms(2) by (auto simp: scale_channel_def)
  show "0 \<le> sum_list (dvalues (scale_channel factor ch))" using pos by (intro sum_list_nonneg) auto
qed

lemma age_factor_nonneg: "0 \<le> age_factor now ref hl"
  by (simp add: age_factor_def exp2_def)


definition demo_payload :: "(string, pyval) dict" where
  "demo_payload = [(''schema_version'', VStr PREFERENCE_SCHEMA_V2), (''positive'', VMap [(''ai'', VFloat 2)]),
     (''negative'', VMap [(''tech'', VFloat 1)]), (''reference_at'', VTime (Aware 0)), (''source_event_count'', VInt 3)]"

lemma demo_payload_fields [simp]:
  "vget demo_payload ''schema_version'' = VStr PREFERENCE_SCHEMA_V2"
  "parse_timestamp clock_lib (vget demo_payload ''reference_at'') = Inr 0"
  "numeric_channel clock_lib (vget demo_payload ''positive'') = Inr [(''ai'', 2)]"
  "numeric_channel clock_lib (vget demo_payload ''negative'') = Inr [(''tech'', 1)]"
  by (simp_all add: demo_payload_def vget_def numeric_channel_def json_text_def float_items_def)


section \<open>What the worker wrote is what is served\<close>

definition vector_fields :: "pylib \<Rightarrow> pref_vector \<Rightarrow> (string, pyval) dict" where
  "vector_fields lib v =
     [(''schema_version'', VStr PREFERENCE_SCHEMA_V2),
      (''positive'', encode_weights (pv_positive v)), (''negative'', encode_weights (pv_negative v)),
      (''reference_at'', VStr (isoformat lib (Aware (pv_reference_at v)))),
      (''source_event_count'', VInt (int (pv_source_event_count v)))]"

text \<open>The reader accepts channel values up to ten, whatever bound the worker is configured with.\<close>

definition readable :: "pylib \<Rightarrow> pref_vector \<Rightarrow> bool" where
  "readable lib v \<longleftrightarrow>
     \<not> list_ex (\<lambda>(_, x). x < 0 \<or> x > 10) (pv_positive v @ pv_negative v) \<and>
     (\<exists>t. parse_timestamp lib (VStr (isoformat lib (Aware (pv_reference_at v)))) = Inr t)"

lemma numeric_channel_encode:
  "numeric_channel lib (encode_weights ch) =
     (if list_ex (\<lambda>(_, x). x < 0 \<or> x > 10) ch then Inl (ValueError ''preference channel value out of bounds'') else Inr ch)"
proof -
  have "float_items lib (map (\<lambda>(k, w). (k, VFloat w)) ch) = Inr ch"
    unfolding float_items_def by (induction ch) auto
  then show ?thesis by (simp add: numeric_channel_def encode_weights_def json_text_def)
qed

lemma decode_stored_v2:
  "decode_v2_payload lib (vector_payload lib v) = Inr (if readable lib v then Some (vector_fields lib v) else None)"
proof -
  have p: "vector_payload lib v = VMap (vector_fields lib v)" by (simp add: vector_payload_def vector_fields_def)
  have f: "vget (vector_fields lib v) ''schema_version'' = VStr PREFERENCE_SCHEMA_V2"
    "vget (vector_fields lib v) ''positive'' = encode_weights (pv_positive v)"
    "vget (vector_fields lib v) ''negative'' = encode_weights (pv_negative v)"
    "vget (vector_fields lib v) ''reference_at'' = VStr (isoformat lib (Aware (pv_reference_at v)))"
    by (simp_all add: vector_fields_def vget_def)
  let ?t = "parse_timestamp lib (VStr (isoformat lib (Aware (pv_reference_at v))))"
  have "raises_only type_or_value ?t" by (rule parse_timestamp_raises)
  then show ?thesis
    unfolding decode_v2_payload_def p json_text_def
    by (cases ?t) (auto simp: f numeric_channel_encode readable_def simp del: parse_timestamp.simps)
qed

lemma decode_stored_v1: "decode_v1 lib (encode_weights ch) = Inr (Some ch)"
proof -
  have "float_items lib (map (\<lambda>(k, w). (k, VFloat w)) ch) = Inr ch"
    unfolding float_items_def by (induction ch) auto
  then show ?thesis by (simp add: decode_v1_def encode_weights_def json_text_def)
qed

lemma run_cache_done:
  "run_cache faults n cmds c = (c', True) \<Longrightarrow> c' = foldl (\<lambda>c cmd. run_cache_cmd cmd c) c cmds"
  by (induction cmds arbitrary: n c) (auto split: if_splits)

lemma run_cache_no_faults:
  "run_cache (\<lambda>_. False) n cmds c = (foldl (\<lambda>c cmd. run_cache_cmd cmd c) c cmds, True)"
  by (induction cmds arbitrary: n c) auto

lemma cache_keys_differ:
  "''pref:'' @ u \<noteq> ''pref:v1:'' @ u" "''pref:v1:'' @ u \<noteq> ''pref:v2:'' @ u" "''pref:'' @ u \<noteq> ''pref:v2:'' @ u"
  by (auto dest: arg_cong[where f = length])

lemma dget_foldl_dpop: "dget (foldl dpop c ks) k = (if k \<in> set ks then None else dget c k)"
  by (induction ks arbitrary: c) (auto simp: delete_conv)

lemma refreshed_cache:
  assumes "run_cache faults 0 (refresh_preference_cache lib u v1 v2 ttl) cache = (cache', True)"
  shows "cache_get cache' (''pref:v1:'' @ u) = encode_weights v1"
    "cache_get cache' (''pref:v2:'' @ u) = (case v2 of None \<Rightarrow> VNone | Some v \<Rightarrow> vector_payload lib v)"
proof -
  let ?d = "foldl dpop cache (preference_cache_keys u)"
  have gone: "dget ?d (''pref:v2:'' @ u) = None"
    by (simp only: dget_foldl_dpop preference_cache_keys_def list.map) simp
  have c: "cache' = foldl (\<lambda>c cmd. run_cache_cmd cmd c) cache (refresh_preference_cache lib u v1 v2 ttl)"
    using run_cache_done[OF assms] .
  show "cache_get cache' (''pref:v1:'' @ u) = encode_weights v1"
    "cache_get cache' (''pref:v2:'' @ u) = (case v2 of None \<Rightarrow> VNone | Some v \<Rightarrow> vector_payload lib v)"
    unfolding c refresh_preference_cache_def using cache_keys_differ[of u] gone
    by (auto simp: cache_get_def simp del: append_Cons append.simps split: option.split)
qed



end
