(* ===== verification/DatasetInputs.thy ===== *)
theory DatasetInputs
  imports DatasetBuild RankingBuild
begin

text \<open>
  How \<open>ai_pipeline/build_dataset.py\<close> loads its inputs, and the telemetry tables the recommendation
  service reads its histories from: the queries of \<open>fetch_telemetry\<close> and \<open>fetch_dataset_v2_inputs\<close> as
  filters and sorts, each row parsed by its \<open>from_mapping\<close>. \<open>telemetry_ok\<close> states the constraints of the
  schema (\<open>src/migrations\<close>): primary keys, \<open>NOT NULL\<close> columns, one feature row per post, encoder and
  content. The lemmas say which events and features a history depends on.
\<close>

section \<open>Tables and rows\<close>

record telemetry_db =
  td_impressions :: "impression list"
  td_events :: "behavior_event list"
  td_features :: "article_feature list"

text \<open>\<open>metadata->>'event_version'\<close>: the text of a JSON field.\<close>

fun arrow_text :: "pylib \<Rightarrow> pyval \<Rightarrow> string option" where
  "arrow_text lib VNone = None"
| "arrow_text lib (VBool b) = Some (if b then ''true'' else ''false'')"
| "arrow_text lib v = Some (py_str lib v)"

definition version_column :: "pylib \<Rightarrow> behavior_event \<Rightarrow> string option" where
  "version_column lib e = (case ev_metadata e of None \<Rightarrow> None | Some m \<Rightarrow> arrow_text lib (vget m ''event_version''))"

definition impression_columns :: "impression \<Rightarrow> (string, pyval) dict" where
  "impression_columns i =
     [(''id'', VUuid (imp_id i)), (''request_id'', VUuid (imp_request_id i)), (''user_id'', VUuid (imp_user_id i)),
      (''post_id'', VUuid (imp_post_id i)), (''position'', VInt (imp_position i)),
      (''feed_source'', VStr (imp_feed_source i)), (''model_version'', VStr (imp_model_version i)),
      (''feature_snapshot'', VMap (imp_snapshot i)), (''served_at'', time_val (imp_served_at i))]"

definition event_columns :: "pylib \<Rightarrow> behavior_event \<Rightarrow> (string, pyval) dict" where
  "event_columns lib e =
     [(''id'', VUuid (ev_id e)), (''impression_id'', opt_val VUuid (ev_impression_id e)),
      (''user_id'', VUuid (ev_user_id e)), (''post_id'', VUuid (ev_post_id e)),
      (''event_type'', VStr (ev_event_type e)), (''dwell_ms'', opt_val VInt (ev_dwell_ms e)),
      (''occurred_at'', time_val (ev_occurred_at e)), (''ingested_at'', opt_val time_val (ev_ingested_at e)),
      (''event_version'', opt_val VStr (version_column lib e)), (''metadata'', opt_val VMap (ev_metadata e))]"

definition feature_columns :: "article_feature \<Rightarrow> (string, pyval) dict" where
  "feature_columns f =
     [(''id'', VUuid (af_id f)), (''post_id'', VUuid (af_post_id f)),
      (''encoder_version'', VStr (af_encoder_version f)), (''content_hash'', VStr (af_content_hash f)),
      (''embedding'', VList (map VFloat (af_embedding f))),
      (''source_updated_at'', time_val (af_source_updated_at f)), (''computed_at'', time_val (af_computed_at f))]"

definition event_row_ok :: "pylib \<Rightarrow> behavior_event \<Rightarrow> bool" where
  "event_row_ok lib e \<longleftrightarrow>
     ev_metadata e \<noteq> None \<and> ev_ingested_at e \<noteq> None \<and> ev_event_version e = version_column lib e"

definition feature_row_ok :: "article_feature \<Rightarrow> bool" where
  "feature_row_ok f \<longleftrightarrow>
     af_encoder_version f \<noteq> [] \<and> length (af_content_hash f) = 64 \<and> af_source_updated_at f \<le> af_computed_at f"

definition telemetry_ok :: "pylib \<Rightarrow> telemetry_db \<Rightarrow> bool" where
  "telemetry_ok lib db \<longleftrightarrow>
     distinct (map imp_id (td_impressions db)) \<and> distinct (map ev_id (td_events db)) \<and>
     distinct (map af_id (td_features db)) \<and>
     distinct (map (\<lambda>f. (af_post_id f, af_encoder_version f, af_content_hash f)) (td_features db)) \<and>
     list_all (event_row_ok lib) (td_events db) \<and> list_all feature_row_ok (td_features db)"

section \<open>Queries\<close>

definition served_in_window :: "dataset_config \<Rightarrow> telemetry_db \<Rightarrow> impression list" where
  "served_in_window config db =
     sort_key (\<lambda>i. (imp_served_at i, imp_id i))
       (filter (\<lambda>i. dc_start_at config \<le> imp_served_at i \<and> imp_served_at i < dc_end_at config) (td_impressions db))"

definition known_by :: "instant \<Rightarrow> behavior_event \<Rightarrow> bool" where
  "known_by t e \<longleftrightarrow> ev_occurred_at e \<le> t \<and> (case ev_ingested_at e of None \<Rightarrow> False | Some i \<Rightarrow> i \<le> t)"

definition on_impressions :: "impression list \<Rightarrow> behavior_event \<Rightarrow> bool" where
  "on_impressions imps e \<longleftrightarrow> (case ev_impression_id e of None \<Rightarrow> False | Some i \<Rightarrow> i \<in> imp_id ` set imps)"

definition v2_click :: "pylib \<Rightarrow> behavior_event \<Rightarrow> bool" where
  "v2_click lib e \<longleftrightarrow> ev_event_type e = ''click'' \<and> version_column lib e = Some ''v2''"

definition by_event_time :: "behavior_event list \<Rightarrow> behavior_event list" where
  "by_event_time es = sort_key (\<lambda>e. (ev_occurred_at e, ev_id e)) es"

definition load_impressions :: "pylib \<Rightarrow> impression list \<Rightarrow> impression list res" where
  "load_impressions lib imps = map_res (\<lambda>i. impression_from_mapping lib (impression_columns i)) imps"

definition load_events :: "pylib \<Rightarrow> behavior_event list \<Rightarrow> behavior_event list res" where
  "load_events lib es = map_res (\<lambda>e. behavior_from_mapping lib (event_columns lib e)) es"

definition load_features :: "pylib \<Rightarrow> article_feature list \<Rightarrow> article_feature list res" where
  "load_features lib fs = map_res (\<lambda>f. feature_from_mapping lib (feature_columns f)) fs"

definition fetch_telemetry ::
    "pylib \<Rightarrow> telemetry_db \<Rightarrow> dataset_config \<Rightarrow> (impression list \<times> behavior_event list) res" where
  "fetch_telemetry lib db config =
     (let imps = served_in_window config db;
          rows = (if imps = [] then []
                  else by_event_time (filter (\<lambda>e. on_impressions imps e \<and> known_by (dc_extraction_at config) e)
                         (td_events db))) in
      bind_res (load_impressions lib imps) (\<lambda>is. bind_res (load_events lib rows) (\<lambda>es. Inr (is, es))))"

definition v2_event_rows :: "pylib \<Rightarrow> telemetry_db \<Rightarrow> dataset_config \<Rightarrow> behavior_event list" where
  "v2_event_rows lib db config =
     (let imps = served_in_window config db in
      if imps = [] then []
      else by_event_time (filter (\<lambda>e.
          (on_impressions imps e \<or>
           ev_user_id e \<in> imp_user_id ` set imps \<and> v2_click lib e \<and> ev_occurred_at e < dc_end_at config) \<and>
          known_by (dc_extraction_at config) e) (td_events db)))"

definition v2_post_ids :: "pylib \<Rightarrow> telemetry_db \<Rightarrow> dataset_config \<Rightarrow> uuid set" where
  "v2_post_ids lib db config =
     imp_post_id ` set (served_in_window config db) \<union>
     ev_post_id ` set (filter (\<lambda>e. ev_event_type e = ''click'') (v2_event_rows lib db config))"

definition v2_feature_rows :: "pylib \<Rightarrow> telemetry_db \<Rightarrow> dataset_config \<Rightarrow> article_feature list" where
  "v2_feature_rows lib db config =
     sort_key (\<lambda>f. (af_post_id f, af_source_updated_at f, af_computed_at f, af_id f))
       (filter (\<lambda>f. af_post_id f \<in> v2_post_ids lib db config \<and> af_encoder_version f = dc_encoder_version config \<and>
                    af_computed_at f \<le> dc_extraction_at config) (td_features db))"

definition fetch_dataset_v2_inputs ::
    "pylib \<Rightarrow> telemetry_db \<Rightarrow> dataset_config \<Rightarrow> (impression list \<times> behavior_event list \<times> article_feature list) res" where
  "fetch_dataset_v2_inputs lib db config =
     bind_res (load_impressions lib (served_in_window config db)) (\<lambda>imps.
     bind_res (load_events lib (v2_event_rows lib db config)) (\<lambda>es.
     bind_res (load_features lib (v2_feature_rows lib db config)) (\<lambda>fs. Inr (imps, es, fs))))"

section \<open>Typed rows load unchanged\<close>

lemma load_uuid [simp]: "py_uuid lib (VUuid u) = Inr u"
  by (simp add: py_uuid_def uuid_of_str_uuid)

lemma load_floats: "map_res (py_float lib) (map VFloat rs) = Inr rs"
  by (induction rs) auto

lemma impression_row [simp]: "impression_from_mapping lib (impression_columns i) = Inr i"
  by (simp add: impression_from_mapping_def impression_columns_def uuid_item_def str_item_def time_item_def
      vitem_def json_object_def time_val_def)

lemma feature_row [simp]: "feature_from_mapping lib (feature_columns f) = Inr f"
  by (simp add: feature_from_mapping_def feature_columns_def uuid_item_def str_item_def time_item_def
      vitem_def time_val_def load_floats)

lemma arrow_text_None: "arrow_text lib v = None \<longleftrightarrow> v = VNone"
  by (cases v) auto

lemma event_row:
  assumes "event_row_ok lib e"
  shows "behavior_from_mapping lib (event_columns lib e) = Inr e"
proof -
  obtain m i where m: "ev_metadata e = Some m" "ev_ingested_at e = Some i" "ev_event_version e = version_column lib e"
    using assms by (auto simp: event_row_ok_def)
  have v: "version_column lib e = arrow_text lib (vget m ''event_version'')" by (simp add: version_column_def m)
  have cols: "vget (event_columns lib e) ''impression_id'' = opt_val VUuid (ev_impression_id e)"
    "vget (event_columns lib e) ''dwell_ms'' = opt_val VInt (ev_dwell_ms e)"
    "vget (event_columns lib e) ''metadata'' = VMap m"
    "vget (event_columns lib e) ''event_version'' = opt_val VStr (version_column lib e)"
    "vget (event_columns lib e) ''ingested_at'' = time_val i"
    "uuid_item lib (event_columns lib e) ''id'' = Inr (ev_id e)"
    "uuid_item lib (event_columns lib e) ''user_id'' = Inr (ev_user_id e)"
    "uuid_item lib (event_columns lib e) ''post_id'' = Inr (ev_post_id e)"
    "str_item lib (event_columns lib e) ''event_type'' = Inr (ev_event_type e)"
    "time_item lib (event_columns lib e) ''occurred_at'' = Inr (ev_occurred_at e)"
    by (simp_all add: event_columns_def vget_def uuid_item_def str_item_def time_item_def vitem_def time_val_def
        opt_val_def m)
  have imp: "(if truthy (opt_val VUuid (ev_impression_id e))
      then bind_res (py_uuid lib (opt_val VUuid (ev_impression_id e))) (\<lambda>u. Inr (Some u)) else Inr None) = Inr (ev_impression_id e)"
    by (cases "ev_impression_id e") (auto simp: opt_val_def)
  have dwell: "py_optional py_int (opt_val VInt (ev_dwell_ms e)) = Inr (ev_dwell_ms e)"
    by (cases "ev_dwell_ms e") (auto simp: py_optional_def opt_val_def)
  have meta: "py_optional (json_object lib) (VMap m) = Inr (Some m)"
    "py_optional (parse_datetime lib) (time_val i) = Inr (Some i)"
    by (simp_all add: py_optional_def json_object_def time_val_def)
  show ?thesis
    unfolding behavior_from_mapping_def Let_def cols imp dwell meta bind_res.simps
    using m by (cases "version_column lib e") (auto simp: opt_val_def v arrow_text_None)
qed

lemma load_rows [simp]:
  "load_impressions lib imps = Inr imps" "load_features lib fs = Inr fs"
  by (simp_all add: load_impressions_def load_features_def)

lemma load_event_rows:
  assumes "telemetry_ok lib db" "set es \<subseteq> set (td_events db)"
  shows "load_events lib es = Inr es"
proof -
  have "map_res (\<lambda>e. behavior_from_mapping lib (event_columns lib e)) es = Inr (map (\<lambda>e. e) es)"
    using assms by (intro map_res_map event_row) (auto simp: telemetry_ok_def list_all_iff)
  then show ?thesis by (simp add: load_events_def)
qed

lemma by_event_time_set [simp]: "set (by_event_time es) = set es"
  by (simp add: by_event_time_def)

lemma fetch_v2_rows:
  assumes "telemetry_ok lib db"
  shows "fetch_dataset_v2_inputs lib db config =
    Inr (served_in_window config db, v2_event_rows lib db config, v2_feature_rows lib db config)"
proof -
  have "set (v2_event_rows lib db config) \<subseteq> set (td_events db)" by (auto simp: v2_event_rows_def Let_def)
  then show ?thesis by (simp add: fetch_dataset_v2_inputs_def load_event_rows[OF assms])
qed

end
