(* ===== verification/HistoryServe.thy ===== *)
theory HistoryServe
  imports PreferenceServe DatasetInputs
begin

text \<open>
  The history half of \<open>recommendation_api/app/db.py\<close>: \<open>fetch_user_history\<close> rebuilds the history of a user
  from telemetry with the offline builder, caches it without its embeddings, and rehydrates a cached
  history from the feature table. Two facts matter: a history served at time \<open>t\<close> is the history the
  dataset builder attaches to an impression served at \<open>t\<close> (no train/serve skew), and the cached form
  reads back as the history it was written from. The payload classes of \<open>schemas.py\<close> are the snapshot
  records of the dataset with their field constraints checked.
\<close>

section \<open>Payloads\<close>

text \<open>Constructing a \<open>HistoryEntryPayload\<close> validates its fields.\<close>

definition history_entry_payload :: "history_entry \<Rightarrow> history_entry res" where
  "history_entry_payload e =
     (if he_encoder_version e = [] \<or> length (he_content_hash e) \<noteq> 64
      then Inl (ValueError ''validation error for HistoryEntryPayload'') else Inr e)"

definition to_cache_record :: "pylib \<Rightarrow> history_entry \<Rightarrow> pyval" where
  "to_cache_record lib e =
     VMap [(''event_id'', VStr (str_uuid (he_event_id e))), (''post_id'', VStr (str_uuid (he_post_id e))),
           (''event_type'', VStr ''click''), (''engaged_at'', VStr (isoformat lib (Aware (he_engaged_at e)))),
           (''encoder_version'', VStr (he_encoder_version e)), (''content_hash'', VStr (he_content_hash e)),
           (''feature_source_updated_at'', VStr (isoformat lib (Aware (he_source_updated_at e)))),
           (''feature_computed_at'', VStr (isoformat lib (Aware (he_computed_at e))))]"

definition to_cache_payload :: "pylib \<Rightarrow> history_snapshot \<Rightarrow> pyval" where
  "to_cache_payload lib s =
     VMap [(''schema_version'', VStr HISTORY_SCHEMA_VERSION),
           (''reference_at'', VStr (isoformat lib (Aware (hs_reference_at s)))),
           (''entries'', VList (map (to_cache_record lib) (hs_entries s)))]"

section \<open>Rehydrating a cached history\<close>

fun key_type_value :: "py_error \<Rightarrow> bool" where
  "key_type_value (KeyError _) = True"
| "key_type_value e = type_or_value e"

definition cached_entries :: "pylib \<Rightarrow> pyval \<Rightarrow> pyval list option res" where
  "cached_entries lib raw =
     (if raw = VNone then Inr None
      else suppress type_or_value (bind_res (json_text lib raw) (\<lambda>v. case v of
        VMap payload \<Rightarrow>
          if vget payload ''schema_version'' \<noteq> VStr HISTORY_SCHEMA_VERSION then Inr None
          else (case vget payload ''entries'' of VList es \<Rightarrow> Inr (Some es) | _ \<Rightarrow> Inr None)
      | _ \<Rightarrow> Inr None)))"

definition cached_post_ids :: "pylib \<Rightarrow> pyval list \<Rightarrow> uuid list option res" where
  "cached_post_ids lib es =
     suppress key_type_value (bind_res (map_res (\<lambda>e. bind_res (vsub e ''post_id'') (py_uuid lib)) es) (\<lambda>ids. Inr (Some ids)))"

definition latest_feature_first :: "article_feature list \<Rightarrow> article_feature list" where
  "latest_feature_first fs =
     sort_key (\<lambda>f. (af_post_id f, - af_source_updated_at f, - af_computed_at f, - uint (af_id f))) fs"

type_synonym feature_key = "string \<times> string \<times> string"

definition key_of_feature :: "article_feature \<Rightarrow> feature_key" where
  "key_of_feature f = (str_uuid (af_post_id f), af_encoder_version f, af_content_hash f)"

definition features_by_key :: "article_feature list \<Rightarrow> (feature_key, article_feature) dict" where
  "features_by_key fs = foldl (\<lambda>d f. dset d (key_of_feature f) f) [] fs"

definition entry_text :: "pylib \<Rightarrow> pyval \<Rightarrow> string \<Rightarrow> string res" where
  "entry_text lib entry key = bind_res (vsub entry key) (\<lambda>v. Inr (py_str lib v))"

definition entry_time :: "pylib \<Rightarrow> pyval \<Rightarrow> string \<Rightarrow> instant res" where
  "entry_time lib entry key = bind_res (vsub entry key) (parse_timestamp lib)"

definition cached_entry ::
    "pylib \<Rightarrow> (feature_key, article_feature) dict \<Rightarrow> pyval \<Rightarrow> history_entry option res" where
  "cached_entry lib features entry =
     bind_res (entry_text lib entry ''post_id'') (\<lambda>post.
     bind_res (entry_text lib entry ''encoder_version'') (\<lambda>encoder.
     bind_res (entry_text lib entry ''content_hash'') (\<lambda>hash.
       case dget features (post, encoder, hash) of
         None \<Rightarrow> Inr None
       | Some f \<Rightarrow>
           bind_res (bind_res (vsub entry ''post_id'') (py_uuid lib)) (\<lambda>pid.
           bind_res (bind_res (vsub entry ''event_id'') (py_uuid lib)) (\<lambda>eid.
           bind_res (entry_time lib entry ''engaged_at'') (\<lambda>engaged.
           bind_res (entry_time lib entry ''feature_source_updated_at'') (\<lambda>source.
           bind_res (entry_time lib entry ''feature_computed_at'') (\<lambda>computed.
           bind_res (history_entry_payload
               \<lparr>he_event_id = eid, he_post_id = pid, he_engaged_at = engaged, he_encoder_version = encoder,
                he_content_hash = hash, he_source_updated_at = source, he_computed_at = computed,
                he_embedding = af_embedding f\<rparr>) (\<lambda>e. Inr (Some e)))))))))) "

definition history_from_cache ::
    "pylib \<Rightarrow> telemetry_db \<Rightarrow> uuid \<Rightarrow> instant \<Rightarrow> pyval \<Rightarrow> history_snapshot option res" where
  "history_from_cache lib tdb user reference_at raw =
     bind_res (cached_entries lib raw) (\<lambda>entries. case entries of
       None \<Rightarrow> Inr None
     | Some es \<Rightarrow>
         bind_res (cached_post_ids lib es) (\<lambda>ids. case ids of
           None \<Rightarrow> Inr None
         | Some post_ids \<Rightarrow>
             bind_res (load_features lib
               (if es = [] then [] else latest_feature_first
                  (filter (\<lambda>f. af_post_id f \<in> set post_ids) (td_features tdb)))) (\<lambda>rows.
               suppress key_type_value
                 (bind_res (map_res (cached_entry lib (features_by_key rows)) es) (\<lambda>rebuilt.
                    Inr (Some \<lparr>hs_user_id = user, hs_reference_at = reference_at,
                               hs_entries = List.map_filter id rebuilt\<rparr>))))))"

section \<open>Fetching a history\<close>

definition history_lookup_limit :: "serve_cfg \<Rightarrow> nat" where
  "history_lookup_limit cfg =
     nat (max 1 (dc_history_recent_limit cfg + dc_history_long_term_limit cfg) + max 0 (sc_history_lookup_slack cfg))"

definition history_event_rows :: "pylib \<Rightarrow> serve_cfg \<Rightarrow> telemetry_db \<Rightarrow> uuid \<Rightarrow> instant \<Rightarrow> behavior_event list" where
  "history_event_rows lib cfg tdb user reference_at =
     take (history_lookup_limit cfg)
       (sort_key (\<lambda>e. (- ev_occurred_at e, - uint (ev_id e)))
         (filter (\<lambda>e. ev_user_id e = user \<and> v2_click lib e \<and> ev_occurred_at e < reference_at \<and>
                      (case ev_ingested_at e of None \<Rightarrow> False | Some i \<Rightarrow> i \<le> reference_at))
            (td_events tdb)))"

definition history_feature_rows :: "telemetry_db \<Rightarrow> uuid set \<Rightarrow> instant \<Rightarrow> article_feature list" where
  "history_feature_rows tdb post_ids reference_at =
     latest_feature_first (filter (\<lambda>f. af_post_id f \<in> post_ids \<and> af_source_updated_at f \<le> reference_at \<and>
       af_computed_at f \<le> reference_at) (td_features tdb))"

definition rebuild_history ::
    "pylib \<Rightarrow> serve_cfg \<Rightarrow> telemetry_db \<Rightarrow> uuid \<Rightarrow> instant \<Rightarrow> history_snapshot res" where
  "rebuild_history lib cfg tdb user reference_at =
     bind_res (load_events lib (history_event_rows lib cfg tdb user reference_at)) (\<lambda>es.
     bind_res (load_features lib
       (if es = [] then [] else history_feature_rows tdb (ev_post_id ` set es) reference_at)) (\<lambda>fs.
     bind_res (build_history_snapshot lib user reference_at es fs cfg) (\<lambda>h.
     bind_res (map_res history_entry_payload (hs_entries h)) (\<lambda>entries.
       Inr (h\<lparr>hs_entries := entries\<rparr>)))))"

definition fetch_user_history ::
    "pylib \<Rightarrow> serve_cfg \<Rightarrow> telemetry_db \<Rightarrow> instant \<Rightarrow> uuid \<Rightarrow> instant option \<Rightarrow> cache_store \<Rightarrow>
     (history_snapshot \<times> cache_store) res" where
  "fetch_user_history lib cfg tdb now user at_time cache =
     (let key = ''history:v2:'' @ str_uuid user in
      case at_time of
        Some reference_at \<Rightarrow> bind_res (rebuild_history lib cfg tdb user reference_at) (\<lambda>h. Inr (h, cache))
      | None \<Rightarrow>
          bind_res (history_from_cache lib tdb user now (cache_get cache key)) (\<lambda>cached. case cached of
            Some h \<Rightarrow> Inr (h, cache)
          | None \<Rightarrow>
              bind_res (rebuild_history lib cfg tdb user now) (\<lambda>h.
                Inr (h, dset cache key (to_cache_payload lib h, sc_history_cache_ttl_seconds cfg)))))"

section \<open>Which clicks a history selects\<close>

definition history_click :: "pylib \<Rightarrow> uuid \<Rightarrow> instant \<Rightarrow> behavior_event \<Rightarrow> bool" where
  "history_click lib user t e \<longleftrightarrow>
     ev_user_id e = user \<and> v2_click lib e \<and> ev_occurred_at e < t \<and>
     (case ev_ingested_at e of None \<Rightarrow> False | Some i \<Rightarrow> i \<le> t)"

lemma event_row_version:
  assumes "event_row_ok lib e"
  shows "persisted_version lib e = Inr ''v2'' \<longleftrightarrow> version_column lib e = Some ''v2''"
proof -
  obtain m where m: "ev_metadata e = Some m" "ev_event_version e = version_column lib e"
    using assms by (auto simp: event_row_ok_def)
  have f: "vget (case event_object e of EObject d \<Rightarrow> d | EMapping d \<Rightarrow> d) ''event_version'' = opt_val VStr (version_column lib e)"
    "vget (case event_object e of EObject d \<Rightarrow> d | EMapping d \<Rightarrow> d) ''metadata'' = VMap m"
    by (simp_all add: event_object_def vget_def m opt_val_def)
  show ?thesis
  proof (cases "version_column lib e")
    case None
    then have "vget m ''event_version'' = VNone" by (simp add: version_column_def m arrow_text_None)
    then have "event_value (event_object e) ''event_version'' = VNone"
      using f None by (auto simp: event_object_def opt_val_def meta_get_def vget_def split: option.splits)
    then show ?thesis by (simp add: persisted_version_def event_label_version_def None)
  next
    case (Some s)
    then have "event_value (event_object e) ''event_version'' = VStr s"
      using f by (simp add: event_object_def opt_val_def)
    then show ?thesis by (auto simp: persisted_version_def event_label_version_def Some)
  qed
qed

lemma history_click_iff:
  assumes "event_row_ok lib e"
  shows "(if ev_user_id e = user then qualifies_for_history lib t e else Inr False) = Inr True \<longleftrightarrow> history_click lib user t e"
  using assms event_row_version[OF assms]
  by (auto simp: qualifies_for_history_def history_click_def v2_click_def event_row_ok_def)

definition click_key :: "behavior_event \<Rightarrow> instant \<times> uuid" where
  "click_key e = (ev_occurred_at e, ev_id e)"

lemma history_events_clicks:
  assumes "history_events lib user t evs n = Inr sel" "list_all (event_row_ok lib) evs"
  shows "sel = last_n n (sort_key click_key (filter (history_click lib user t) evs))"
proof (cases "n = 0")
  case True
  then show ?thesis using assms(1) by (simp add: history_events_def last_n_def)
next
  case False
  let ?p = "\<lambda>e. if ev_user_id e = user then qualifies_for_history lib t e else Inr False"
  obtain q where q: "filter_res ?p evs = Inr q" and sel: "sel = last_n n (sort_key click_key q)"
    using assms(1) False by (auto simp: history_events_def click_key_def[abs_def])
  have "q = filter (\<lambda>e. ?p e = Inr True) evs" using filter_res_InrD[OF q] by blast
  also have "\<dots> = filter (history_click lib user t) evs"
    using assms(2) history_click_iff by (intro filter_cong) (auto simp: list_all_iff)
  finally show ?thesis using sel by simp
qed

lemma filter_res_all: "(\<And>x. x \<in> set xs \<Longrightarrow> p x = Inr True) \<Longrightarrow> filter_res p xs = Inr xs"
  by (induction xs) auto

lemma history_events_of_clicks:
  assumes "list_all (event_row_ok lib) evs" "\<And>e. e \<in> set evs \<Longrightarrow> history_click lib user t e"
  shows "history_events lib user t evs n = Inr (last_n n (sort_key click_key evs))"
proof -
  have "filter_res (\<lambda>e. if ev_user_id e = user then qualifies_for_history lib t e else Inr False) evs = Inr evs"
    using assms history_click_iff by (intro filter_res_all) (auto simp: list_all_iff)
  then show ?thesis by (simp add: history_events_def click_key_def[abs_def] last_n_def)
qed

text \<open>The newest \<open>L\<close> rows, newest first, contain the last \<open>n \<le> L\<close> of the rows in event order.\<close>

lemma inj_click_key: "distinct (map ev_id es) \<Longrightarrow> inj_on click_key (set es)"
  by (auto simp: inj_on_def click_key_def distinct_map)

lemma sort_key_unique:
  assumes "set xs = set ys" "distinct xs" "distinct ys" "inj_on f (set ys)" "sorted (map f ys)"
  shows "sort_key f xs = ys"
  using assms by (intro sorted_distinct_map_unique[where f = f]) simp_all

lemma newest_first_rev:
  assumes "distinct (map ev_id es)"
  shows "sort_key (\<lambda>e. (- ev_occurred_at e, - uint (ev_id e))) es = rev (sort_key click_key es)"
proof (rule sort_key_unique)
  let ?g = "\<lambda>e. (- ev_occurred_at e, - uint (ev_id e))"
  show "distinct es" "distinct (rev (sort_key click_key es))" using assms by (simp_all add: distinct_map)
  show "inj_on ?g (set (rev (sort_key click_key es)))" using assms by (auto simp: inj_on_def distinct_map dest: word_uint_eqI)
  have "sorted_wrt (\<lambda>a b. click_key a \<le> click_key b) (sort_key click_key es)"
    using sorted_sort_key[of click_key es] by (simp add: sorted_map)
  then have "sorted_wrt (\<lambda>a b. ?g a \<le> ?g b) (rev (sort_key click_key es))"
    unfolding sorted_wrt_rev
    by (rule sorted_wrt_mono_rel[rotated]) (auto simp: click_key_def less_eq_prod_def word_le_def word_less_def)
  then show "sorted (map ?g (rev (sort_key click_key es)))" by (simp only: sorted_map)
qed simp

lemma last_n_newest:
  assumes "distinct (map ev_id es)" "n \<le> limit"
  shows "last_n n (sort_key click_key (take limit (sort_key (\<lambda>e. (- ev_occurred_at e, - uint (ev_id e))) es))) =
    last_n n (sort_key click_key es)"
proof -
  let ?s = "sort_key click_key es"
  have t: "take limit (rev ?s) = rev (drop (length ?s - limit) ?s)" by (simp add: take_rev)
  have ids: "distinct (map ev_id ?s)" using assms(1) by (rule mset_eq_imp_distinct_iff[THEN iffD2, rotated]) simp
  have "sort_key click_key (rev (drop (length ?s - limit) ?s)) = drop (length ?s - limit) ?s"
  proof (rule sort_key_unique)
    show "distinct (rev (drop (length ?s - limit) ?s))" "distinct (drop (length ?s - limit) ?s)"
      using assms(1) by (simp_all add: distinct_map)
    show "inj_on click_key (set (drop (length ?s - limit) ?s))"
      using inj_click_key[OF ids] by (rule inj_on_subset) (rule set_drop_subset)
    show "sorted (map click_key (drop (length ?s - limit) ?s))"
      unfolding drop_map[symmetric] by (intro sorted_wrt_drop) simp
  qed simp
  moreover have "length es - (length es - limit + n) + (length es - limit) = length es - n"
    using assms(2) by arith
  ultimately show ?thesis unfolding newest_first_rev[OF assms(1)] t by (simp add: last_n_def)
qed

section \<open>Which feature an entry takes\<close>

definition usable_features :: "article_feature list \<Rightarrow> behavior_event \<Rightarrow> article_feature set" where
  "usable_features fs e =
     {f \<in> set fs. af_post_id f = ev_post_id e \<and> af_source_updated_at f \<le> ev_occurred_at e \<and> af_computed_at f \<le> ev_occurred_at e}"

definition choose_feature :: "(uuid, article_feature) dict \<Rightarrow> behavior_event \<Rightarrow> article_feature option" where
  "choose_feature unique e =
     select_history_feature (dget_default (group_by af_post_id (dvalues unique)) (ev_post_id e) []) (ev_occurred_at e)"

lemma build_history_alt:
  "build_history_snapshot lib user t evs fs config =
     bind_res (history_total_limit config) (\<lambda>n.
     bind_res (history_events lib user t evs n) (\<lambda>sel.
     bind_res (deduplicate af_id fs) (\<lambda>unique.
       Inr \<lparr>hs_user_id = user, hs_reference_at = t,
            hs_entries = List.map_filter (\<lambda>e. map_option (history_entry_of e) (choose_feature unique e)) sel\<rparr>)))"
  by (simp add: build_history_snapshot_def Let_def choose_feature_def)

lemma max_key_max: "z \<in> set (x # xs) \<Longrightarrow> k z \<le> k (max_key k x xs)"
  using max_key_ge[of k x xs] by auto

lemma max_key_unique:
  assumes "inj_on k (set (x # xs))" "set (x # xs) = set (y # ys)"
  shows "max_key k x xs = max_key k y (ys :: 'a list)"
proof -
  have mem: "max_key k x xs \<in> set (x # xs)" "max_key k y ys \<in> set (x # xs)"
    unfolding assms(2) using max_key_mem[of k x xs, unfolded assms(2)] max_key_mem[of k y ys] .
  moreover have "k (max_key k x xs) \<le> k (max_key k y ys)" "k (max_key k y ys) \<le> k (max_key k x xs)"
    using max_key_max[OF mem(1)[unfolded assms(2)]] max_key_max[OF mem(2)] .
  ultimately show ?thesis by (intro inj_onD[OF assms(1)] antisym)
qed

lemma select_feature_unique:
  assumes "{f \<in> set fs. af_source_updated_at f \<le> t \<and> af_computed_at f \<le> t} =
      {f \<in> set gs. af_source_updated_at f \<le> t \<and> af_computed_at f \<le> t}" "inj_on af_id (set fs)"
  shows "select_history_feature fs t = select_history_feature gs t"
proof -
  let ?ok = "\<lambda>f. af_source_updated_at f \<le> t \<and> af_computed_at f \<le> t"
  have eq: "set (filter ?ok fs) = set (filter ?ok gs)" using assms(1) by auto
  show ?thesis
  proof (cases "filter ?ok fs")
    case Nil
    then have "filter ?ok gs = []" using eq by (metis list.set(1) set_empty)
    with Nil show ?thesis by (simp add: select_history_feature_def)
  next
    case (Cons f fs')
    then obtain g gs' where g: "filter ?ok gs = g # gs'" using eq by (cases "filter ?ok gs") auto
    let ?k = "\<lambda>f. (af_source_updated_at f, af_computed_at f, af_id f)"
    have "set (f # fs') \<subseteq> set fs" unfolding Cons[symmetric] by (rule filter_is_subset)
    then have "inj_on ?k (set (f # fs'))" using assms(2) by (auto simp: inj_on_def)
    moreover have "set (f # fs') = set (g # gs')" using eq unfolding Cons g .
    ultimately have "max_key ?k f fs' = max_key ?k g gs'" by (rule max_key_unique)
    then show ?thesis by (simp add: select_history_feature_def Cons g)
  qed
qed

lemma choose_feature_usable:
  assumes "deduplicate af_id fs = Inr uf" "deduplicate af_id gs = Inr ug" "usable_features fs e = usable_features gs e"
  shows "choose_feature uf e = choose_feature ug e"
proof -
  let ?at = "\<lambda>u. dget_default (group_by af_post_id (dvalues u)) (ev_post_id e) []"
  note f = deduplicate_values[OF assms(1)] and g = deduplicate_values[OF assms(2)]
  have at: "set (?at u) = {f \<in> set (dvalues u). af_post_id f = ev_post_id e}" for u :: "(uuid, article_feature) dict"
    by (force simp: dget_default_def dget_group_by)
  have "inj_on af_id (set (?at uf))" using f(2) by (rule inj_on_subset) (use f(1) in \<open>auto simp: at\<close>)
  moreover have "{x \<in> set (?at uf). af_source_updated_at x \<le> ev_occurred_at e \<and> af_computed_at x \<le> ev_occurred_at e} =
      {x \<in> set (?at ug). af_source_updated_at x \<le> ev_occurred_at e \<and> af_computed_at x \<le> ev_occurred_at e}"
    using assms(3) unfolding at f(1) g(1) usable_features_def by auto
  ultimately show ?thesis unfolding choose_feature_def by (intro select_feature_unique)
qed

lemma deduplicate_distinct:
  assumes "distinct (map ident rs)"
  shows "deduplicate ident rs = Inr (map (\<lambda>r. (ident r, r)) rs)"
  using assms
proof (induction rs rule: rev_induct)
  case (snoc r rs)
  have "dkeys (map (\<lambda>r. (ident r, r)) rs) = map ident rs" by simp
  moreover have "ident r \<notin> set (map ident rs)" using snoc.prems by simp
  ultimately have new: "ident r \<notin> set (dkeys (map (\<lambda>r. (ident r, r)) rs))" by (simp only: not_False_eq_True)
  have "dset (map (\<lambda>r. (ident r, r)) rs) (ident r) r = map (\<lambda>r. (ident r, r)) rs @ [(ident r, r)]"
    by (rule dset_new[OF new])
  moreover have "dget (map (\<lambda>r. (ident r, r)) rs) (ident r) = None"
    using new unfolding map_of_eq_None_iff set_map .
  ultimately show ?case using snoc by (simp add: deduplicate_def fold_res_snoc deduplicate_step_def)
qed (simp add: deduplicate_def)

text \<open>
  A history depends only on the clicks it selects and the features usable for them: the same selection
  and the same usable features give the same snapshot.
\<close>

lemma history_snapshot_determined:
  assumes h: "build_history_snapshot lib user t evs fs config = Inr h"
    and n: "history_total_limit config = Inr n" "history_total_limit config' = Inr n"
    and sel: "history_events lib user t evs n = Inr sel" "history_events lib user t evs' n = Inr sel"
    and uniq: "distinct (map af_id gs)"
    and usable: "\<And>e. e \<in> set sel \<Longrightarrow> usable_features fs e = usable_features gs e"
  shows "build_history_snapshot lib user t evs' gs config' = Inr h"
proof -
  obtain uf where uf: "deduplicate af_id fs = Inr uf"
    and hf: "h = \<lparr>hs_user_id = user, hs_reference_at = t,
      hs_entries = List.map_filter (\<lambda>e. map_option (history_entry_of e) (choose_feature uf e)) sel\<rparr>"
    using h by (auto simp: build_history_alt n sel)
  obtain ug where ug: "deduplicate af_id gs = Inr ug" using deduplicate_distinct[OF uniq] by blast
  have "choose_feature uf e = choose_feature ug e" if "e \<in> set sel" for e
    by (rule choose_feature_usable[OF uf ug usable[OF that]])
  then have "List.map_filter (\<lambda>e. map_option (history_entry_of e) (choose_feature uf e)) sel =
      List.map_filter (\<lambda>e. map_option (history_entry_of e) (choose_feature ug e)) sel"
    by (auto simp: List.map_filter_def intro!: map_cong filter_cong)
  then show ?thesis by (simp add: build_history_alt n sel ug hf)
qed

section \<open>No train/serve skew\<close>

lemma history_click_sets:
  assumes "set evs \<subseteq> set (td_events tdb)" "distinct (map ev_id (td_events tdb))" "distinct evs"
    and "\<And>e. e \<in> set (td_events tdb) \<Longrightarrow> history_click lib user t e \<Longrightarrow> e \<in> set evs"
  shows "sort_key click_key (filter (history_click lib user t) evs) =
    sort_key click_key (filter (history_click lib user t) (td_events tdb))"
proof (rule sort_key_unique)
  let ?all = "filter (history_click lib user t) (td_events tdb)"
  show "set (filter (history_click lib user t) evs) = set (sort_key click_key ?all)" using assms(1,4) by auto
  show "distinct (filter (history_click lib user t) evs)" "distinct (sort_key click_key ?all)"
    using assms(2,3) by (simp_all add: distinct_map)
  have "inj_on click_key (set (td_events tdb))" by (rule inj_click_key[OF assms(2)])
  then show "inj_on click_key (set (sort_key click_key ?all))" by (rule inj_on_subset) auto
qed simp

lemma online_selection:
  assumes "telemetry_ok lib tdb" "n \<le> history_lookup_limit cfg"
  shows "history_events lib user t (history_event_rows lib cfg tdb user t) n =
    Inr (last_n n (sort_key click_key (filter (history_click lib user t) (td_events tdb))))"
proof -
  let ?all = "filter (history_click lib user t) (td_events tdb)"
  let ?rows = "history_event_rows lib cfg tdb user t"
  have rows: "?rows = take (history_lookup_limit cfg) (sort_key (\<lambda>e. (- ev_occurred_at e, - uint (ev_id e))) ?all)"
    by (simp add: history_event_rows_def history_click_def[abs_def] conj_assoc)
  then have sub: "set ?rows \<subseteq> set ?all" by (auto dest: in_set_takeD)
  have "history_events lib user t ?rows n = Inr (last_n n (sort_key click_key ?rows))"
    using assms(1) sub by (intro history_events_of_clicks) (auto simp: telemetry_ok_def list_all_iff)
  moreover have "distinct (map ev_id ?all)" using assms(1) by (simp add: telemetry_ok_def distinct_map_filter)
  ultimately show ?thesis unfolding rows by (simp add: last_n_newest[OF _ assms(2)])
qed

lemma served_window:
  assumes "i \<in> set (served_in_window config tdb)"
  shows "imp_served_at i < dc_end_at config" "served_in_window config tdb \<noteq> []" "imp_user_id i \<in> imp_user_id ` set (served_in_window config tdb)"
proof -
  show "imp_served_at i < dc_end_at config" using assms by (simp add: served_in_window_def)
  show "served_in_window config tdb \<noteq> []" using assms by (cases "served_in_window config tdb") simp_all
  show "imp_user_id i \<in> imp_user_id ` set (served_in_window config tdb)" using assms by (rule imageI)
qed

lemma offline_clicks:
  assumes i: "i \<in> set (served_in_window config tdb)" "imp_served_at i \<le> dc_extraction_at config"
    and e: "e \<in> set (td_events tdb)" "history_click lib (imp_user_id i) (imp_served_at i) e"
  shows "e \<in> set (v2_event_rows lib tdb config)"
  using served_window[OF i(1)] i(2) e
  by (auto simp: v2_event_rows_def Let_def history_click_def known_by_def split: option.splits)

lemma offline_rows:
  "set (v2_event_rows lib tdb config) \<subseteq> set (td_events tdb)"
  "distinct (td_events tdb) \<Longrightarrow> distinct (v2_event_rows lib tdb config)"
  by (auto simp: v2_event_rows_def Let_def by_event_time_def)

lemma telemetry_distinct:
  assumes "telemetry_ok lib tdb"
  shows "distinct (td_events tdb)" "distinct (map af_id (td_features tdb))"
  using assms by (simp_all add: telemetry_ok_def distinct_map)

lemma usable_agree:
  assumes i: "imp_served_at i \<le> dc_extraction_at config"
    and pinned: "list_all (\<lambda>f. af_encoder_version f = dc_encoder_version config) (td_features tdb)"
    and e: "e \<in> set (v2_event_rows lib tdb config)" "history_click lib u (imp_served_at i) e" "ev_post_id e \<in> posts"
  shows "usable_features (v2_feature_rows lib tdb config) e =
    usable_features (history_feature_rows tdb posts (imp_served_at i)) e"
proof -
  have "ev_occurred_at e < imp_served_at i" "ev_event_type e = ''click''"
    using e(2) by (simp_all add: history_click_def v2_click_def)
  then have "ev_post_id e \<in> v2_post_ids lib tdb config" using e(1) by (auto simp: v2_post_ids_def)
  then show ?thesis
    using pinned e(3) i \<open>ev_occurred_at e < imp_served_at i\<close>
    by (auto simp: usable_features_def v2_feature_rows_def history_feature_rows_def latest_feature_first_def list_all_iff)
qed

lemma valid_entries:
  assumes "telemetry_ok lib tdb" "build_history_snapshot lib user t es fs config = Inr h" "set fs \<subseteq> set (td_features tdb)"
  shows "map_res history_entry_payload (hs_entries h) = Inr (hs_entries h)"
proof -
  have "history_entry_payload x = Inr x" if x: "x \<in> set (hs_entries h)" for x
  proof -
    obtain e f where "f \<in> set fs" "x = history_entry_of e f" using build_history_entry[OF assms(2) x] by blast
    moreover from this have "feature_row_ok f" using assms(1,3) by (auto simp: telemetry_ok_def list_all_iff)
    ultimately show ?thesis by (simp add: history_entry_payload_def history_entry_of_def feature_row_ok_def)
  qed
  then have "map_res history_entry_payload (hs_entries h) = Inr (map (\<lambda>x. x) (hs_entries h))" by (rule map_res_map)
  then show ?thesis by simp
qed

lemma served_history_is_training_history:
  assumes ok: "telemetry_ok lib tdb"
    and limits: "dc_history_recent_limit cfg = dc_history_recent_limit config"
      "dc_history_long_term_limit cfg = dc_history_long_term_limit config"
    and pinned: "list_all (\<lambda>f. af_encoder_version f = dc_encoder_version config) (td_features tdb)"
    and i: "i \<in> set (served_in_window config tdb)" "imp_served_at i \<le> dc_extraction_at config"
    and h: "build_history_snapshot lib (imp_user_id i) (imp_served_at i) (v2_event_rows lib tdb config)
      (v2_feature_rows lib tdb config) config = Inr h"
  shows "rebuild_history lib cfg tdb (imp_user_id i) (imp_served_at i) = Inr h"
proof -
  let ?u = "imp_user_id i" and ?t = "imp_served_at i"
  let ?off = "v2_event_rows lib tdb config" and ?on = "history_event_rows lib cfg tdb ?u ?t"
  let ?fs = "if ?on = [] then [] else history_feature_rows tdb (ev_post_id ` set ?on) ?t"
  obtain n sel where n: "history_total_limit config = Inr n" and sel: "history_events lib ?u ?t ?off n = Inr sel"
    using h by (auto simp: build_history_alt)
  have n': "history_total_limit cfg = Inr n"
    unfolding history_total_limit_def limits using n[unfolded history_total_limit_def] .
  have "n = nat (dc_history_recent_limit cfg + dc_history_long_term_limit cfg)"
    using n by (auto simp: history_total_limit_def limits split: if_splits)
  then have lim: "n \<le> history_lookup_limit cfg" by (simp add: history_lookup_limit_def)
  have rows: "list_all (event_row_ok lib) ?off"
    using ok offline_rows(1)[of lib tdb config] by (auto simp: telemetry_ok_def list_all_iff)
  have same: "sort_key click_key (filter (history_click lib ?u ?t) ?off) =
      sort_key click_key (filter (history_click lib ?u ?t) (td_events tdb))"
    using ok offline_rows offline_clicks[OF i] telemetry_distinct(1)[OF ok]
    by (intro history_click_sets) (auto simp: telemetry_ok_def)
  have sel_on: "history_events lib ?u ?t ?on n = Inr sel"
    unfolding online_selection[OF ok lim] history_events_clicks[OF sel rows] same ..
  have mem: "e \<in> set ?on \<and> e \<in> set ?off \<and> history_click lib ?u ?t e" if e: "e \<in> set sel" for e
  proof -
    have off: "e \<in> set ?off" and on: "e \<in> set ?on"
      using history_events_ok[OF sel] history_events_ok[OF sel_on] e by blast+
    from on have "history_click lib ?u ?t e"
      by (auto simp: history_event_rows_def history_click_def dest: in_set_takeD)
    with on off show ?thesis by blast
  qed
  have usable: "usable_features (v2_feature_rows lib tdb config) e = usable_features ?fs e" if e: "e \<in> set sel" for e
  proof -
    have "ev_post_id e \<in> ev_post_id ` set ?on" "?on \<noteq> []" using mem[OF e] by auto
    then show ?thesis using usable_agree[OF i(2) pinned, of e lib ?u "ev_post_id ` set ?on"] mem[OF e] by simp
  qed
  have "distinct (map af_id (history_feature_rows tdb posts t))" for posts t
    unfolding history_feature_rows_def latest_feature_first_def
    by (rule mset_eq_imp_distinct_iff[THEN iffD2, OF _ distinct_map_filter[OF telemetry_distinct(2)[OF ok]]]) simp
  then have uniq: "distinct (map af_id ?fs)" by simp
  have built: "build_history_snapshot lib ?u ?t ?on ?fs cfg = Inr h"
    by (rule history_snapshot_determined[OF h n n' sel sel_on uniq usable])
  have "set ?on \<subseteq> set (td_events tdb)" by (auto simp: history_event_rows_def dest: in_set_takeD)
  moreover have "set ?fs \<subseteq> set (td_features tdb)" by (auto simp: history_feature_rows_def latest_feature_first_def)
  ultimately show ?thesis
    using built valid_entries[OF ok built] by (simp add: rebuild_history_def load_event_rows[OF ok])
qed


definition demo_v2_click :: behavior_event where
  "demo_v2_click = \<lparr>ev_id = 2, ev_impression_id = Some 1, ev_user_id = 9, ev_post_id = 3, ev_event_type = ''click'',
     ev_dwell_ms = None, ev_occurred_at = 10, ev_ingested_at = Some 11, ev_event_version = Some ''v2'',
     ev_metadata = Some [(''event_version'', VStr ''v2'')]\<rparr>"

definition demo_revision :: article_feature where
  "demo_revision = \<lparr>af_id = 5, af_post_id = 3, af_encoder_version = PINNED_ENCODER_VERSION,
     af_content_hash = replicate 64 (CHR ''a''), af_embedding = [1], af_source_updated_at = 5, af_computed_at = 6\<rparr>"

definition demo_served_post :: impression where
  "demo_served_post = \<lparr>imp_id = 1, imp_request_id = 4, imp_user_id = 9, imp_post_id = 3, imp_position = 0,
     imp_feed_source = ''home'', imp_model_version = ''m'', imp_snapshot = [], imp_served_at = 20\<rparr>"

definition demo_telemetry :: telemetry_db where
  "demo_telemetry = \<lparr>td_impressions = [demo_served_post], td_events = [demo_v2_click], td_features = [demo_revision]\<rparr>"

lemma demo_telemetry_fields [simp]:
  "td_impressions demo_telemetry = [demo_served_post]" "td_events demo_telemetry = [demo_v2_click]"
  "td_features demo_telemetry = [demo_revision]" "imp_served_at demo_served_post = 20" "imp_user_id demo_served_post = 9"
  "imp_post_id demo_served_post = 3" "imp_id demo_served_post = 1"
  "ev_user_id demo_v2_click = 9" "ev_post_id demo_v2_click = 3" "ev_occurred_at demo_v2_click = 10"
  "ev_ingested_at demo_v2_click = Some 11" "ev_event_type demo_v2_click = ''click''" "ev_impression_id demo_v2_click = Some 1"
  "af_post_id demo_revision = 3" "af_source_updated_at demo_revision = 5" "af_computed_at demo_revision = 6"
  "af_encoder_version demo_revision = PINNED_ENCODER_VERSION" "af_id demo_revision = 5"
  "version_column lib demo_v2_click = Some ''v2''"
  by (simp_all add: demo_telemetry_def demo_served_post_def demo_v2_click_def demo_revision_def version_column_def vget_def)

lemma demo_telemetry_ok: "telemetry_ok lib demo_telemetry"
  by (simp add: telemetry_ok_def event_row_ok_def feature_row_ok_def demo_revision_def PINNED_ENCODER_VERSION_def)
    (simp add: demo_v2_click_def)

lemma demo_config_fields [simp]:
  "dc_start_at demo_config = 0" "dc_end_at demo_config = 1000" "dc_extraction_at demo_config = 100000000000000"
  "dc_encoder_version demo_config = PINNED_ENCODER_VERSION" "dc_history_recent_limit demo_config = 20"
  "dc_history_long_term_limit demo_config = 30"
  by (simp_all add: demo_config_def dc_start_at_def dc_end_at_def dc_extraction_at_def)

lemma demo_rows:
  "served_in_window demo_config demo_telemetry = [demo_served_post]"
  "v2_event_rows lib demo_telemetry demo_config = [demo_v2_click]"
  "v2_feature_rows lib demo_telemetry demo_config = [demo_revision]"
proof -
  show s: "served_in_window demo_config demo_telemetry = [demo_served_post]" by (simp add: served_in_window_def)
  show e: "v2_event_rows lib demo_telemetry demo_config = [demo_v2_click]"
    by (simp add: v2_event_rows_def Let_def s on_impressions_def known_by_def by_event_time_def)
  show "v2_feature_rows lib demo_telemetry demo_config = [demo_revision]"
    by (simp add: v2_feature_rows_def v2_post_ids_def s e)
qed

lemma demo_history:
  "build_history_snapshot lib 9 20 [demo_v2_click] [demo_revision] demo_config =
     Inr \<lparr>hs_user_id = 9, hs_reference_at = 20, hs_entries = [history_entry_of demo_v2_click demo_revision]\<rparr>"
proof -
  have ok: "event_row_ok lib demo_v2_click" using demo_telemetry_ok[of lib] by (simp add: telemetry_ok_def)
  have click: "history_click lib 9 20 demo_v2_click" by (simp add: history_click_def v2_click_def)
  have "history_events lib 9 20 [demo_v2_click] 50 = Inr (last_n 50 (sort_key click_key [demo_v2_click]))"
    using ok click by (intro history_events_of_clicks) simp_all
  then have "history_events lib 9 20 [demo_v2_click] 50 = Inr [demo_v2_click]" by (simp add: last_n_def)
  then show ?thesis
    by (simp add: build_history_alt history_total_limit_def deduplicate_def deduplicate_step_def choose_feature_def
        group_by_def group_add_def dget_default_def select_history_feature_def List.map_filter_def)
qed


section \<open>A cached history reads back\<close>

text \<open>The feature rows have one embedding per post, encoder and content, whichever row comes last.\<close>

lemma features_by_key_get:
  assumes "f \<in> set fs" "distinct (map key_of_feature fs)"
  shows "dget (features_by_key fs) (key_of_feature f) = Some f"
  using assms unfolding features_by_key_def
proof (induction fs rule: rev_induct)
  case (snoc g gs)
  then show ?case by (cases "f = g") auto
qed simp

lemma raises_parse_time: "parse_timestamp lib (VStr (isoformat lib (Aware t))) = Inr t \<Longrightarrow>
  vsub e key = Inr (VStr (isoformat lib (Aware t))) \<Longrightarrow> entry_time lib e key = Inr t"
  by (simp add: entry_time_def)

lemma cached_entry_record:
  assumes iso: "\<And>t. parse_timestamp lib (VStr (isoformat lib (Aware t))) = Inr t"
    and f: "dget features (str_uuid (he_post_id e), he_encoder_version e, he_content_hash e) = Some f"
      "af_embedding f = he_embedding e"
    and valid: "history_entry_payload e = Inr e"
  shows "cached_entry lib features (to_cache_record lib e) = Inr (Some e)"
proof -
  let ?r = "to_cache_record lib e"
  have sub: "vsub ?r ''post_id'' = Inr (VStr (str_uuid (he_post_id e)))" "vsub ?r ''event_id'' = Inr (VStr (str_uuid (he_event_id e)))"
    "vsub ?r ''encoder_version'' = Inr (VStr (he_encoder_version e))" "vsub ?r ''content_hash'' = Inr (VStr (he_content_hash e))"
    "vsub ?r ''engaged_at'' = Inr (VStr (isoformat lib (Aware (he_engaged_at e))))"
    "vsub ?r ''feature_source_updated_at'' = Inr (VStr (isoformat lib (Aware (he_source_updated_at e))))"
    "vsub ?r ''feature_computed_at'' = Inr (VStr (isoformat lib (Aware (he_computed_at e))))"
    by (simp_all add: to_cache_record_def vsub_def vitem_def)
  have uuid: "py_uuid lib (VStr (str_uuid u)) = Inr u" for u by (simp add: py_uuid_def uuid_of_str_uuid)
  have "\<lparr>he_event_id = he_event_id e, he_post_id = he_post_id e, he_engaged_at = he_engaged_at e,
      he_encoder_version = he_encoder_version e, he_content_hash = he_content_hash e,
      he_source_updated_at = he_source_updated_at e, he_computed_at = he_computed_at e, he_embedding = af_embedding f\<rparr> = e"
    using f(2) by simp
  then show ?thesis
    unfolding cached_entry_def entry_text_def entry_time_def sub bind_res.simps py_str.simps uuid iso f(1) option.case
    by (simp add: valid)
qed

lemma feature_keys_distinct:
  assumes "telemetry_ok lib tdb"
  shows "distinct (map key_of_feature (latest_feature_first (filter P (td_features tdb))))"
proof -
  have "map key_of_feature (td_features tdb) =
      map (\<lambda>(p, e, h). (str_uuid p, e, h)) (map (\<lambda>f. (af_post_id f, af_encoder_version f, af_content_hash f)) (td_features tdb))"
    by (simp add: key_of_feature_def[abs_def] o_def)
  moreover have "inj (\<lambda>(p, e, h). (str_uuid p, e, h))" by (auto simp: inj_def)
  ultimately have "distinct (map key_of_feature (td_features tdb))"
    using assms by (simp only: distinct_map[of "\<lambda>(p, e, h). (str_uuid p, e, h)"] telemetry_ok_def) (auto intro: inj_on_subset)
  then have "distinct (map key_of_feature (filter P (td_features tdb)))" by (rule distinct_map_filter)
  then show ?thesis unfolding latest_feature_first_def
    by (rule mset_eq_imp_distinct_iff[THEN iffD2, rotated]) simp
qed

lemma rebuilt_entry:
  assumes ok: "telemetry_ok lib tdb" and h: "rebuild_history lib cfg tdb user t = Inr h" and x: "x \<in> set (hs_entries h)"
  shows "\<exists>f\<in>set (td_features tdb). key_of_feature f = (str_uuid (he_post_id x), he_encoder_version x, he_content_hash x) \<and>
    af_post_id f = he_post_id x \<and> af_embedding f = he_embedding x \<and> feature_row_ok f"
proof -
  let ?on = "history_event_rows lib cfg tdb user t"
  let ?fs = "if ?on = [] then [] else history_feature_rows tdb (ev_post_id ` set ?on) t"
  have rows: "load_events lib ?on = Inr ?on"
    by (rule load_event_rows[OF ok]) (auto simp: history_event_rows_def dest: in_set_takeD)
  have fs: "set ?fs \<subseteq> set (td_features tdb)" by (auto simp: history_feature_rows_def latest_feature_first_def)
  obtain h0 where h0: "build_history_snapshot lib user t ?on ?fs cfg = Inr h0"
    and h': "bind_res (map_res history_entry_payload (hs_entries h0)) (\<lambda>entries. Inr (h0\<lparr>hs_entries := entries\<rparr>)) = Inr h"
    using h unfolding rebuild_history_def rows load_rows bind_res.simps
    by (rule bind_resE) (rule that)
  have entries: "hs_entries h = hs_entries h0"
    using h'[unfolded valid_entries[OF ok h0 fs] bind_res.simps] by simp
  obtain e f where "f \<in> set ?fs" "x = history_entry_of e f" "af_post_id f = ev_post_id e"
    using build_history_entry[OF h0 x[unfolded entries]] by blast
  then show ?thesis using ok fs
    by (intro bexI[of _ f]) (auto simp: key_of_feature_def history_entry_of_def telemetry_ok_def list_all_iff)
qed

lemma rebuilt_from_cache:
  assumes ok: "telemetry_ok lib tdb" "telemetry_ok lib tdb'" and grown: "set (td_features tdb) \<subseteq> set (td_features tdb')"
    and iso: "\<And>t. parse_timestamp lib (VStr (isoformat lib (Aware t))) = Inr t"
    and h: "rebuild_history lib cfg tdb user t = Inr h"
  shows "history_from_cache lib tdb' user now (to_cache_payload lib h) =
    Inr (Some \<lparr>hs_user_id = user, hs_reference_at = now, hs_entries = hs_entries h\<rparr>)"
proof -
  let ?es = "map (to_cache_record lib) (hs_entries h)" and ?ids = "map he_post_id (hs_entries h)"
  let ?rows = "if ?es = [] then [] else latest_feature_first (filter (\<lambda>f. af_post_id f \<in> set ?ids) (td_features tdb'))"
  have entries: "cached_entries lib (to_cache_payload lib h) = Inr (Some ?es)"
    by (simp add: cached_entries_def to_cache_payload_def json_text_def vget_def)
  have "bind_res (vsub (to_cache_record lib e) ''post_id'') (py_uuid lib) = Inr (he_post_id e)" for e
    by (simp add: to_cache_record_def vsub_def vitem_def py_uuid_def uuid_of_str_uuid)
  then have ids: "cached_post_ids lib ?es = Inr (Some ?ids)"
    unfolding cached_post_ids_def map_res_compose by (simp del: bind_res_Inr)
  have "cached_entry lib (features_by_key ?rows) (to_cache_record lib x) = Inr (Some x)" if x: "x \<in> set (hs_entries h)" for x
  proof -
    obtain f where f: "f \<in> set (td_features tdb)" "af_post_id f = he_post_id x" "af_embedding f = he_embedding x" "feature_row_ok f"
      and key: "key_of_feature f = (str_uuid (he_post_id x), he_encoder_version x, he_content_hash x)"
      using rebuilt_entry[OF ok(1) h x] by blast
    have "?es \<noteq> []" using x by auto
    moreover have "f \<in> set (latest_feature_first (filter (\<lambda>f. af_post_id f \<in> set ?ids) (td_features tdb')))"
      using f(1,2) grown x by (auto simp: latest_feature_first_def)
    ultimately have "dget (features_by_key ?rows) (key_of_feature f) = Some f"
      using features_by_key_get feature_keys_distinct[OF ok(2)] by simp
    moreover have "history_entry_payload x = Inr x"
      using f(4) key by (simp add: history_entry_payload_def feature_row_ok_def key_of_feature_def)
    ultimately show ?thesis using cached_entry_record[OF iso _ f(3)] key by simp
  qed
  then have "map_res (cached_entry lib (features_by_key ?rows)) ?es = Inr (map Some (hs_entries h))"
    by (simp add: map_res_compose map_res_map)
  moreover have "List.map_filter id (map Some xs) = xs" for xs :: "history_entry list"
    by (induction xs) (auto simp: List.map_filter_def)
  ultimately show ?thesis
    unfolding history_from_cache_def entries bind_res.simps option.case ids load_rows by simp
qed

text \<open>
  C37. A cached history reads back: once a history has been fetched and cached, later requests get the
  same entries, with their embeddings, from the cache, although it stores none, and although the
  append-only feature table has grown in between.
\<close>

theorem history_cache_roundtrip:
  assumes "telemetry_ok lib tdb" "telemetry_ok lib tdb'" "set (td_features tdb) \<subseteq> set (td_features tdb')"
    and "\<And>t. parse_timestamp lib (VStr (isoformat lib (Aware t))) = Inr t"
    and "cache_get cache (''history:v2:'' @ str_uuid user) = VNone"
    and "fetch_user_history lib cfg tdb now user None cache = Inr (h, cache')"
  shows "fetch_user_history lib cfg tdb' later user None cache' =
    Inr (\<lparr>hs_user_id = user, hs_reference_at = later, hs_entries = hs_entries h\<rparr>, cache')"
proof -
  let ?key = "''history:v2:'' @ str_uuid user"
  have "history_from_cache lib tdb user now VNone = Inr None" by (simp add: history_from_cache_def cached_entries_def)
  then have h: "rebuild_history lib cfg tdb user now = Inr h"
    and c: "cache' = dset cache ?key (to_cache_payload lib h, sc_history_cache_ttl_seconds cfg)"
    using assms(6)[unfolded fetch_user_history_def Let_def option.case assms(5)] by auto
  have "cache_get cache' ?key = to_cache_payload lib h" unfolding c cache_get_def dget_dset by simp
  then show ?thesis
    unfolding fetch_user_history_def Let_def option.case
    by (simp add: rebuilt_from_cache[OF assms(1-4) h] del: append_Cons)
qed

text \<open>A library whose times print and parse in unary, for the example.\<close>

definition unary_lib :: pylib where
  "unary_lib = clock_lib\<lparr>isoformat := (\<lambda>d. let t = wall_of d in
       if t \<ge> 0 then replicate (nat t) (CHR ''a'') else CHR ''-'' # replicate (nat (- t)) (CHR ''a'')),
     fromisoformat := (\<lambda>s. Some (Aware (if s \<noteq> [] \<and> hd s = CHR ''-'' then - int (length s - 1) else int (length s))))\<rparr>"

lemma unary_iso: "parse_timestamp unary_lib (VStr (isoformat unary_lib (Aware t))) = Inr t"
proof -
  let ?s = "isoformat unary_lib (Aware t)"
  have "CHR ''Z'' \<notin> set ?s" by (auto simp: unary_lib_def Let_def)
  then have "str_replace ''Z'' ''+00:00'' ?s = ?s" by (rule str_replace_absent[OF refl])
  moreover have "fromisoformat unary_lib ?s = Some (Aware t)"
    by (cases "t = 0") (auto simp: unary_lib_def Let_def)
  ultimately show ?thesis by (simp add: parse_iso_def)
qed

theorem history_cache_roundtrip_witness:
  "\<exists>h cache. fetch_user_history unary_lib demo_serve demo_telemetry 20 9 None [] = Inr (h, cache) \<and>
     fetch_user_history unary_lib demo_serve demo_telemetry 30 9 None cache =
       Inr (\<lparr>hs_user_id = 9, hs_reference_at = 30, hs_entries = [history_entry_of demo_v2_click demo_revision]\<rparr>, cache)"
proof -
  let ?h = "\<lparr>hs_user_id = 9, hs_reference_at = 20, hs_entries = [history_entry_of demo_v2_click demo_revision]\<rparr>"
  have "rebuild_history unary_lib demo_serve demo_telemetry (imp_user_id demo_served_post) (imp_served_at demo_served_post) = Inr ?h"
    by (rule served_history_is_training_history[where config = demo_config, OF demo_telemetry_ok])
      (simp_all add: demo_rows demo_history, simp_all add: demo_serve_def)
  then have fetch: "\<exists>cache. fetch_user_history unary_lib demo_serve demo_telemetry 20 9 None [] = Inr (?h, cache)"
    by (simp add: fetch_user_history_def Let_def cache_get_def history_from_cache_def cached_entries_def)
  have "cache_get [] (''history:v2:'' @ str_uuid 9) = VNone" by (simp add: cache_get_def)
  with fetch show ?thesis
    using history_cache_roundtrip[OF demo_telemetry_ok demo_telemetry_ok subset_refl unary_iso, of "[]" 9 demo_serve 20 ?h _ 30]
    by auto
qed

end
