(* ===== verification/ContentFeatures.thy ===== *)
theory ContentFeatures
  imports PyValues
begin

text \<open>
  \<open>workers/nlp_worker/app/content_features.py\<close>, \<open>infer.py\<close> and \<open>keywords.py\<close>: the normal form and hash of
  post content, topic labels, embeddings, and topic inference by keywords. Text is a list of Unicode code
  points here; the Unicode tables (normalisation forms, lower case) are the parameter \<open>unicode_lib\<close>.
\<close>

section \<open>Unicode text\<close>

type_synonym unicode = "nat list"

record unicode_lib =
  nfc :: "unicode \<Rightarrow> unicode"
  nfkc :: "unicode \<Rightarrow> unicode"
  u_lower :: "unicode \<Rightarrow> unicode"

text \<open>Tables that change nothing, for the examples.\<close>

definition ascii_lib :: unicode_lib where
  "ascii_lib = \<lparr>nfc = (\<lambda>x. x), nfkc = (\<lambda>x. x), u_lower = (\<lambda>x. x)\<rparr>"

definition ascii :: "string \<Rightarrow> unicode" where
  "ascii s = map of_char s"

text \<open>The code points \<open>str.isspace\<close> and \<open>\s\<close> agree on.\<close>

definition is_space_cp :: "nat \<Rightarrow> bool" where
  "is_space_cp c \<longleftrightarrow> (9 \<le> c \<and> c \<le> 13) \<or> (28 \<le> c \<and> c \<le> 32) \<or> c \<in> {133, 160, 5760, 8232, 8233, 8239, 8287, 12288} \<or>
     (8192 \<le> c \<and> c \<le> 8202)"

definition ustrip :: "unicode \<Rightarrow> unicode" where
  "ustrip t = rev (dropWhile is_space_cp (rev (dropWhile is_space_cp t)))"

text \<open>\<open>needle in text\<close>\<close>

fun ucontains :: "unicode \<Rightarrow> unicode \<Rightarrow> bool" where
  "ucontains needle [] = (needle = [])"
| "ucontains needle (c # cs) = (take (length needle) (c # cs) = needle \<or> ucontains needle cs)"

text \<open>\<open>re.sub(r"\s+", " ", text)\<close>\<close>

function collapse_ws :: "unicode \<Rightarrow> unicode" where
  "collapse_ws [] = []"
| "collapse_ws (c # cs) = (if is_space_cp c then 32 # collapse_ws (dropWhile is_space_cp cs) else c # collapse_ws cs)"
  by pat_completeness auto
termination
  by (relation "measure length") (auto simp: le_imp_less_Suc length_dropWhile_le)

fun utf8_char :: "nat \<Rightarrow> nat list" where
  "utf8_char c =
     (if c < 128 then [c]
      else if c < 2048 then [192 + c div 64, 128 + c mod 64]
      else if c < 65536 then [224 + c div 4096, 128 + c div 64 mod 64, 128 + c mod 64]
      else [240 + c div 262144, 128 + c div 4096 mod 64, 128 + c div 64 mod 64, 128 + c mod 64])"

definition utf8_encode :: "unicode \<Rightarrow> string" where
  "utf8_encode t = map char_of (concat (map utf8_char t))"

section \<open>Normal form and hash\<close>

definition CONTENT_HASH_VERSION :: string where "CONTENT_HASH_VERSION = ''post-content-normalization-v1''"

definition EMBEDDING_DIMENSION :: nat where "EMBEDDING_DIMENSION = 384"

definition ENCODER_VERSION :: string where
  "ENCODER_VERSION = ''intfloat/multilingual-e5-small@614241f622f53c4eeff9890bdc4f31cfecc418b3''"

fun unix_newlines :: "unicode \<Rightarrow> unicode" where
  "unix_newlines [] = []"
| "unix_newlines [c] = [if c = 13 then 10 else c]"
| "unix_newlines (c # d # cs) =
     (if c = 13 \<and> d = 10 then 10 # unix_newlines cs else (if c = 13 then 10 else c) # unix_newlines (d # cs))"

definition normalize_content :: "unicode_lib \<Rightarrow> unicode \<Rightarrow> unicode res" where
  "normalize_content u value =
     (let normalized = ustrip (collapse_ws (unix_newlines (nfc u value))) in
      if normalized = [] then Inl (ValueError ''normalized content is empty'') else Inr normalized)"

definition content_hash :: "pylib \<Rightarrow> unicode_lib \<Rightarrow> unicode \<Rightarrow> string res" where
  "content_hash lib u value =
     bind_res (normalize_content u value) (\<lambda>normalized.
       Inr (sha256_hex lib (CONTENT_HASH_VERSION @ [CHR 0x0A] @ utf8_encode normalized)))"

section \<open>Topic labels and embeddings\<close>

definition normalize_topic :: "unicode_lib \<Rightarrow> unicode \<Rightarrow> unicode" where
  "normalize_topic u value = u_lower u (ustrip (collapse_ws (nfc u value)))"

definition normalize_topics :: "unicode_lib \<Rightarrow> unicode list \<Rightarrow> unicode list res" where
  "normalize_topics u values =
     bind_res (fold_res (\<lambda>normalized value.
         let label = normalize_topic u value in
         if label = [] then Inr normalized
         else if length label > 64 then Inl (ValueError ''topic label exceeds 64 Unicode characters'')
         else Inr (if label \<in> set normalized then normalized else normalized @ [label])) [] values) (\<lambda>normalized.
       if length normalized > 32 then Inl (ValueError ''at most 32 normalized topic labels are allowed'')
       else Inr (sort_key utf8_encode normalized))"

definition euclidean_norm :: "real list \<Rightarrow> real" where
  "euclidean_norm xs = sqrt (sum_list (map (\<lambda>v. v * v) xs))"

definition validate_embedding :: "real list \<Rightarrow> real list res" where
  "validate_embedding values =
     (if length values \<noteq> EMBEDDING_DIMENSION then Inl (ValueError ''embedding must contain exactly 384 values'')
      else if \<bar>euclidean_norm values - 1\<bar> > 1 / 1000 then Inl (ValueError ''embedding must be L2-normalized'')
      else Inr values)"

section \<open>Topic inference\<close>

definition TOPIC_KEYWORDS_EN :: "(string, unicode list) dict" where
  "TOPIC_KEYWORDS_EN =
     [
      (''ai'', [ascii ''ai'', ascii ''artificial intelligence'', ascii ''machine learning'', ascii ''llm'', ascii ''gpt'', ascii
        ''neural'', ascii ''deep learning'']),
      (''tech'', [ascii ''tech'', ascii ''technology'', ascii ''software'', ascii ''developer'', ascii ''coding'', ascii
        ''programming'', ascii ''startup'']),
      (''music'', [ascii ''music'', ascii ''song'', ascii ''album'', ascii ''concert'', ascii ''playlist'', ascii ''artist'', ascii
        ''singer'']),
      (''sport'', [ascii ''sport'', ascii ''football'', ascii ''soccer'', ascii ''basketball'', ascii ''tennis'', ascii ''match'',
        ascii ''athlete'', ascii ''game'']),
      (''health'', [ascii ''health'', ascii ''medicine'', ascii ''doctor'', ascii ''hospital'', ascii ''vaccine'', ascii
        ''nutrition'', ascii ''mental health'']),
      (''science'', [ascii ''science'', ascii ''research'', ascii ''study'', ascii ''discovery'', ascii ''experiment'', ascii
        ''physics'', ascii ''biology'', ascii ''chemistry'']),
      (''politics'', [ascii ''politics'', ascii ''government'', ascii ''election'', ascii ''policy'', ascii ''president'', ascii
        ''democracy'', ascii ''law'']),
      (''business'', [ascii ''business'', ascii ''company'', ascii ''market'', ascii ''economy'', ascii ''finance'', ascii
        ''investment'', ascii ''startup'', ascii ''revenue'']),
      (''culture'', [ascii ''culture'', ascii ''art'', ascii ''film'', ascii ''book'', ascii ''literature'', ascii ''history'', ascii
        ''museum'', ascii ''theater'']),
      (''education'', [ascii ''education'', ascii ''school'', ascii ''university'', ascii ''student'', ascii ''learning'', ascii
        ''teacher'', ascii ''course'']),
      (''environment'', [ascii ''environment'', ascii ''climate'', ascii ''sustainability'', ascii ''green'', ascii ''nature'', ascii
        ''pollution'', ascii ''energy''])]"

definition TOPIC_KEYWORDS_VI :: "(string, unicode list) dict" where
  "TOPIC_KEYWORDS_VI =
     [
      (''ai'', [[116, 114, 237, 32, 116, 117, 7879, 32, 110, 104, 226, 110, 32, 116, 7841, 111], [104, 7885, 99, 32, 109, 225,
        121], [109, 244, 32, 104, 236, 110, 104, 32, 110, 103, 244, 110, 32, 110, 103, 7919], [116, 114, 237, 32, 116,
        104, 244, 110, 103, 32, 109, 105, 110, 104, 32, 110, 104, 226, 110, 32, 116, 7841, 111]]),
      (''tech'', [[99, 244, 110, 103, 32, 110, 103, 104, 7879], [108, 7853, 112, 32, 116, 114, 236, 110, 104], [112, 104, 7847,
        110, 32, 109, 7873, 109], [107, 7929, 32, 115, 432], [112, 104, 225, 116, 32, 116, 114, 105, 7875, 110], [107,
        7929, 32, 116, 104, 117, 7853, 116, 32, 115, 7889]]),
      (''music'', [[226, 109, 32, 110, 104, 7841, 99], [99, 97, 32, 107, 104, 250, 99], ascii ''album'', [98, 224, 105, 32, 104,
        225, 116], [99, 97, 32, 115, 297], [110, 104, 7841, 99, 32, 115, 297], [104, 242, 97, 32, 110, 104, 7841, 99]]),
      (''sport'', [[98, 243, 110, 103, 32, 273, 225], [98, 243, 110, 103, 32, 114, 7893], [116, 104, 7875, 32, 116, 104, 97, 111],
        [116, 114, 7853, 110, 32, 273, 7845, 117], [118, 7853, 110, 32, 273, 7897, 110, 103, 32, 118, 105, 234, 110],
        [103, 105, 7843, 105, 32, 273, 7845, 117]]),
      (''health'', [[115, 7913, 99, 32, 107, 104, 7887, 101], [121, 32, 116, 7871], [98, 225, 99, 32, 115, 297], [98, 7879, 110,
        104, 32, 118, 105, 7879, 110], ascii ''vacxin'', [100, 105, 110, 104, 32, 100, 432, 7905, 110, 103], [115, 7913,
        99, 32, 107, 104, 111, 7867]]),
      (''science'', [[107, 104, 111, 97, 32, 104, 7885, 99], [110, 103, 104, 105, 234, 110, 32, 99, 7913, 117], [116, 104, 237, 32,
        110, 103, 104, 105, 7879, 109], [107, 104, 225, 109, 32, 112, 104, 225], [118, 7853, 116, 32, 108, 253], [115,
        105, 110, 104, 32, 104, 7885, 99]]),
      (''politics'', [[99, 104, 237, 110, 104, 32, 116, 114, 7883], [99, 104, 237, 110, 104, 32, 112, 104, 7911], [98, 7847, 117, 32,
        99, 7917], [99, 104, 237, 110, 104, 32, 115, 225, 99, 104], [108, 117, 7853, 116], [113, 117, 7889, 99, 32, 104,
        7897, 105]]),
      (''business'', [[107, 105, 110, 104, 32, 116, 7871], [100, 111, 97, 110, 104, 32, 110, 103, 104, 105, 7879, 112], [116, 104,
        7883, 32, 116, 114, 432, 7901, 110, 103], [273, 7847, 117, 32, 116, 432], [116, 224, 105, 32, 99, 104, 237, 110,
        104], [99, 104, 7913, 110, 103, 32, 107, 104, 111, 225, 110], [110, 103, 226, 110, 32, 104, 224, 110, 103]]),
      (''culture'', [[118, 259, 110, 32, 104, 243, 97], [110, 103, 104, 7879, 32, 116, 104, 117, 7853, 116], ascii ''phim'', [115,
        225, 99, 104], [108, 7883, 99, 104, 32, 115, 7917], [98, 7843, 111, 32, 116, 224, 110, 103], [118, 259, 110, 32,
        104, 7885, 99]]),
      (''education'', [[103, 105, 225, 111, 32, 100, 7909, 99], [104, 7885, 99, 32, 115, 105, 110, 104], [116, 114, 432, 7901, 110,
        103, 32, 104, 7885, 99], [273, 7841, 105, 32, 104, 7885, 99], [115, 105, 110, 104, 32, 118, 105, 234, 110],
        [107, 7929, 32, 110, 259, 110, 103], ascii ''edtech'']),
      (''environment'', [[109, 244, 105, 32, 116, 114, 432, 7901, 110, 103], [107, 104, 237, 32, 104, 7853, 117], [98, 7873, 110, 32,
        118, 7919, 110, 103], [116, 104, 105, 234, 110, 32, 110, 104, 105, 234, 110], [244, 32, 110, 104, 105, 7877,
        109], [110, 259, 110, 103, 32, 108, 432, 7907, 110, 103]])]"

definition matching_topics :: "(string, unicode list) dict \<Rightarrow> unicode \<Rightarrow> string set" where
  "matching_topics table normalized = set (dkeys (filter (\<lambda>(_, keywords). list_ex (\<lambda>kw. ucontains kw normalized) keywords) table))"

definition infer_topics :: "unicode_lib \<Rightarrow> unicode \<Rightarrow> string list" where
  "infer_topics u content =
     (let normalized = u_lower u (nfkc u content);
          matched = matching_topics TOPIC_KEYWORDS_EN normalized \<union> matching_topics TOPIC_KEYWORDS_VI normalized in
      if matched \<noteq> {} then sorted_list_of_set matched else [''general''])"

lemma infer_topics_nonempty: "infer_topics ul content \<noteq> []"
proof -
  have "finite (matching_topics table t)" for table t by (simp add: matching_topics_def)
  then show ?thesis by (simp add: infer_topics_def Let_def sorted_list_of_set_eq_Nil_iff)
qed

lemma infer_topics_known:
  "set (infer_topics ul content) \<subseteq> insert ''general'' (set (dkeys TOPIC_KEYWORDS_EN) \<union> set (dkeys TOPIC_KEYWORDS_VI))"
  "length (infer_topics ul content) \<le> 23"
proof -
  let ?m = "matching_topics TOPIC_KEYWORDS_EN (u_lower ul (nfkc ul content)) \<union>
    matching_topics TOPIC_KEYWORDS_VI (u_lower ul (nfkc ul content))"
  have sub: "?m \<subseteq> set (dkeys TOPIC_KEYWORDS_EN) \<union> set (dkeys TOPIC_KEYWORDS_VI)"
    by (auto simp: matching_topics_def)
  then have fin: "finite ?m" by (rule finite_subset) simp
  show "set (infer_topics ul content) \<subseteq> insert ''general'' (set (dkeys TOPIC_KEYWORDS_EN) \<union> set (dkeys TOPIC_KEYWORDS_VI))"
    using sub fin by (auto simp: infer_topics_def Let_def)
  have "card ?m \<le> card (set (dkeys TOPIC_KEYWORDS_EN) \<union> set (dkeys TOPIC_KEYWORDS_VI))"
    using sub by (rule card_mono[rotated]) simp
  also have "\<dots> \<le> card (set (dkeys TOPIC_KEYWORDS_EN)) + card (set (dkeys TOPIC_KEYWORDS_VI))" by (rule card_Un_le)
  also have "\<dots> \<le> length TOPIC_KEYWORDS_EN + length TOPIC_KEYWORDS_VI"
    using card_length[of "dkeys TOPIC_KEYWORDS_EN"] card_length[of "dkeys TOPIC_KEYWORDS_VI"] by simp
  also have "\<dots> \<le> 23" by (simp add: TOPIC_KEYWORDS_EN_def TOPIC_KEYWORDS_VI_def)
  finally show "length (infer_topics ul content) \<le> 23" by (simp add: infer_topics_def Let_def)
qed

text \<open>Labels that normalise to 1 to 64 characters are kept, up to 32 of them.\<close>

lemma normalize_topics_kept:
  assumes "vals \<noteq> []" "length vals \<le> 32" "\<And>v. v \<in> set vals \<Longrightarrow> normalize_topic ul v \<noteq> [] \<and> length (normalize_topic ul v) \<le> 64"
  shows "\<exists>topics. normalize_topics ul vals = Inr topics \<and> topics \<noteq> []"
proof -
  let ?step = "\<lambda>normalized value. let label = normalize_topic ul value in
         if label = [] then Inr normalized
         else if length label > 64 then Inl (ValueError ''topic label exceeds 64 Unicode characters'')
         else Inr (if label \<in> set normalized then normalized else normalized @ [label])"
  have fold: "fold_res ?step acc vs = Inr (dedup_onto acc (map (normalize_topic ul) vs))"
    if "\<And>v. v \<in> set vs \<Longrightarrow> normalize_topic ul v \<noteq> [] \<and> length (normalize_topic ul v) \<le> 64" for acc vs
    using that
  proof (induction vs arbitrary: acc)
    case (Cons v vs)
    have "\<not> 64 < length (normalize_topic ul v)" "normalize_topic ul v \<noteq> []" using Cons.prems[of v] by auto
    then show ?case using Cons by (simp add: Let_def)
  qed simp
  have "length (dedup (map (normalize_topic ul) vals)) \<le> 32"
    using assms(2) card_length[of "map (normalize_topic ul) vals"] by (simp add: length_dedup)
  moreover have "dedup (map (normalize_topic ul) vals) \<noteq> []"
    using assms(1) set_dedup[of "map (normalize_topic ul) vals"] by (metis set_empty map_is_Nil_conv)
  moreover have "sort_key utf8_encode (dedup (map (normalize_topic ul) vals)) \<noteq> []"
    using \<open>dedup (map (normalize_topic ul) vals) \<noteq> []\<close> by (metis length_0_conv length_sort)
  ultimately show ?thesis
    using fold[of vals "[]"] assms(3) by (simp add: normalize_topics_def dedup_def)
qed

lemma ascii_topics_kept:
  "\<exists>topics. normalize_topics ascii_lib (map ascii (infer_topics ascii_lib content)) = Inr topics \<and> topics \<noteq> []"
proof (rule normalize_topics_kept)
  have "\<forall>t\<in>insert ''general'' (set (dkeys TOPIC_KEYWORDS_EN) \<union> set (dkeys TOPIC_KEYWORDS_VI)).
      normalize_topic ascii_lib (ascii t) \<noteq> [] \<and> length (normalize_topic ascii_lib (ascii t)) \<le> 64"
    by (simp add: TOPIC_KEYWORDS_EN_def TOPIC_KEYWORDS_VI_def normalize_topic_def ascii_lib_def ascii_def ustrip_def is_space_cp_def)
  then show "normalize_topic ascii_lib v \<noteq> [] \<and> length (normalize_topic ascii_lib v) \<le> 64"
    if "v \<in> set (map ascii (infer_topics ascii_lib content))" for v
    using that infer_topics_known(1)[of ascii_lib content] by auto
qed (use infer_topics_nonempty infer_topics_known(2)[of ascii_lib content] in auto)

text \<open>Labels that do not grow past 64 characters never make normalisation fail.\<close>

lemma normalize_topics_total:
  assumes "length vals \<le> 32" "\<And>v. v \<in> set vals \<Longrightarrow> length (normalize_topic ul v) \<le> 64"
  shows "\<exists>topics. normalize_topics ul vals = Inr topics"
proof -
  let ?step = "\<lambda>normalized value. let label = normalize_topic ul value in
         if label = [] then Inr normalized
         else if length label > 64 then Inl (ValueError ''topic label exceeds 64 Unicode characters'')
         else Inr (if label \<in> set normalized then normalized else normalized @ [label])"
  have "\<exists>ls. fold_res ?step acc vs = Inr ls \<and> length ls \<le> length acc + length vs"
    if "\<And>v. v \<in> set vs \<Longrightarrow> length (normalize_topic ul v) \<le> 64" for acc vs
    using that
  proof (induction vs arbitrary: acc)
    case (Cons v vs)
    have le: "\<not> 64 < length (normalize_topic ul v)" using Cons.prems[of v] by auto
    let ?acc = "if normalize_topic ul v = [] \<or> normalize_topic ul v \<in> set acc then acc else acc @ [normalize_topic ul v]"
    have "?step acc v = Inr ?acc" using le by (simp add: Let_def)
    moreover obtain ls where "fold_res ?step ?acc vs = Inr ls" "length ls \<le> length ?acc + length vs"
      using Cons.IH[of ?acc] Cons.prems by auto
    moreover have "length ?acc \<le> Suc (length acc)" by simp
    ultimately show ?case by simp
  qed simp
  from this[OF assms(2)] obtain ls where "fold_res ?step [] vals = Inr ls" "length ls \<le> 32"
    using assms(1) by fastforce
  then show ?thesis by (simp add: normalize_topics_def)
qed

lemma ascii_topic_length: "length (normalize_topic ascii_lib v) \<le> length v"
proof -
  have strip: "length (ustrip t) \<le> length t" for t
    using length_dropWhile_le[of is_space_cp t] length_dropWhile_le[of is_space_cp "rev (dropWhile is_space_cp t)"]
    by (simp add: ustrip_def)
  have "length (collapse_ws t) \<le> length t" for t
  proof (induction t rule: collapse_ws.induct)
    case (2 c cs)
    then show ?case using length_dropWhile_le[of is_space_cp cs] by (cases "is_space_cp c") auto
  qed simp
  with strip[of "collapse_ws v"] show ?thesis by (simp add: normalize_topic_def ascii_lib_def le_trans[OF strip])
qed

end
