(* ===== verification/Ranking.thy ===== *)
theory Ranking
  imports ContentFeatures
begin

text \<open>
  \<open>recommendation_api/app/ranking.py\<close> with the records of \<open>schemas.py\<close>: language detection, the heuristic
  score and its feature snapshot, and the greedy diversity re-ranking. Floats are exact reals.
\<close>

section \<open>Records\<close>

record candidate_post =
  cp_id :: uuid
  cp_author_id :: uuid
  cp_topics :: "string list"
  cp_safety_score :: real
  cp_created_at :: instant
  cp_source :: string
  cp_content :: unicode
  cp_retrieval_score :: "real option"

definition primary_topic :: "candidate_post \<Rightarrow> string option" where
  "primary_topic c = (case cp_topics c of [] \<Rightarrow> None | t # _ \<Rightarrow> Some t)"

record feature_snapshot =
  fs_schema_version :: string
  fs_topic_relevance :: "real option"
  fs_freshness :: "real option"
  fs_safety_score :: "real option"
  fs_candidate_source :: string
  fs_is_followed_author :: "bool option"
  fs_author_affinity :: "real option"
  fs_heuristic_score :: "real option"
  fs_ml_score :: "real option"
  fs_candidate_content_hash :: "string option"
  fs_candidate_encoder_version :: "string option"
  fs_retrieval_request_id :: "uuid option"
  fs_candidate_published_at :: "instant option"
  fs_content_language :: "string option"
  fs_language_detector_version :: "string option"
  fs_declared_topics :: "string list"
  fs_preference_observed_at :: "instant option"

record recommendation_item =
  it_post_id :: uuid
  it_score :: real
  it_source :: string
  it_reason :: string
  it_features :: feature_snapshot

definition RANK_FEATURE_SCHEMA_VERSION :: string where "RANK_FEATURE_SCHEMA_VERSION = ''rank-features-v2''"
definition LANGUAGE_DETECTOR_VERSION :: string where "LANGUAGE_DETECTOR_VERSION = ''unicode-script-heuristic-v1''"
definition HEURISTIC_MODEL_VERSION :: string where "HEURISTIC_MODEL_VERSION = ''heuristic-v1''"

section \<open>Language\<close>

definition vietnamese_letters :: "nat list" where
  "vietnamese_letters =
     [259, 226, 273, 234, 244, 417, 432, 224, 225, 7843, 227, 7841, 7857, 7855, 7859, 7861, 7863, 7847, 7845, 7849,
      7851, 7853, 232, 233, 7867, 7869, 7865, 7873, 7871, 7875, 7877, 7879, 236, 237, 7881, 297, 7883, 242, 243,
      7887, 245, 7885, 7891, 7889, 7893, 7895, 7897, 7901, 7899, 7903, 7905, 7907, 249, 250, 7911, 361, 7909, 7915,
      7913, 7917, 7919, 7921, 7923, 253, 7927, 7929, 7925]"

text \<open>\<open>re.findall(r"[a-z]+", text)\<close>: the maximal runs of lowercase ASCII letters.\<close>

definition is_az :: "nat \<Rightarrow> bool" where
  "is_az c \<longleftrightarrow> 97 \<le> c \<and> c \<le> 122"

function az_words :: "unicode \<Rightarrow> unicode list" where
  "az_words [] = []"
| "az_words (c # cs) =
     (if is_az c then (c # takeWhile is_az cs) # az_words (dropWhile is_az cs) else az_words cs)"
  by pat_completeness auto
termination
  by (relation "measure length") (auto simp: le_imp_less_Suc length_dropWhile_le)

definition english_words :: "unicode set" where
  "english_words =
     ascii ` {''the'', ''and'', ''is'', ''are'', ''of'', ''to'', ''in'', ''for'', ''with'', ''from''}"

definition detect_content_language :: "unicode_lib \<Rightarrow> unicode \<Rightarrow> string" where
  "detect_content_language u content =
     (let normalized = u_lower u (nfc u content) in
      if list_ex (\<lambda>c. c \<in> set vietnamese_letters) normalized then ''vi''
      else if card (set (az_words normalized) \<inter> english_words) \<ge> 2 then ''en'' else ''und'')"

section \<open>Heuristic score\<close>

definition freshness_decay :: "instant \<Rightarrow> real \<Rightarrow> instant \<Rightarrow> real res" where
  "freshness_decay created_at half_life_hours observed_at =
     (if half_life_hours = 0 then Inl (ZeroDivisionError ''float division by zero'')
      else Inr (exp (- max 0 (total_seconds (observed_at - created_at) / 3600) / half_life_hours)))"

definition relevance :: "(string, real) dict \<Rightarrow> string list \<Rightarrow> real" where
  "relevance user_vec post_topics =
     (let topics = filter (\<lambda>t. t \<noteq> []) post_topics in
      if user_vec = [] \<or> topics = [] then 0
      else
        let positive_total = sum_list (map (\<lambda>v. max v 0) (dvalues user_vec));
            negative_total = sum_list (map (\<lambda>v. max (- v) 0) (dvalues user_vec));
            positive = (if positive_total > 0
              then sum_list (map (\<lambda>t. max (dget_default user_vec t 0) 0) topics) / positive_total else 0);
            negative = (if negative_total > 0
              then sum_list (map (\<lambda>t. max (- dget_default user_vec t 0) 0) topics) / negative_total else 0) in
        positive - negative)"

definition build_rank_feature_snapshot ::
    "unicode_lib \<Rightarrow> (string, real) dict \<Rightarrow> candidate_post \<Rightarrow> real \<times> real \<times> real \<times> real \<Rightarrow> real \<Rightarrow> real \<Rightarrow> string list \<Rightarrow>
     instant \<Rightarrow> feature_snapshot res" where
  "build_rank_feature_snapshot u user_vec post weights diversity_boost half_life_hours declared_topics observed_at =
     (let topic_relevance = relevance user_vec (cp_topics post); safety_score = cp_safety_score post;
          (w1, w2, w3, w4) = weights in
      bind_res (freshness_decay (cp_created_at post) half_life_hours observed_at) (\<lambda>freshness.
        Inr \<lparr>fs_schema_version = RANK_FEATURE_SCHEMA_VERSION, fs_topic_relevance = Some topic_relevance,
             fs_freshness = Some freshness, fs_safety_score = Some safety_score,
             fs_candidate_source = cp_source post, fs_is_followed_author = None, fs_author_affinity = None,
             fs_heuristic_score = Some (w1 * topic_relevance + w2 * freshness + w3 * safety_score - w4 * (1 - diversity_boost)),
             fs_ml_score = None, fs_candidate_content_hash = None, fs_candidate_encoder_version = None,
             fs_retrieval_request_id = None, fs_candidate_published_at = Some (cp_created_at post),
             fs_content_language = Some (detect_content_language u (cp_content post)),
             fs_language_detector_version = Some LANGUAGE_DETECTOR_VERSION,
             fs_declared_topics = sorted_list_of_set (set declared_topics),
             fs_preference_observed_at = Some observed_at\<rparr>))"

definition score_weights :: "real \<times> real \<times> real \<times> real" where
  "score_weights = (1/2, 1/5, 1/10, 1/5)"

definition score_post ::
    "unicode_lib \<Rightarrow> (string, real) dict \<Rightarrow> candidate_post \<Rightarrow> real \<times> real \<times> real \<times> real \<Rightarrow> real \<Rightarrow> real \<Rightarrow> instant \<Rightarrow> real res" where
  "score_post u user_vec post weights diversity_boost half_life_hours now =
     bind_res (build_rank_feature_snapshot u user_vec post weights diversity_boost half_life_hours [] now) (\<lambda>snapshot.
       case fs_heuristic_score snapshot of None \<Rightarrow> Inl (AssertionError []) | Some s \<Rightarrow> Inr s)"

section \<open>Diversity\<close>

definition topic_of :: "(string, string option) dict \<Rightarrow> recommendation_item \<Rightarrow> string option" where
  "topic_of topics item = Option.bind (dget topics (str_uuid (it_post_id item))) id"

definition author_of :: "(string, string) dict \<Rightarrow> recommendation_item \<Rightarrow> string option" where
  "author_of authors item = dget authors (str_uuid (it_post_id item))"

definition adjusted ::
    "(string, string option) dict \<Rightarrow> (string, string) dict \<Rightarrow> recommendation_item list \<Rightarrow> recommendation_item \<Rightarrow> real" where
  "adjusted topics authors selected item =
     (let seen_topics = set (map (topic_of topics) selected);
          penalty = (if selected = [] then 0
             else (if author_of authors item = author_of authors (last selected) then 8 / 100 else 0) +
                  (if topic_of topics item = topic_of topics (last selected) then 5 / 100 else 0)) +
            (if topic_of topics item \<in> seen_topics \<and> card seen_topics < 3 then 4 / 100 else 0) in
      it_score item - penalty)"

text \<open>The loop picks the best remaining item until none is left or the limit is reached.\<close>

fun rerank_loop ::
    "(string, string option) dict \<Rightarrow> (string, string) dict \<Rightarrow> nat \<Rightarrow> recommendation_item list \<Rightarrow> recommendation_item list \<Rightarrow>
     recommendation_item list" where
  "rerank_loop topics authors 0 remaining selected = selected"
| "rerank_loop topics authors (Suc n) [] selected = selected"
| "rerank_loop topics authors (Suc n) (x # xs) selected =
     (let best = max_key (adjusted topics authors selected) x xs in
      rerank_loop topics authors n (remove1 best (x # xs)) (selected @ [best]))"

definition diversity_rerank ::
    "recommendation_item list \<Rightarrow> (string, string option) dict \<Rightarrow> (string, string) dict \<Rightarrow> int \<Rightarrow> recommendation_item list" where
  "diversity_rerank items topics authors limit =
     rerank_loop topics authors (nat limit) (sort_key (\<lambda>x. - it_score x) items) []"

section \<open>The score lies where it should\<close>

lemma sum_lookup_le:
  assumes "distinct topics" "distinct (dkeys d)" "\<And>v. 0 \<le> f v" "f 0 = 0"
  shows "sum_list (map (\<lambda>t. f (dget_default d t 0)) topics) \<le> (sum_list (map f (dvalues d)) :: real)"
proof -
  have "sum_list (map (\<lambda>t. f (dget_default d t 0)) topics) = (\<Sum>t\<in>set topics. f (dget_default d t 0))"
    using assms(1) by (simp add: sum_list_distinct_conv_sum_set)
  also have "\<dots> = (\<Sum>t\<in>set topics \<inter> set (dkeys d). f (dget_default d t 0))"
  proof (rule sum.mono_neutral_right)
    show "\<forall>t\<in>set topics - set topics \<inter> set (dkeys d). f (dget_default d t 0) = 0"
    proof
      fix t assume "t \<in> set topics - set topics \<inter> set (dkeys d)"
      then have "dget d t = None" by (auto simp: map_of_eq_None_iff)
      then show "f (dget_default d t 0) = 0" using assms(4) by (simp add: dget_default_def)
    qed
  qed auto
  also have "\<dots> \<le> (\<Sum>t\<in>set (dkeys d). f (dget_default d t 0))"
    using assms(3) by (intro sum_mono2) auto
  also have "\<dots> = sum_list (map (\<lambda>t. f (dget_default d t 0)) (dkeys d))"
    using assms(2) by (metis sum_list_distinct_conv_sum_set)
  also have "map (\<lambda>t. f (dget_default d t 0)) (dkeys d) = map f (dvalues d)"
    using assms(2) by (auto simp: dget_default_def)
  finally show ?thesis .
qed

text \<open>Without repeated topics the relevance is a number between minus one and one.\<close>

lemma relevance_bounded:
  assumes "distinct (filter (\<lambda>t. t \<noteq> []) post_topics)" "distinct (dkeys user_vec)"
  shows "- 1 \<le> relevance user_vec post_topics \<and> relevance user_vec post_topics \<le> 1"
proof -
  let ?ts = "filter (\<lambda>t. t \<noteq> []) post_topics"
  let ?pos = "sum_list (map (\<lambda>t. max (dget_default user_vec t 0) 0) ?ts)"
  let ?neg = "sum_list (map (\<lambda>t. max (- dget_default user_vec t 0) 0) ?ts)"
  have le: "?pos \<le> sum_list (map (\<lambda>v. max v 0) (dvalues user_vec))" "?neg \<le> sum_list (map (\<lambda>v. max (- v) 0) (dvalues user_vec))"
    using sum_lookup_le[OF assms, of "\<lambda>v. max v 0"] sum_lookup_le[OF assms, of "\<lambda>v. max (- v) 0"] by simp_all
  have nonneg: "0 \<le> ?pos" "0 \<le> ?neg" by (rule sum_list_nonneg, auto)+
  have unit: "0 \<le> (if 0 < b then a / b else 0) \<and> (if 0 < b then a / b else 0) \<le> 1" if "0 \<le> a" "a \<le> b" for a b :: real
    using that by simp
  have diff: "- 1 \<le> (if c then 0 else P - N) \<and> (if c then 0 else P - N) \<le> 1"
    if "0 \<le> P \<and> P \<le> 1" "0 \<le> N \<and> N \<le> 1" for P N :: real and c
    using that by auto
  show ?thesis
    unfolding relevance_def Let_def by (rule diff[OF unit[OF nonneg(1) le(1)] unit[OF nonneg(2) le(2)]])
qed

lemma relevance_repeated_topic: "relevance [(''ai'', 1)] [''ai'', ''ai''] = 2"
  by (simp add: relevance_def dget_default_def)

section \<open>What the re-ranking selects\<close>

text \<open>Position \<open>i\<close> of a ranking holds the best remaining item given the positions before it.\<close>

definition greedy_choice ::
    "(string, string option) dict \<Rightarrow> (string, string) dict \<Rightarrow> recommendation_item multiset \<Rightarrow> recommendation_item list \<Rightarrow> nat \<Rightarrow> bool" where
  "greedy_choice topics authors pool ranking i \<longleftrightarrow>
     (\<forall>y\<in>#pool - mset (take i ranking). adjusted topics authors (take i ranking) y \<le>
        adjusted topics authors (take i ranking) (ranking ! i))"

lemma rerank_loop_length: "length (rerank_loop topics authors n remaining selected) = length selected + min n (length remaining)"
  by (induction topics authors n remaining selected rule: rerank_loop.induct)
    (simp_all add: Let_def length_max_key del: remove1.simps)

lemma rerank_loop_prefix: "take (length selected) (rerank_loop topics authors n remaining selected) = selected"
proof (induction topics authors n remaining selected rule: rerank_loop.induct)
  case (3 topics authors n x xs selected)
  let ?best = "max_key (adjusted topics authors selected) x xs"
  have "take (length (selected @ [?best])) (rerank_loop topics authors (Suc n) (x # xs) selected) = selected @ [?best]"
    using 3 by (simp add: Let_def)
  then show ?case by (metis append_eq_conv_conj append_take_drop_id append.assoc)
qed auto

lemma mset_snoc: "mset (ys @ [b]) + R = mset ys + add_mset b R"
  by simp

lemma rerank_loop_subset: "mset (rerank_loop topics authors n remaining selected) \<subseteq># mset selected + mset remaining"
proof (induction topics authors n remaining selected rule: rerank_loop.induct)
  case (3 topics authors n x xs selected)
  from 3[OF refl] show ?case unfolding rerank_loop.simps Let_def mset_snoc mset_max_key .
qed auto

lemma rerank_loop_greedy:
  assumes "mset selected + mset remaining = pool" "length selected \<le> i" "i < length (rerank_loop topics authors n remaining selected)"
  shows "greedy_choice topics authors pool (rerank_loop topics authors n remaining selected) i"
  using assms
proof (induction topics authors n remaining selected rule: rerank_loop.induct)
  case (3 topics authors n x xs selected)
  let ?best = "max_key (adjusted topics authors selected) x xs"
  let ?res = "rerank_loop topics authors n (remove1 ?best (x # xs)) (selected @ [?best])"
  have res: "rerank_loop topics authors (Suc n) (x # xs) selected = ?res" by (simp add: Let_def)
  have "mset (selected @ [?best]) + mset (remove1 ?best (x # xs)) = pool"
    unfolding mset_snoc mset_max_key using 3(2) .
  then have later: "greedy_choice topics authors pool ?res i" if "length (selected @ [?best]) \<le> i"
    using 3(1)[OF refl _ that] 3(4) unfolding res by blast
  have pre: "take (length (selected @ [?best])) ?res = selected @ [?best]" by (rule rerank_loop_prefix)
  show ?case
  proof (cases "i = length selected")
    case True
    have sel: "take i ?res = selected" and at: "?res ! i = ?best"
      using pre True 3(4) unfolding res
      by (metis append_eq_conv_conj length_append take_add trans_le_add1 append_take_drop_id take_take min.absorb1 le_add1)
        (use pre True in \<open>metis length_append_singleton lessI nth_append_length nth_take\<close>)
    have "pool - mset selected = mset (x # xs)" using 3(2) by auto
    then show ?thesis
      unfolding res greedy_choice_def sel at using max_key_ge[of "adjusted topics authors selected" x xs] by auto
  next
    case False
    then show ?thesis using later 3(3) unfolding res by simp
  qed
qed (auto simp: greedy_choice_def)

lemma diversity_rerank_selects:
  "mset (diversity_rerank items topics authors limit) \<subseteq># mset items"
  "length (diversity_rerank items topics authors limit) = min (nat limit) (length items)"
  using rerank_loop_subset[of topics authors "nat limit" "sort_key (\<lambda>x. - it_score x) items" "[]"]
  by (simp_all add: diversity_rerank_def rerank_loop_length)

text \<open>
  C33. Re-ranking returns as many items as the limit allows, each one of the given items (so nothing is
  invented or repeated), and every position holds an item of the highest adjusted score among those
  left; in particular the first has the highest score of all.
\<close>

theorem diversity_rerank_greedy:
  "mset (diversity_rerank items topics authors limit) \<subseteq># mset items \<and>
   length (diversity_rerank items topics authors limit) = min (nat limit) (length items) \<and>
   (\<forall>i < length (diversity_rerank items topics authors limit).
      greedy_choice topics authors (mset items) (diversity_rerank items topics authors limit) i) \<and>
   (diversity_rerank items topics authors limit \<noteq> [] \<longrightarrow>
      (\<forall>y\<in>set items. it_score y \<le> it_score (hd (diversity_rerank items topics authors limit))))"
proof -
  let ?r = "diversity_rerank items topics authors limit"
  note sub = diversity_rerank_selects(1)[of items topics authors limit]
  note len = diversity_rerank_selects(2)[of items topics authors limit]
  have greedy: "greedy_choice topics authors (mset items) ?r i" if "i < length ?r" for i
    using that unfolding diversity_rerank_def by (intro rerank_loop_greedy) simp_all
  have "it_score y \<le> it_score (hd ?r)" if "?r \<noteq> []" "y \<in> set items" for y
    using greedy[of 0] that by (auto simp: greedy_choice_def adjusted_def hd_conv_nth)
  with sub len greedy show ?thesis by blast
qed

definition demo_features :: feature_snapshot where
  "demo_features =
     \<lparr>fs_schema_version = RANK_FEATURE_SCHEMA_VERSION, fs_topic_relevance = Some 1, fs_freshness = Some 1,
      fs_safety_score = Some 1, fs_candidate_source = ''topic'', fs_is_followed_author = None,
      fs_author_affinity = None, fs_heuristic_score = Some 1, fs_ml_score = None, fs_candidate_content_hash = None,
      fs_candidate_encoder_version = None, fs_retrieval_request_id = None, fs_candidate_published_at = None,
      fs_content_language = None, fs_language_detector_version = None, fs_declared_topics = [],
      fs_preference_observed_at = None\<rparr>"

definition demo_item :: "uuid \<Rightarrow> real \<Rightarrow> recommendation_item" where
  "demo_item i s = \<lparr>it_post_id = i, it_score = s, it_source = ''topic'', it_reason = [], it_features = demo_features\<rparr>"

theorem diversity_rerank_greedy_witness:
  "length (diversity_rerank [demo_item 1 2, demo_item 2 3] [] [] 1) = 1 \<and>
   3 \<le> it_score (hd (diversity_rerank [demo_item 1 2, demo_item 2 3] [] [] 1))"
proof -
  let ?r = "diversity_rerank [demo_item 1 2, demo_item 2 3] [] [] 1"
  note greedy = diversity_rerank_greedy[of "[demo_item 1 2, demo_item 2 3]" "[]" "[]" 1]
  then have len: "length ?r = 1" by simp
  then have "?r \<noteq> []" by auto
  with greedy have "\<forall>y\<in>set [demo_item 1 2, demo_item 2 3]. it_score y \<le> it_score (hd ?r)" by blast
  with len show ?thesis by (simp add: demo_item_def)
qed

end
