(* ===== verification/RankerRuntime.thy ===== *)
theory RankerRuntime
  imports Ranking
begin

text \<open>
  \<open>recommendation_api/app/model_ranker.py\<close>: loading a model artifact, scoring a candidate batch, and the
  single in-flight slot of the asynchronous scorer. The fitted pipeline, the NRMS ranker and the files
  are parameters. Whatever the model does, the request keeps its heuristic ranking; the lemmas make that
  precise.
\<close>

section \<open>Predictors\<close>

datatype ranker_mode = Heuristic | Ml | Shadow

text \<open>
  A context record: the candidate's current feature, and the history entries with their ordinal, the time
  of the engagement and the embedding.
\<close>

record nrms_record =
  nr_embedding :: "real list"
  nr_content_hash :: string
  nr_encoder_version :: string
  nr_history :: "(nat \<times> string \<times> real list) list"

datatype ranker_record = FeatureRecord "(string, pyval) dict" | NrmsRecord nrms_record

text \<open>A predicted score is \<open>None\<close> when it is not a finite number.\<close>

record predictor =
  pr_model_version :: string
  pr_requires_context :: bool
  pr_encoder_version :: string
  pr_dimension :: nat
  pr_predict :: "ranker_record list \<Rightarrow> real option list res"

definition FEATURE_COLUMNS :: "string list" where
  "FEATURE_COLUMNS =
     [''topic_relevance'', ''freshness'', ''safety_score'', ''author_affinity'', ''heuristic_score'',
      ''feed_source'', ''candidate_source'', ''is_followed_author'']"

datatype cell = Nan | Cell pyval

definition matrix_cell :: "(string, pyval) dict \<Rightarrow> string \<Rightarrow> cell res" where
  "matrix_cell r feature =
     (case map_of r feature of
        None \<Rightarrow> Inl (ValueError (''missing model feature: '' @ feature))
      | Some v \<Rightarrow> Inr (if feature \<notin> {''feed_source'', ''candidate_source'', ''is_followed_author''} \<and> v = VNone
                       then Nan else Cell v))"

fun feature_fields :: "ranker_record \<Rightarrow> (string, pyval) dict" where
  "feature_fields (FeatureRecord d) = d"
| "feature_fields (NrmsRecord r) = []"

definition feature_matrix :: "ranker_record list \<Rightarrow> cell list list res" where
  "feature_matrix records = map_res (\<lambda>r. map_res (matrix_cell (feature_fields r)) FEATURE_COLUMNS) records"

definition pipeline_scores :: "(cell list list \<Rightarrow> real option list res) \<Rightarrow> ranker_record list \<Rightarrow> real option list res" where
  "pipeline_scores predict_proba records = bind_res (feature_matrix records) predict_proba"

record nrms_ranker =
  nk_context :: "real list list \<Rightarrow> real list"
  nk_score :: "real list \<Rightarrow> real list \<Rightarrow> real option"

fun nrms_fields :: "ranker_record \<Rightarrow> nrms_record res" where
  "nrms_fields (NrmsRecord r) = Inr r"
| "nrms_fields (FeatureRecord d) = Inl (KeyError ''history'')"

definition nrms_scores :: "nrms_ranker \<Rightarrow> ranker_record list \<Rightarrow> real option list res" where
  "nrms_scores ranker records =
     (case records of
        [] \<Rightarrow> Inr []
      | first # _ \<Rightarrow>
          bind_res (nrms_fields first) (\<lambda>f.
            let context = nk_context ranker (map (snd \<circ> snd) (sort_key fst (nr_history f))) in
            map_res (\<lambda>r. bind_res (nrms_fields r) (\<lambda>n. Inr (nk_score ranker context (nr_embedding n)))) records))"

section \<open>Loading an artifact\<close>

record artifact_directory =
  ad_manifest :: "pyval res"
  ad_model_sha256 :: "string res"
  ad_pipeline :: "(cell list list \<Rightarrow> real option list res) option res"
  ad_nrms :: "((string, pyval) dict \<times> nrms_ranker) res"

definition ARTIFACT_SCHEMA_VERSION :: string where "ARTIFACT_SCHEMA_VERSION = ''recommendation-model-artifact-v1''"
definition MODEL_FEATURE_SCHEMA :: string where "MODEL_FEATURE_SCHEMA = ''rank-features-v1''"

fun vmap :: "pyval \<Rightarrow> (string, pyval) dict res" where
  "vmap (VMap d) = Inr d"
| "vmap _ = Inl (AttributeError ''object has no attribute get'')"

definition vget_or :: "(string, pyval) dict \<Rightarrow> string \<Rightarrow> pyval \<Rightarrow> pyval" where
  "vget_or d key v = dget_default d key v"

definition load_pipeline :: "pylib \<Rightarrow> artifact_directory \<Rightarrow> predictor res" where
  "load_pipeline lib dir =
     bind_res (bind_res (ad_manifest dir) vmap) (\<lambda>manifest.
     if vget manifest ''artifact_schema_version'' \<noteq> VStr ARTIFACT_SCHEMA_VERSION
     then Inl (ValueError ''unsupported model artifact schema'')
     else if vget manifest ''feature_schema_version'' \<noteq> VStr MODEL_FEATURE_SCHEMA
     then Inl (ValueError ''unsupported rank feature schema'')
     else
       bind_res (py_iter (vget_or manifest ''feature_columns'' (VList []))) (\<lambda>columns.
       if columns \<noteq> map VStr FEATURE_COLUMNS
       then Inl (ValueError ''artifact feature columns do not match serving runtime'')
       else
         bind_res (vitem manifest ''files'') (\<lambda>files.
         bind_res (vsub files ''model.joblib'') (\<lambda>entry.
         bind_res (vsub entry ''sha256'') (\<lambda>expected.
         bind_res (ad_model_sha256 dir) (\<lambda>actual.
         if VStr actual \<noteq> expected then Inl (ValueError ''model artifact checksum mismatch'')
         else bind_res (ad_pipeline dir) (\<lambda>pipeline.
           case pipeline of
             None \<Rightarrow> Inl (ValueError ''model artifact is not a sklearn Pipeline'')
           | Some predict_proba \<Rightarrow>
               let version = strip (py_str lib (vget_or manifest ''model_version'' (VStr []))) in
               if version = [] then Inl (ValueError ''model version is missing'')
               else Inr \<lparr>pr_model_version = version, pr_requires_context = False, pr_encoder_version = [],
                         pr_dimension = 0, pr_predict = pipeline_scores predict_proba\<rparr>)))))))"

definition load_nrms :: "pylib \<Rightarrow> artifact_directory \<Rightarrow> predictor res" where
  "load_nrms lib dir =
     bind_res (ad_nrms dir) (\<lambda>(manifest, ranker).
     bind_res (vitem manifest ''embedding'') (\<lambda>embedding.
     bind_res (vsub embedding ''version'') (\<lambda>version.
     bind_res (if version \<noteq> VStr ENCODER_VERSION then Inr (VInt (- 1)) else vsub embedding ''dimension'') (\<lambda>dimension.
     if version \<noteq> VStr ENCODER_VERSION \<or> dimension \<noteq> VInt (int EMBEDDING_DIMENSION)
     then Inl (ValueError ''NRMS encoder is incompatible with serving features'')
     else
       let model_version = strip (py_str lib (vget_or manifest ''model_version'' (VStr []))) in
       if model_version = [] \<or> vget manifest ''dataset_schema_version'' \<noteq> VStr ''recommendation-dataset-v2''
       then Inl (ValueError ''NRMS model version or dataset contract is missing'')
       else Inr \<lparr>pr_model_version = model_version, pr_requires_context = True,
                 pr_encoder_version = ENCODER_VERSION, pr_dimension = EMBEDDING_DIMENSION,
                 pr_predict = nrms_scores ranker\<rparr>))))"

section \<open>The runtime\<close>

record ranking_decision =
  rd_items :: "recommendation_item list"
  rd_model_version :: string
  rd_fallback_used :: bool

record ranker_runtime =
  rt_mode :: ranker_mode
  rt_predictor :: "predictor option"
  rt_inflight :: "(recommendation_item list \<times> ranker_record list option) option"
  rt_fallbacks :: "string list"

definition count_fallback :: "string \<Rightarrow> ranker_runtime \<Rightarrow> ranker_runtime" where
  "count_fallback reason rt = rt\<lparr>rt_fallbacks := rt_fallbacks rt @ [reason]\<rparr>"

definition initialize :: "pylib \<Rightarrow> ranker_mode \<Rightarrow> artifact_directory \<Rightarrow> ranker_runtime" where
  "initialize lib mode dir =
     (let idle = \<lparr>rt_mode = mode, rt_predictor = None, rt_inflight = None, rt_fallbacks = []\<rparr> in
      if mode = Heuristic then idle
      else case bind_res (bind_res (ad_manifest dir) vmap) (\<lambda>manifest.
             if vget manifest ''model_type'' = VStr ''nrms-like-impression-ranker'' then load_nrms lib dir
             else load_pipeline lib dir) of
          Inl e \<Rightarrow> count_fallback ''load_error'' idle
        | Inr p \<Rightarrow> idle\<lparr>rt_predictor := Some p\<rparr>)"

definition fallback :: "ranker_runtime \<Rightarrow> recommendation_item list \<Rightarrow> string \<Rightarrow> ranker_runtime \<times> ranking_decision" where
  "fallback rt items reason =
     (count_fallback reason rt,
      \<lparr>rd_items = items, rd_model_version = HEURISTIC_MODEL_VERSION, rd_fallback_used = True\<rparr>)"

definition opt_num :: "real option \<Rightarrow> pyval" where
  "opt_num x = (case x of None \<Rightarrow> VNone | Some r \<Rightarrow> VFloat r)"

definition feature_record :: "string \<Rightarrow> recommendation_item \<Rightarrow> ranker_record" where
  "feature_record feed_source item =
     (let f = it_features item in
      FeatureRecord
        [(''topic_relevance'', opt_num (fs_topic_relevance f)), (''freshness'', opt_num (fs_freshness f)),
         (''safety_score'', opt_num (fs_safety_score f)), (''author_affinity'', opt_num (fs_author_affinity f)),
         (''heuristic_score'', opt_num (fs_heuristic_score f)), (''feed_source'', VStr feed_source),
         (''candidate_source'', VStr (fs_candidate_source f)),
         (''is_followed_author'', (case fs_is_followed_author f of None \<Rightarrow> VNone | Some b \<Rightarrow> VBool b))])"

definition valid_score :: "real option \<Rightarrow> bool" where
  "valid_score s \<longleftrightarrow> (case s of None \<Rightarrow> False | Some r \<Rightarrow> 0 \<le> r \<and> r \<le> 1)"

definition predict_batch :: "predictor \<Rightarrow> nat \<Rightarrow> ranker_record list \<Rightarrow> real list res" where
  "predict_batch p n records =
     (if length records \<noteq> n then Inl (ValueError ''model context count does not match candidates'')
      else bind_res (pr_predict p records) (\<lambda>scores.
        if length scores \<noteq> n \<or> list_ex (\<lambda>s. \<not> valid_score s) scores
        then Inl (ValueError ''model returned invalid probability scores'') else Inr (map the scores)))"

definition scored_item :: "ranker_mode \<Rightarrow> string \<Rightarrow> recommendation_item \<times> real \<Rightarrow> recommendation_item" where
  "scored_item mode version is =
     (case is of (item, s) \<Rightarrow>
        item\<lparr>it_score := (if mode = Ml then s else it_score item),
             it_reason := (if mode = Ml then ''ml:'' @ version else it_reason item),
             it_features := (it_features item)\<lparr>fs_ml_score := Some s\<rparr>\<rparr>)"

definition score ::
    "ranker_runtime \<Rightarrow> recommendation_item list \<Rightarrow> string \<Rightarrow> ranker_record list option \<Rightarrow> ranker_runtime \<times> ranking_decision" where
  "score rt items feed_source records =
     (if rt_mode rt = Heuristic
      then (rt, \<lparr>rd_items = items, rd_model_version = HEURISTIC_MODEL_VERSION, rd_fallback_used = False\<rparr>)
      else case rt_predictor rt of
        None \<Rightarrow> (rt, \<lparr>rd_items = items, rd_model_version = HEURISTIC_MODEL_VERSION, rd_fallback_used = True\<rparr>)
      | Some p \<Rightarrow>
          if pr_requires_context p \<and> records = None then fallback rt items ''missing_context''
          else
            let batch = (case records of Some rs \<Rightarrow> rs | None \<Rightarrow> map (feature_record feed_source) items) in
            case predict_batch p (length items) batch of
              Inl e \<Rightarrow> fallback rt items ''predict_error''
            | Inr scores \<Rightarrow>
                (rt, \<lparr>rd_items = map (scored_item (rt_mode rt) (pr_model_version p)) (zip items scores),
                      rd_model_version = (if rt_mode rt = Ml then pr_model_version p
                        else HEURISTIC_MODEL_VERSION @ ''+shadow:'' @ pr_model_version p),
                      rd_fallback_used = False\<rparr>))"

text \<open>
  \<open>score_async\<close>: \<open>in_time\<close> says whether the worker thread answers before the timeout. A thread that does
  not still occupies the slot until it completes.
\<close>

definition score_async ::
    "ranker_runtime \<Rightarrow> recommendation_item list \<Rightarrow> ranker_record list option \<Rightarrow> bool \<Rightarrow> ranker_runtime \<times> ranking_decision" where
  "score_async rt items records in_time =
     (if rt_mode rt = Heuristic \<or> rt_predictor rt = None then score rt items ''personalized'' None
      else if rt_inflight rt \<noteq> None then fallback rt items ''busy''
      else if in_time then score rt items ''personalized'' records
      else fallback (rt\<lparr>rt_inflight := Some (items, records)\<rparr>) items ''timeout'')"

definition complete_inflight :: "ranker_runtime \<Rightarrow> ranker_runtime" where
  "complete_inflight rt =
     (case rt_inflight rt of
        None \<Rightarrow> rt
      | Some (items, records) \<Rightarrow> (fst (score rt items ''personalized'' records))\<lparr>rt_inflight := None\<rparr>)"

inductive ranker_step :: "ranker_runtime \<Rightarrow> ranker_runtime \<Rightarrow> bool" where
  request: "ranker_step rt (fst (score_async rt items records in_time))"
| complete: "rt_inflight rt \<noteq> None \<Longrightarrow> ranker_step rt (complete_inflight rt)"

inductive_cases ranker_stepE: "ranker_step rt rt'"

inductive_simps ranker_step_simps: "ranker_step rt rt'"

section \<open>Whatever the model does\<close>

definition same_post :: "recommendation_item \<Rightarrow> recommendation_item \<Rightarrow> bool" where
  "same_post x y \<longleftrightarrow> it_post_id x = it_post_id y \<and> it_source x = it_source y \<and>
     fs_heuristic_score (it_features x) = fs_heuristic_score (it_features y)"

definition same_rank :: "recommendation_item \<Rightarrow> recommendation_item \<Rightarrow> bool" where
  "same_rank x y \<longleftrightarrow> it_post_id x = it_post_id y \<and> it_score x = it_score y"

lemma scored_item_same:
  "same_post (scored_item mode v (item, s)) item" "mode \<noteq> Ml \<Longrightarrow> same_rank (scored_item mode v (item, s)) item"
  by (simp_all add: scored_item_def same_post_def same_rank_def)

lemma scored_items_same:
  assumes "length scores = length items"
  shows "list_all2 same_post (map (scored_item mode v) (zip items scores)) items"
    and "mode \<noteq> Ml \<Longrightarrow> list_all2 same_rank (map (scored_item mode v) (zip items scores)) items"
  using assms scored_item_same by (simp_all add: list_all2_conv_all_nth)

lemma predict_batch_ok:
  assumes "predict_batch p n records = Inr scores"
  shows "length scores = n \<and> (\<forall>s\<in>set scores. 0 \<le> s \<and> s \<le> 1)"
proof -
  obtain raw where raw: "length raw = n" "\<not> list_ex (\<lambda>s. \<not> valid_score s) raw" "scores = map the raw"
    using assms by (auto simp: predict_batch_def split: if_splits)
  have "0 \<le> the s \<and> the s \<le> 1" if "s \<in> set raw" for s
    using raw(2) that by (auto simp: list_ex_iff valid_score_def split: option.splits)
  with raw show ?thesis by auto
qed

definition decision_safe :: "ranker_runtime \<Rightarrow> recommendation_item list \<Rightarrow> ranking_decision \<Rightarrow> bool" where
  "decision_safe rt items d \<longleftrightarrow>
     list_all2 same_post (rd_items d) items \<and>
     (rd_fallback_used d \<longrightarrow> rd_items d = items \<and> rd_model_version d = HEURISTIC_MODEL_VERSION) \<and>
     (rt_mode rt \<noteq> Ml \<longrightarrow> list_all2 same_rank (rd_items d) items) \<and>
     (rt_mode rt = Ml \<and> \<not> rd_fallback_used d \<longrightarrow> (\<forall>x\<in>set (rd_items d). 0 \<le> it_score x \<and> it_score x \<le> 1))"

lemma same_refl [simp]: "list_all2 same_post xs xs" "list_all2 same_rank xs xs"
  by (simp_all add: list_all2_same same_post_def same_rank_def)

lemma fallback_safe: "decision_safe rt items (snd (fallback rt' items reason))"
  by (simp add: decision_safe_def fallback_def)

lemma score_safe: "decision_safe rt items (snd (score rt items feed records))"
proof (cases "rt_mode rt = Heuristic \<or> rt_predictor rt = None")
  case True
  then show ?thesis by (auto simp: score_def decision_safe_def split: option.splits)
next
  case False
  then obtain p where p: "rt_predictor rt = Some p" "rt_mode rt \<noteq> Heuristic" by auto
  let ?batch = "case records of Some rs \<Rightarrow> rs | None \<Rightarrow> map (feature_record feed) items"
  show ?thesis
  proof (cases "pr_requires_context p \<and> records = None")
    case True
    then show ?thesis using p fallback_safe by (simp add: score_def)
  next
    case no_missing: False
    show ?thesis
    proof (cases "predict_batch p (length items) ?batch")
      case (Inl e)
      then show ?thesis using p no_missing fallback_safe by (simp add: score_def Let_def)
    next
      case (Inr scores)
      note ok = predict_batch_ok[OF Inr]
      have "snd (score rt items feed records) =
          \<lparr>rd_items = map (scored_item (rt_mode rt) (pr_model_version p)) (zip items scores),
           rd_model_version = (if rt_mode rt = Ml then pr_model_version p
             else HEURISTIC_MODEL_VERSION @ ''+shadow:'' @ pr_model_version p), rd_fallback_used = False\<rparr>"
        unfolding score_def p(1) Let_def option.case if_not_P[OF no_missing] Inr sum.case if_not_P[OF p(2)] by simp
      moreover have "0 \<le> it_score x \<and> it_score x \<le> 1"
        if "rt_mode rt = Ml" "x \<in> set (map (scored_item (rt_mode rt) (pr_model_version p)) (zip items scores))" for x
        using that ok by (auto simp: scored_item_def dest: set_zip_rightD)
      ultimately show ?thesis
        using ok scored_items_same[of scores items "rt_mode rt"] unfolding decision_safe_def by simp
    qed
  qed
qed

lemma score_async_safe: "decision_safe rt items (snd (score_async rt items records in_time))"
  using score_safe fallback_safe by (simp add: score_async_def)

text \<open>
  C34. Whatever the model, its timing and its failures do, a decision keeps every candidate, in the
  order given; a fallback is exactly the heuristic ranking; outside ml mode no score changes; and in
  ml mode an accepted batch has scores between zero and one.
\<close>

theorem ranker_decision_safe:
  "decision_safe rt items (snd (score_async rt items records in_time))"
  by (rule score_async_safe)

section \<open>Shadow mode serves the heuristic ranking\<close>

lemma same_rank_topic [simp]: "same_rank x y \<Longrightarrow> topic_of topics x = topic_of topics y"
  by (simp add: same_rank_def topic_of_def)

lemma same_rank_author [simp]: "same_rank x y \<Longrightarrow> author_of authors x = author_of authors y"
  by (simp add: same_rank_def author_of_def)

lemma same_rank_map: "list_all2 same_rank xs ys \<Longrightarrow> (\<And>x y. same_rank x y \<Longrightarrow> f x = g y) \<Longrightarrow> map f xs = map g ys"
  by (induction rule: list_all2_induct) auto

lemma same_rank_adjusted:
  assumes "list_all2 same_rank sel sel'" "same_rank x y"
  shows "adjusted topics authors sel x = adjusted topics authors sel' y"
proof -
  have "map (topic_of topics) sel = map (topic_of topics) sel'" by (rule same_rank_map[OF assms(1)]) simp
  moreover have "sel = [] \<longleftrightarrow> sel' = []" using assms(1) by auto
  moreover have "same_rank (last sel) (last sel')" if "sel \<noteq> []"
  proof -
    have "length sel = length sel'" using assms(1) by (rule list_all2_lengthD)
    moreover from this that have "sel' \<noteq> []" by auto
    ultimately have "last sel = sel ! (length sel - 1)" "last sel' = sel' ! (length sel - 1)"
      "length sel - 1 < length sel" using that by (simp_all add: last_conv_nth)
    then show ?thesis using assms(1) by (auto simp: list_all2_conv_all_nth)
  qed
  ultimately show ?thesis
    using assms(2) by (simp add: adjusted_def same_rank_def Let_def topic_of_def author_of_def)
qed

lemma same_rank_max_key:
  assumes "list_all2 same_rank xs ys" "same_rank x y" "\<And>a b. same_rank a b \<Longrightarrow> f a = g b"
  shows "same_rank (max_key f x xs) (max_key g y ys)"
  using assms(1,2)
proof (induction arbitrary: x y rule: list_all2_induct)
  case (Cons a as b bs)
  then have "f x = g y" "f a = g b" using assms(3) by blast+
  then show ?case using Cons by simp
qed simp

lemma same_rank_remove1:
  assumes "list_all2 same_rank xs ys" "same_rank x y" "distinct (map it_post_id xs)" "x \<in> set xs" "y \<in> set ys"
  shows "list_all2 same_rank (remove1 x xs) (remove1 y ys)"
  using assms
proof (induction rule: list_all2_induct)
  case (Cons a as b bs)
  have ids: "map it_post_id as = map it_post_id bs" by (rule same_rank_map[OF Cons(2)]) (simp add: same_rank_def)
  have key: "it_post_id x = it_post_id y" "it_post_id a = it_post_id b" using Cons by (simp_all add: same_rank_def)
  show ?case
  proof (cases "a = x")
    case True
    then have "it_post_id y \<notin> set (map it_post_id bs)" using Cons(4,5) ids key by auto
    then have "b = y" using Cons(7) by force
    with True Cons(2) show ?thesis by simp
  next
    case False
    then have "x \<in> set as" using Cons(6) by simp
    then have "it_post_id x \<in> set (map it_post_id as)" by simp
    then have "it_post_id x \<noteq> it_post_id a" using Cons(5) by auto
    then have "b \<noteq> y" using key by auto
    moreover have "list_all2 same_rank (remove1 x as) (remove1 y bs)"
      using Cons \<open>x \<in> set as\<close> \<open>b \<noteq> y\<close> by (intro Cons.IH) auto
    ultimately show ?thesis using False Cons(1) by simp
  qed
qed simp

lemma same_rank_loop:
  assumes "list_all2 same_rank rem rem'" "list_all2 same_rank sel sel'" "distinct (map it_post_id rem)"
  shows "list_all2 same_rank (rerank_loop topics authors n rem sel) (rerank_loop topics authors n rem' sel')"
  using assms
proof (induction n arbitrary: rem rem' sel sel')
  case (Suc n)
  show ?case
  proof (cases rem)
    case Nil
    with Suc.prems show ?thesis by simp
  next
    case (Cons x xs)
    then obtain y ys where rem': "rem' = y # ys" "same_rank x y" "list_all2 same_rank xs ys"
      using Suc.prems(1) by (auto simp: list_all2_Cons1)
    let ?b = "max_key (adjusted topics authors sel) x xs" and ?b' = "max_key (adjusted topics authors sel') y ys"
    have best: "same_rank ?b ?b'"
      by (rule same_rank_max_key[OF rem'(3,2) same_rank_adjusted[OF Suc.prems(2)]])
    have rest: "list_all2 same_rank (remove1 ?b (x # xs)) (remove1 ?b' (y # ys))"
      using Suc.prems(1,3) Cons rem' by (intro same_rank_remove1[OF _ best] max_key_mem) simp_all
    have "distinct (map it_post_id (remove1 ?b (x # xs)))"
      using Suc.prems(3) Cons by (metis distinct_map distinct_remove1 inj_on_subset set_remove1_subset)
    then have "list_all2 same_rank (rerank_loop topics authors n (remove1 ?b (x # xs)) (sel @ [?b]))
        (rerank_loop topics authors n (remove1 ?b' (y # ys)) (sel' @ [?b']))"
      using best rest Suc.prems(2) by (intro Suc.IH) (simp_all add: list_all2_appendI)
    then show ?thesis by (simp add: Cons rem'(1) Let_def del: remove1.simps)
  qed
qed simp

lemma same_rank_insort:
  assumes "list_all2 same_rank xs ys" "same_rank x y"
  shows "list_all2 same_rank (insort_key (\<lambda>x. - it_score x) x xs) (insort_key (\<lambda>x. - it_score x) y ys)"
  using assms by (induction rule: list_all2_induct) (auto simp: same_rank_def)

lemma same_rank_sort:
  assumes "list_all2 same_rank xs ys"
  shows "list_all2 same_rank (sort_key (\<lambda>x. - it_score x) xs) (sort_key (\<lambda>x. - it_score x) ys)"
  using assms by (induction rule: list_all2_induct) (auto simp: same_rank_insort)

lemma same_rank_rerank:
  assumes "list_all2 same_rank xs ys" "distinct (map it_post_id xs)"
  shows "map it_post_id (diversity_rerank xs topics authors limit) = map it_post_id (diversity_rerank ys topics authors limit)"
proof -
  have "distinct (map it_post_id (sort_key (\<lambda>x. - it_score x) xs))"
    using assms(2) mset_eq_imp_distinct_iff[of "map it_post_id (sort_key (\<lambda>x. - it_score x) xs)" "map it_post_id xs"] by simp
  then have "list_all2 same_rank (diversity_rerank xs topics authors limit) (diversity_rerank ys topics authors limit)"
    unfolding diversity_rerank_def by (intro same_rank_loop same_rank_sort assms) simp
  then show ?thesis by (rule same_rank_map) (simp add: same_rank_def)
qed

text \<open>
  Shadow mode is observationally the heuristic ranker: whatever the model answers, and whenever,
  the posts shown and their order after the diversity re-ranking are those of the heuristic scores.
\<close>

theorem shadow_serves_heuristic:
  assumes "rt_mode rt = Shadow" "distinct (map it_post_id items)"
  shows "map it_post_id (diversity_rerank (rd_items (snd (score_async rt items records in_time))) topics authors limit) =
    map it_post_id (diversity_rerank items topics authors limit)"
proof -
  have "list_all2 same_rank (rd_items (snd (score_async rt items records in_time))) items"
    using score_async_safe[of rt items records in_time] assms(1) by (simp add: decision_safe_def)
  moreover from this have "map it_post_id (rd_items (snd (score_async rt items records in_time))) = map it_post_id items"
    by (rule same_rank_map) (simp add: same_rank_def)
  ultimately show ?thesis using assms(2) by (intro same_rank_rerank) simp_all
qed

definition demo_predictor :: predictor where
  "demo_predictor =
     \<lparr>pr_model_version = ''m1'', pr_requires_context = False, pr_encoder_version = [], pr_dimension = 0,
      pr_predict = (\<lambda>rs. Inr (map (\<lambda>_. Some (1 / 2)) rs))\<rparr>"

definition demo_runtime :: ranker_runtime where
  "demo_runtime = \<lparr>rt_mode = Shadow, rt_predictor = Some demo_predictor, rt_inflight = None, rt_fallbacks = []\<rparr>"

theorem shadow_serves_heuristic_witness:
  "map it_post_id (diversity_rerank (rd_items (snd (score_async demo_runtime [demo_item 1 2, demo_item 2 3] None True))) [] [] 2) =
   map it_post_id (diversity_rerank [demo_item 1 2, demo_item 2 3] [] [] 2)"
  by (rule shadow_serves_heuristic) (simp_all add: demo_runtime_def demo_item_def)

section \<open>One scoring thread at a time\<close>

lemma score_frame: "rt_mode (fst (score rt items feed records)) = rt_mode rt \<and>
    rt_predictor (fst (score rt items feed records)) = rt_predictor rt \<and>
    rt_inflight (fst (score rt items feed records)) = rt_inflight rt"
  by (auto simp: score_def fallback_def count_fallback_def Let_def split: option.splits sum.splits)

lemma score_async_frame:
  "rt_mode (fst (score_async rt items records in_time)) = rt_mode rt \<and>
   rt_predictor (fst (score_async rt items records in_time)) = rt_predictor rt \<and>
   (rt_inflight rt \<noteq> None \<longrightarrow> rt_inflight (fst (score_async rt items records in_time)) = rt_inflight rt)"
  using score_frame by (auto simp: score_async_def fallback_def count_fallback_def)

lemma ranker_step_frame: "ranker_step rt rt' \<Longrightarrow> rt_mode rt' = rt_mode rt \<and> rt_predictor rt' = rt_predictor rt"
  by (elim ranker_stepE) (use score_async_frame score_frame in \<open>auto simp: complete_inflight_def split: option.splits\<close>)

text \<open>A running thread is never replaced: while it runs every request of a loaded model falls back.\<close>

lemma busy_falls_back:
  assumes "rt_inflight rt \<noteq> None" "rt_mode rt \<noteq> Heuristic" "rt_predictor rt \<noteq> None"
  shows "score_async rt items records in_time = fallback rt items ''busy''"
  using assms by (auto simp: score_async_def)

end
