(* ===== verification/Candidates.thy ===== *)
theory Candidates
  imports Ranking FeatureStore
begin

text \<open>
  \<open>recommendation_api/app/features.py\<close>: candidate retrieval. The SQL queries are filters, sorts and limits
  over the tables; \<open>gather_candidates\<close> merges the sources, removes what the client excluded and fills the
  pool from recent posts. The interaction-weighted vector rebuild is here too: it writes the table and the
  cache key of the feature store.
\<close>

section \<open>The tables\<close>

record post_record =
  po_id :: uuid
  po_author_id :: uuid
  po_topics :: "string list"
  po_safety_score :: real
  po_created_at :: instant
  po_content :: unicode
  po_published :: bool

record seen_record =
  se_user_id :: uuid
  se_post_id :: uuid
  se_event_type :: string
  se_occurred_at :: instant

record feed_db =
  fd_posts :: "post_record list"
  fd_users :: "uuid list"
  fd_active_users :: "uuid list"
  fd_follows :: "(uuid \<times> uuid \<times> instant) list"
  fd_hides :: "(uuid \<times> uuid) list"
  fd_reports :: "(uuid \<times> uuid) list"
  fd_seen :: "seen_record list"
  fd_interactions :: "(uuid \<times> uuid \<times> real) list"
  fd_now :: instant

definition seen_recently :: "feed_db \<Rightarrow> uuid \<Rightarrow> int \<Rightarrow> seen_record \<Rightarrow> bool" where
  "seen_recently db user cooldown s \<longleftrightarrow>
     se_user_id s = user \<and> se_event_type s \<in> {''visible'', ''view''} \<and>
     se_occurred_at s \<ge> fd_now db - cooldown * us_per_day"

definition not_excluded :: "feed_db \<Rightarrow> uuid \<Rightarrow> int \<Rightarrow> post_record \<Rightarrow> bool" where
  "not_excluded db user cooldown p \<longleftrightarrow>
     (user, po_id p) \<notin> set (fd_hides db) \<and> (user, po_id p) \<notin> set (fd_reports db) \<and>
     (cooldown = 0 \<or> \<not> list_ex (\<lambda>s. se_post_id s = po_id p \<and> seen_recently db user cooldown s) (fd_seen db))"

text \<open>The posts a user may be shown: published, by an active author, and not excluded for this user.\<close>

definition eligible :: "feed_db \<Rightarrow> uuid \<Rightarrow> int \<Rightarrow> post_record \<Rightarrow> bool" where
  "eligible db user cooldown p \<longleftrightarrow>
     po_published p \<and> po_author_id p \<in> set (fd_active_users db) \<and> not_excluded db user cooldown p"

definition newest_first :: "post_record list \<Rightarrow> post_record list" where
  "newest_first ps = sort_key (\<lambda>p. - po_created_at p) ps"

section \<open>Sources\<close>

definition to_candidates :: "string \<Rightarrow> post_record list \<Rightarrow> candidate_post list" where
  "to_candidates source rows =
     map (\<lambda>r. \<lparr>cp_id = po_id r, cp_author_id = po_author_id r, cp_topics = po_topics r,
       cp_safety_score = po_safety_score r, cp_created_at = po_created_at r, cp_source = source,
       cp_content = po_content r, cp_retrieval_score = None\<rparr>) rows"

definition candidates_from_followed :: "feed_db \<Rightarrow> uuid \<Rightarrow> int \<Rightarrow> nat \<Rightarrow> candidate_post list" where
  "candidates_from_followed db user cooldown limit =
     to_candidates ''follow'' (take limit (newest_first
       (filter (\<lambda>p. list_ex (\<lambda>(follower, followee, _). follower = user \<and> followee = po_author_id p) (fd_follows db) \<and>
          eligible db user cooldown p) (fd_posts db))))"

definition candidates_from_topics :: "feed_db \<Rightarrow> uuid \<Rightarrow> int \<Rightarrow> string list \<Rightarrow> nat \<Rightarrow> candidate_post list" where
  "candidates_from_topics db user cooldown topics limit =
     (let topic_list = filter (\<lambda>t. t \<noteq> []) topics in
      if topic_list = [] then []
      else to_candidates ''topic'' (take limit (newest_first
        (filter (\<lambda>p. list_ex (\<lambda>t. t \<in> set topic_list) (po_topics p) \<and> eligible db user cooldown p) (fd_posts db)))))"

definition candidates_recent :: "feed_db \<Rightarrow> uuid \<Rightarrow> int \<Rightarrow> nat \<Rightarrow> candidate_post list" where
  "candidates_recent db user cooldown limit =
     to_candidates ''recent'' (take limit (newest_first (filter (eligible db user cooldown) (fd_posts db))))"

definition candidates_for_ids :: "feed_db \<Rightarrow> uuid \<Rightarrow> int \<Rightarrow> uuid list \<Rightarrow> string \<Rightarrow> candidate_post list" where
  "candidates_for_ids db user cooldown ids source =
     (if ids = [] then []
      else to_candidates source (take (length ids)
        (filter (\<lambda>p. po_id p \<in> set ids \<and> eligible db user cooldown p) (fd_posts db))))"

text \<open>The counters of \<open>record_candidate_exclusions\<close>: excluded posts by reason, and their distinct total.\<close>

definition exclusion_reasons :: "feed_db \<Rightarrow> uuid \<Rightarrow> int \<Rightarrow> (uuid \<times> string) list" where
  "exclusion_reasons db user cooldown =
     map (\<lambda>(_, p). (p, ''hide'')) (filter (\<lambda>(u, _). u = user) (fd_hides db)) @
     map (\<lambda>(_, p). (p, ''report'')) (filter (\<lambda>(u, _). u = user) (fd_reports db)) @
     map (\<lambda>s. (se_post_id s, ''seen'')) (filter (\<lambda>s. cooldown > 0 \<and> seen_recently db user cooldown s) (fd_seen db))"

definition candidate_exclusions :: "feed_db \<Rightarrow> uuid \<Rightarrow> int \<Rightarrow> (string, nat) dict" where
  "candidate_exclusions db user cooldown =
     (let shown = map po_id (filter (\<lambda>p. po_published p \<and> po_author_id p \<in> set (fd_active_users db)) (fd_posts db));
          excluded = filter (\<lambda>(p, _). p \<in> set shown) (dedup (exclusion_reasons db user cooldown)) in
      counter (map snd excluded) @
      [(''any'', length (dedup (map fst excluded)))])"

section \<open>The pool\<close>

definition top_topics :: "(string, real) dict \<Rightarrow> string list" where
  "top_topics user_vec = take 5 (sort_key (\<lambda>t. - dget_default user_vec t 0) (dkeys user_vec))"

text \<open>First seen wins, so the better source sticks.\<close>

definition pool_add :: "uuid set \<Rightarrow> (uuid, candidate_post) dict \<Rightarrow> candidate_post \<Rightarrow> (uuid, candidate_post) dict" where
  "pool_add excluded by_id c = (if cp_id c \<in> excluded then by_id else dsetdefault by_id (cp_id c) c)"

fun backfill_pool :: "nat \<Rightarrow> uuid set \<Rightarrow> (uuid, candidate_post) dict \<Rightarrow> candidate_post list \<Rightarrow> (uuid, candidate_post) dict" where
  "backfill_pool pool_size excluded by_id [] = by_id"
| "backfill_pool pool_size excluded by_id (c # cs) =
     (let by_id' = (if cp_id c \<notin> excluded \<and> cp_id c \<notin> set (dkeys by_id) then dset by_id (cp_id c) c else by_id) in
      if length by_id' \<ge> pool_size then by_id' else backfill_pool pool_size excluded by_id' cs)"

definition gather_candidates ::
    "feed_db \<Rightarrow> uuid \<Rightarrow> (string, real) dict \<Rightarrow> int \<Rightarrow> int \<Rightarrow> uuid list \<Rightarrow> candidate_post list \<Rightarrow> candidate_post list" where
  "gather_candidates db user user_vec pool_size cooldown exclude_post_ids semantic_candidates =
     (let excluded = set exclude_post_ids in
      if pool_size \<le> 0 then []
      else
        let n = nat pool_size;
            follow_n = max 1 (n div 3);
            topic_n = max 1 (n div 3);
            recent_n = nat (max 1 (pool_size - int follow_n - int topic_n));
            batches = [take (n div 4) semantic_candidates,
                       candidates_from_followed db user cooldown follow_n,
                       candidates_from_topics db user cooldown (top_topics user_vec) topic_n,
                       candidates_recent db user cooldown recent_n];
            by_id = foldl (pool_add excluded) [] (concat batches);
            by_id = (if length by_id < n
                     then backfill_pool n excluded by_id
                            (candidates_recent db user cooldown (n + length by_id + card excluded))
                     else by_id) in
        take n (dvalues by_id))"

section \<open>Rebuilding vectors\<close>

definition interaction_topics :: "post_record \<Rightarrow> string list" where
  "interaction_topics p = (let topics = filter (\<lambda>t. t \<noteq> []) (po_topics p) in if topics = [] then [''general''] else topics)"

definition add_interaction :: "(string, real) dict \<Rightarrow> real \<times> post_record \<Rightarrow> (string, real) dict" where
  "add_interaction out wp =
     (case wp of (weight, p) \<Rightarrow>
        let topics = interaction_topics p; share = weight / real (length topics) in
        foldl (\<lambda>out t. dset out t (py_round 4 (dget_default out t 0 + share))) out topics)"

definition user_interactions :: "feed_db \<Rightarrow> uuid \<Rightarrow> (real \<times> post_record) list" where
  "user_interactions db user =
     concat (map (\<lambda>(u, post, weight). if u = user
        then map (Pair weight) (filter (\<lambda>p. po_id p = post) (fd_posts db)) else []) (fd_interactions db))"

definition aggregate_topic_weights :: "feed_db \<Rightarrow> uuid \<Rightarrow> (string, real) dict" where
  "aggregate_topic_weights db user = foldl add_interaction [] (user_interactions db user)"

definition upsert_user_vector :: "uuid \<Rightarrow> (string, real) dict \<Rightarrow> feature_db \<Rightarrow> feature_db" where
  "upsert_user_vector user weights db = db\<lparr>vectors_v1 := dset (vectors_v1 db) user weights\<rparr>"

definition all_user_ids_with_interactions :: "feed_db \<Rightarrow> uuid list" where
  "all_user_ids_with_interactions db = dedup (map fst (fd_interactions db))"

definition rebuild_user :: "feed_db \<Rightarrow> feature_world \<Rightarrow> uuid \<Rightarrow> feature_world" where
  "rebuild_user db w user =
     (let weights = aggregate_topic_weights db user in
      w\<lparr>w_db := upsert_user_vector user weights (w_db w),
        w_cache := dset (w_cache w) (''pref:'' @ str_uuid user) (encode_weights weights, 1800)\<rparr>)"

definition rebuild_features :: "feed_db \<Rightarrow> uuid option \<Rightarrow> feature_world \<Rightarrow> feature_world \<times> nat" where
  "rebuild_features db user w =
     (let targets = (case user of Some u \<Rightarrow> [u] | None \<Rightarrow> all_user_ids_with_interactions db) in
      (foldl (rebuild_user db) w targets, length targets))"

section \<open>The pool is safe and full\<close>

definition pool_ok :: "uuid set \<Rightarrow> candidate_post set \<Rightarrow> (uuid, candidate_post) dict \<Rightarrow> bool" where
  "pool_ok excluded S d \<longleftrightarrow>
     distinct (dkeys d) \<and> (\<forall>x\<in>set d. fst x = cp_id (snd x) \<and> fst x \<notin> excluded \<and> snd x \<in> S)"

lemma pool_ok_Nil [simp]: "pool_ok excluded S []"
  by (simp add: pool_ok_def)

lemma pool_ok_add: "pool_ok excluded S d \<Longrightarrow> c \<in> S \<Longrightarrow> pool_ok excluded S (pool_add excluded d c)"
  by (auto simp: pool_ok_def pool_add_def dsetdefault_alt)

lemma pool_ok_fold: "pool_ok excluded S d \<Longrightarrow> set cs \<subseteq> S \<Longrightarrow> pool_ok excluded S (foldl (pool_add excluded) d cs)"
  by (induction cs arbitrary: d) (simp_all add: pool_ok_add)

definition backfill_add :: "uuid set \<Rightarrow> (uuid, candidate_post) dict \<Rightarrow> candidate_post \<Rightarrow> (uuid, candidate_post) dict" where
  "backfill_add excluded d c = (if cp_id c \<notin> excluded \<and> cp_id c \<notin> set (dkeys d) then dset d (cp_id c) c else d)"

lemma backfill_Cons:
  "backfill_pool n excluded d (c # cs) =
     (if n \<le> length (backfill_add excluded d c) then backfill_add excluded d c
      else backfill_pool n excluded (backfill_add excluded d c) cs)"
  by (simp add: backfill_add_def Let_def)

lemma pool_ok_backfill_add: "pool_ok excluded S d \<Longrightarrow> c \<in> S \<Longrightarrow> pool_ok excluded S (backfill_add excluded d c)"
  by (auto simp: pool_ok_def backfill_add_def dset_new)

lemma pool_ok_backfill: "pool_ok excluded S d \<Longrightarrow> set cs \<subseteq> S \<Longrightarrow> pool_ok excluded S (backfill_pool n excluded d cs)"
  by (induction cs arbitrary: d) (simp_all add: backfill_Cons pool_ok_backfill_add del: backfill_pool.simps(2))

lemma backfill_add_keys:
  "set (dkeys d) \<subseteq> set (dkeys (backfill_add excluded d c))"
  "cp_id c \<in> excluded \<or> cp_id c \<in> set (dkeys (backfill_add excluded d c))"
  by (auto simp: backfill_add_def dset_new)

text \<open>Backfilling stops only at a full pool or when every new candidate has been taken.\<close>

lemma backfill_full:
  "n \<le> length (backfill_pool n excluded d cs) \<or>
   (cp_id ` set cs - excluded) \<union> set (dkeys d) \<subseteq> set (dkeys (backfill_pool n excluded d cs))"
proof (induction cs arbitrary: d)
  case (Cons c cs)
  define d' where "d' = backfill_add excluded d c"
  show ?case
  proof (cases "n \<le> length d'")
    case True
    then show ?thesis by (simp add: backfill_Cons d'_def del: backfill_pool.simps(2))
  next
    case False
    then have eq: "backfill_pool n excluded d (c # cs) = backfill_pool n excluded d' cs"
      by (simp add: backfill_Cons d'_def del: backfill_pool.simps(2))
    have keys: "set (dkeys d) \<subseteq> set (dkeys d')" "cp_id c \<in> excluded \<or> cp_id c \<in> set (dkeys d')"
      unfolding d'_def by (rule backfill_add_keys)+
    show ?thesis unfolding eq list.set image_insert using Cons.IH[of d'] keys by blast
  qed
qed simp

section \<open>What retrieval returns\<close>

definition candidate_of :: "feed_db \<Rightarrow> uuid \<Rightarrow> int \<Rightarrow> candidate_post \<Rightarrow> bool" where
  "candidate_of db user cooldown c \<longleftrightarrow>
     (\<exists>p\<in>set (fd_posts db). eligible db user cooldown p \<and> cp_id c = po_id p \<and> cp_author_id c = po_author_id p \<and>
        cp_topics c = po_topics p \<and> cp_content c = po_content p)"

lemma set_newest_first [simp]: "set (newest_first ps) = set ps" "length (newest_first ps) = length ps"
  by (simp_all add: newest_first_def)

lemma to_candidates_of:
  assumes "\<And>p. p \<in> set rows \<Longrightarrow> p \<in> set (fd_posts db) \<and> eligible db user cooldown p" "c \<in> set (to_candidates s rows)"
  shows "candidate_of db user cooldown c"
  using assms by (fastforce simp: to_candidates_def candidate_of_def)

lemma sources_eligible:
  "c \<in> set (candidates_from_followed db user cooldown n) \<Longrightarrow> candidate_of db user cooldown c"
  "c \<in> set (candidates_from_topics db user cooldown ts n) \<Longrightarrow> candidate_of db user cooldown c"
  "c \<in> set (candidates_recent db user cooldown n) \<Longrightarrow> candidate_of db user cooldown c"
  "c \<in> set (candidates_for_ids db user cooldown ids s) \<Longrightarrow> candidate_of db user cooldown c"
  by (auto simp: candidates_from_followed_def candidates_from_topics_def candidates_recent_def candidates_for_ids_def
      Let_def split: if_splits dest: in_set_takeD elim!: to_candidates_of[rotated])

lemma recent_ids:
  "map cp_id (candidates_recent db user cooldown n) =
     take n (map po_id (newest_first (filter (eligible db user cooldown) (fd_posts db))))"
  by (simp add: candidates_recent_def to_candidates_def take_map o_def)

text \<open>
  The over-fetch covers overlaps: among the first \<open>n + |keys| + |excluded|\<close> recent posts either all
  eligible posts occur, or at least \<open>n\<close> that are neither excluded nor in the pool.
\<close>

lemma overfetch_covers:
  assumes "distinct ids" "finite excluded" "finite K"
  shows "n \<le> card (set (take (n + card K + card excluded) ids) - excluded - K) \<or>
    take (n + card K + card excluded) ids = ids"
proof (cases "length ids \<le> n + card K + card excluded")
  case True
  then show ?thesis by simp
next
  case False
  let ?t = "set (take (n + card K + card excluded) ids)"
  have "card ?t = n + card K + card excluded"
    using False assms(1) by (simp add: distinct_card)
  moreover have "card ?t - card excluded \<le> card (?t - excluded)" by (rule diff_card_le_card_Diff[OF assms(2)])
  moreover have "card (?t - excluded) - card K \<le> card (?t - excluded - K)"
    by (rule diff_card_le_card_Diff[OF assms(3)])
  ultimately show ?thesis by linarith
qed

lemma set_dkeys_finite [simp]: "finite (set (dkeys d))"
  by (rule finite_set)

lemma gather_cases:
  assumes "0 < pool_size" and distinct: "distinct (map po_id (fd_posts db))"
  obtains by_id where
    "pool_ok (set ex) (set semantic \<union> {c. candidate_of db user cooldown c}) by_id"
    "gather_candidates db user vec pool_size cooldown ex semantic = take (nat pool_size) (dvalues by_id)"
    "nat pool_size \<le> length by_id \<or>
       po_id ` {p \<in> set (fd_posts db). eligible db user cooldown p} - set ex \<subseteq> set (dkeys by_id)"
proof -
  let ?S = "set semantic \<union> {c. candidate_of db user cooldown c}" and ?n = "nat pool_size"
  define batches where "batches = [take (?n div 4) semantic, candidates_from_followed db user cooldown (max 1 (?n div 3)),
    candidates_from_topics db user cooldown (top_topics vec) (max 1 (?n div 3)),
    candidates_recent db user cooldown (nat (max 1 (pool_size - int (max 1 (?n div 3)) - int (max 1 (?n div 3)))))]"
  define d0 where "d0 = foldl (pool_add (set ex)) [] (concat batches)"
  define recent where "recent = candidates_recent db user cooldown (?n + length d0 + card (set ex))"
  define d1 where "d1 = (if length d0 < ?n then backfill_pool ?n (set ex) d0 recent else d0)"
  have "set (concat batches) \<subseteq> ?S" using sources_eligible by (auto simp: batches_def dest: in_set_takeD)
  then have ok0: "pool_ok (set ex) ?S d0" unfolding d0_def by (intro pool_ok_fold) simp_all
  have "set recent \<subseteq> ?S" using sources_eligible(3) by (auto simp: recent_def)
  with ok0 have ok1: "pool_ok (set ex) ?S d1" by (simp add: d1_def pool_ok_backfill)
  have res: "gather_candidates db user vec pool_size cooldown ex semantic = take ?n (dvalues d1)"
    unfolding gather_candidates_def Let_def d1_def recent_def d0_def batches_def
    by (rule if_not_P) (simp add: assms(1) not_le)
  have full: "?n \<le> length d1 \<or> po_id ` {p \<in> set (fd_posts db). eligible db user cooldown p} - set ex \<subseteq> set (dkeys d1)"
  proof (cases "length d0 < ?n")
    case False
    then show ?thesis by (simp add: d1_def)
  next
    case True
    then have d1: "d1 = backfill_pool ?n (set ex) d0 recent" by (simp add: d1_def)
    let ?elig = "filter (eligible db user cooldown) (fd_posts db)"
    let ?ids = "map po_id (newest_first ?elig)"
    have "distinct (map po_id ?elig)" using distinct by (simp add: distinct_map_filter)
    then have ids: "distinct ?ids"
      using mset_eq_imp_distinct_iff[of ?ids "map po_id ?elig"] by (simp add: newest_first_def)
    have keys0: "card (set (dkeys d0)) = length d0"
      using ok0 distinct_card[of "dkeys d0"] by (simp add: pool_ok_def)
    have recent: "set (map cp_id recent) = set (take (?n + card (set (dkeys d0)) + card (set ex)) ?ids)"
      by (simp only: recent_def recent_ids keys0)
    from backfill_full[of ?n "set ex" d0 recent] show ?thesis
    proof
      assume "?n \<le> length (backfill_pool ?n (set ex) d0 recent)"
      then show ?thesis by (simp add: d1)
    next
      assume sub: "(cp_id ` set recent - set ex) \<union> set (dkeys d0) \<subseteq> set (dkeys (backfill_pool ?n (set ex) d0 recent))"
      from overfetch_covers[OF ids finite_set[of ex] set_dkeys_finite[of d0], of ?n] show ?thesis
      proof
        assume "?n \<le> card (set (take (?n + card (set (dkeys d0)) + card (set ex)) ?ids) - set ex - set (dkeys d0))"
        also have "\<dots> \<le> card (set (dkeys d1))"
          using sub recent by (intro card_mono) (auto simp: d1)
        also have "\<dots> \<le> length d1" using card_length[of "dkeys d1"] by simp
        finally show ?thesis by simp
      next
        assume "take (?n + card (set (dkeys d0)) + card (set ex)) ?ids = ?ids"
        then have "cp_id ` set recent = po_id ` {p \<in> set (fd_posts db). eligible db user cooldown p}"
          using recent by simp
        with sub show ?thesis by (auto simp: d1)
      qed
    qed
  qed
  show thesis by (rule that[OF ok1 res full])
qed

lemma distinct_pool_ids:
  assumes "pool_ok excluded S d"
  shows "map cp_id (dvalues d) = dkeys d"
  using assms by (induction d) (auto simp: pool_ok_def)

lemma gather_candidates_spec:
  assumes "distinct (map po_id (fd_posts db))"
  shows "distinct (map cp_id (gather_candidates db user vec pool_size cooldown ex semantic)) \<and>
    (\<forall>c\<in>set (gather_candidates db user vec pool_size cooldown ex semantic).
       cp_id c \<notin> set ex \<and> (c \<in> set semantic \<or> candidate_of db user cooldown c)) \<and>
    length (gather_candidates db user vec pool_size cooldown ex semantic) \<le> nat pool_size \<and>
    min (nat pool_size) (card (po_id ` {p \<in> set (fd_posts db). eligible db user cooldown p} - set ex)) \<le>
      length (gather_candidates db user vec pool_size cooldown ex semantic)"
proof (cases "0 < pool_size")
  case False
  then show ?thesis by (simp add: gather_candidates_def Let_def)
next
  case True
  then show ?thesis
  proof (rule gather_cases[OF _ assms, of pool_size ex semantic user cooldown vec])
    fix by_id
    assume ok: "pool_ok (set ex) (set semantic \<union> {c. candidate_of db user cooldown c}) by_id"
      and res: "gather_candidates db user vec pool_size cooldown ex semantic = take (nat pool_size) (dvalues by_id)"
      and full: "nat pool_size \<le> length by_id \<or>
        po_id ` {p \<in> set (fd_posts db). eligible db user cooldown p} - set ex \<subseteq> set (dkeys by_id)"
    let ?e = "po_id ` {p \<in> set (fd_posts db). eligible db user cooldown p} - set ex"
    have "distinct (map cp_id (take (nat pool_size) (dvalues by_id)))"
      unfolding take_map[symmetric] distinct_pool_ids[OF ok] using ok by (simp add: pool_ok_def)
    moreover have "cp_id c \<notin> set ex \<and> (c \<in> set semantic \<or> candidate_of db user cooldown c)"
      if "c \<in> set (take (nat pool_size) (dvalues by_id))" for c
      using in_set_takeD[OF that] ok by (auto simp: pool_ok_def)
    moreover have "min (nat pool_size) (card ?e) \<le> length (take (nat pool_size) (dvalues by_id))"
    proof (cases "nat pool_size \<le> length by_id")
      case False
      with full have "card ?e \<le> card (set (dkeys by_id))" by (intro card_mono) simp_all
      also have "\<dots> \<le> length by_id" using card_length[of "dkeys by_id"] by simp
      finally show ?thesis by simp
    qed simp
    ultimately show ?thesis unfolding res by simp
  qed
qed


definition demo_post :: "uuid \<Rightarrow> int \<Rightarrow> post_record" where
  "demo_post i t = \<lparr>po_id = i, po_author_id = 9, po_topics = [''ai''], po_safety_score = 1, po_created_at = t,
     po_content = [], po_published = True\<rparr>"

definition demo_feed :: feed_db where
  "demo_feed = \<lparr>fd_posts = [demo_post 1 10, demo_post 2 20, demo_post 3 30], fd_users = [7, 9], fd_active_users = [9], fd_follows = [],
     fd_hides = [(7, 3)], fd_reports = [], fd_seen = [], fd_interactions = [], fd_now = 100\<rparr>"

lemma demo_feed_posts [simp]: "fd_posts demo_feed = [demo_post 1 10, demo_post 2 20, demo_post 3 30]" "po_id (demo_post i t) = i"
  by (simp_all add: demo_feed_def demo_post_def)

lemma demo_feed_eligible: "eligible demo_feed 7 7 (demo_post i t) \<longleftrightarrow> i \<noteq> 3"
  by (simp add: demo_feed_def demo_post_def eligible_def not_excluded_def)


end
