(* ===== verification/ServingContext.thy ===== *)
theory ServingContext
  imports HistoryServe RankerRuntime Candidates
begin

text \<open>
  What a feed request reads besides its candidates: \<open>recommendation_api/app/serving_context.py\<close> (the NRMS
  context and the author context), the semantic source of \<open>features.py\<close>, and the candidate telemetry of
  \<open>retrieval_telemetry.py\<close>. Every read is as of the instant the request was observed.
\<close>

section \<open>Embeddings\<close>

definition serving_embedding :: "real list \<Rightarrow> nat \<Rightarrow> real list res" where
  "serving_embedding v dimension =
     (if length v \<noteq> dimension then Inl (ValueError ''invalid feature embedding'')
      else if \<bar>euclidean_norm v - 1\<bar> > 1 / 1000 then Inl (ValueError ''unnormalized feature embedding'')
      else Inr v)"

section \<open>The NRMS context\<close>

definition context_feature_rows ::
    "telemetry_db \<Rightarrow> uuid list \<Rightarrow> string \<Rightarrow> instant \<Rightarrow> article_feature list" where
  "context_feature_rows tdb ids encoder_version observed_at =
     latest_feature_first (filter (\<lambda>f. af_post_id f \<in> set ids \<and> af_encoder_version f = encoder_version \<and>
       af_source_updated_at f \<le> observed_at \<and> af_computed_at f \<le> observed_at) (td_features tdb))"

definition add_context_feature ::
    "string \<Rightarrow> instant \<Rightarrow> (uuid \<times> string, article_feature) dict \<Rightarrow> article_feature \<Rightarrow> (uuid \<times> string, article_feature) dict" where
  "add_context_feature encoder_version observed_at features f =
     (if af_encoder_version f = encoder_version \<and> af_source_updated_at f \<le> af_computed_at f \<and>
         af_computed_at f \<le> observed_at
      then dsetdefault features (af_post_id f, af_content_hash f) f else features)"

definition context_features ::
    "telemetry_db \<Rightarrow> uuid list \<Rightarrow> string \<Rightarrow> instant \<Rightarrow> (uuid \<times> string, article_feature) dict" where
  "context_features tdb ids encoder_version observed_at =
     foldl (add_context_feature encoder_version observed_at) [] (context_feature_rows tdb ids encoder_version observed_at)"

definition context_history_entry ::
    "pylib \<Rightarrow> string \<Rightarrow> nat \<Rightarrow> instant \<Rightarrow> nat \<times> history_entry \<Rightarrow> (nat \<times> string \<times> real list) res" where
  "context_history_entry lib encoder_version dimension observed_at ie =
     (case ie of (ordinal, e) \<Rightarrow>
        if he_encoder_version e \<noteq> encoder_version \<or> he_engaged_at e \<ge> observed_at \<or>
           he_computed_at e > observed_at \<or> he_source_updated_at e > he_computed_at e
        then Inl (ValueError ''incompatible history feature'')
        else bind_res (serving_embedding (he_embedding e) dimension) (\<lambda>v.
          Inr (ordinal, isoformat lib (Aware (he_engaged_at e)), v)))"

definition candidate_record ::
    "pylib \<Rightarrow> unicode_lib \<Rightarrow> string \<Rightarrow> nat \<Rightarrow> (uuid \<times> string, article_feature) dict \<Rightarrow>
     (nat \<times> string \<times> real list) list \<Rightarrow> candidate_post \<Rightarrow> ranker_record res" where
  "candidate_record lib ul encoder_version dimension features history c =
     bind_res (content_hash lib ul (cp_content c)) (\<lambda>hash.
       case dget features (cp_id c, hash) of
         None \<Rightarrow> Inl (ValueError ''missing current candidate feature'')
       | Some f \<Rightarrow> bind_res (serving_embedding (af_embedding f) dimension) (\<lambda>v.
           Inr (NrmsRecord \<lparr>nr_embedding = v, nr_content_hash = af_content_hash f,
                            nr_encoder_version = encoder_version, nr_history = history\<rparr>)))"

definition load_nrms_records ::
    "pylib \<Rightarrow> unicode_lib \<Rightarrow> serve_cfg \<Rightarrow> telemetry_db \<Rightarrow> uuid \<Rightarrow> candidate_post list \<Rightarrow> instant \<Rightarrow> string \<Rightarrow> nat \<Rightarrow>
     ranker_record list res" where
  "load_nrms_records lib ul cfg tdb user candidates observed_at encoder_version dimension =
     (let features = context_features tdb (map cp_id candidates) encoder_version observed_at in
      bind_res (fetch_user_history lib cfg tdb observed_at user (Some observed_at) []) (\<lambda>(snapshot, _).
      bind_res (map_res (context_history_entry lib encoder_version dimension observed_at)
          (enumerate 0 (hs_entries snapshot))) (\<lambda>history.
        map_res (candidate_record lib ul encoder_version dimension features history) candidates)))"

section \<open>The author context\<close>

text \<open>The authors of the posts behind the user's v2 clicks of the last thirty days, one per click.\<close>

definition prior_click_authors :: "pylib \<Rightarrow> feed_db \<Rightarrow> telemetry_db \<Rightarrow> uuid \<Rightarrow> instant \<Rightarrow> uuid list" where
  "prior_click_authors lib db tdb user observed_at =
     concat (map (\<lambda>e. map po_author_id (filter (\<lambda>p. po_id p = ev_post_id e) (fd_posts db)))
       (filter (\<lambda>e. ev_user_id e = user \<and> v2_click lib e \<and> ev_occurred_at e < observed_at \<and>
          (case ev_ingested_at e of None \<Rightarrow> False | Some i \<Rightarrow> i \<le> observed_at) \<and>
          observed_at - 30 * us_per_day \<le> ev_occurred_at e) (td_events tdb)))"

definition affinity :: "uuid list \<Rightarrow> uuid \<Rightarrow> real" where
  "affinity prior author = (if prior = [] then 0 else real (count_list prior author) / real (length prior))"

definition is_followed :: "feed_db \<Rightarrow> uuid \<Rightarrow> uuid \<Rightarrow> instant \<Rightarrow> bool" where
  "is_followed db user author observed_at =
     list_ex (\<lambda>(follower, followee, t). follower = user \<and> followee = author \<and> t \<le> observed_at) (fd_follows db)"

definition load_author_context ::
    "pylib \<Rightarrow> feed_db \<Rightarrow> telemetry_db \<Rightarrow> uuid \<Rightarrow> uuid list \<Rightarrow> instant \<Rightarrow> (uuid, bool \<times> real) dict" where
  "load_author_context lib db tdb user author_ids observed_at =
     (let prior = prior_click_authors lib db tdb user observed_at in
      map (\<lambda>a. (a, (is_followed db user a observed_at, affinity prior a)))
        (filter (\<lambda>a. a \<in> set author_ids) (fd_users db)))"

section \<open>Semantic candidates\<close>

definition mean_vector :: "nat \<Rightarrow> real list list \<Rightarrow> real list" where
  "mean_vector n vs = map (\<lambda>i. sum_list (map (\<lambda>v. v ! i) vs) / real (length vs)) [0..<n]"

definition dot :: "real list \<Rightarrow> real list \<Rightarrow> real" where
  "dot xs ys = sum_list (map2 (*) xs ys)"

definition history_query :: "history_entry list \<Rightarrow> real list option res" where
  "history_query entries =
     bind_res (map_res (\<lambda>e. serving_embedding (he_embedding e) EMBEDDING_DIMENSION)
       (filter (\<lambda>e. he_encoder_version e = ENCODER_VERSION) entries)) (\<lambda>vectors.
       if vectors = [] then Inr None
       else let query = mean_vector EMBEDDING_DIMENSION vectors; norm = euclidean_norm query in
         Inr (if norm = 0 then None else Some (map (\<lambda>x. x / norm) query)))"

definition semantic_window :: "feed_db \<Rightarrow> serve_cfg \<Rightarrow> uuid \<Rightarrow> instant \<Rightarrow> post_record list" where
  "semantic_window db cfg user observed_at =
     take 2000 (sort_key (\<lambda>p. (- po_created_at p, po_id p))
       (filter (\<lambda>p. po_created_at p \<le> observed_at \<and> eligible db user (sc_seen_cooldown_days cfg) p) (fd_posts db)))"

definition lateral_feature :: "telemetry_db \<Rightarrow> instant \<Rightarrow> uuid \<Rightarrow> article_feature option" where
  "lateral_feature tdb observed_at post =
     (case sort_key (\<lambda>f. (- af_source_updated_at f, - af_computed_at f, - uint (af_id f)))
         (filter (\<lambda>f. af_post_id f = post \<and> af_encoder_version f = ENCODER_VERSION \<and>
            af_source_updated_at f \<le> observed_at \<and> af_computed_at f \<le> observed_at) (td_features tdb)) of
        [] \<Rightarrow> None | f # _ \<Rightarrow> Some f)"

text \<open>A row whose content has changed since, or whose embedding is unusable, is skipped.\<close>

definition semantic_candidate ::
    "pylib \<Rightarrow> unicode_lib \<Rightarrow> real list \<Rightarrow> post_record \<times> article_feature \<Rightarrow> candidate_post option res" where
  "semantic_candidate lib ul query row =
     (case row of (p, f) \<Rightarrow>
        suppress type_or_value (bind_res (content_hash lib ul (po_content p)) (\<lambda>hash.
          if af_content_hash f \<noteq> hash then Inr None
          else bind_res (serving_embedding (af_embedding f) EMBEDDING_DIMENSION) (\<lambda>vector.
            Inr (map_option (\<lambda>c. c\<lparr>cp_retrieval_score := Some (dot query vector)\<rparr>)
                   (case to_candidates ''semantic'' [p] of [] \<Rightarrow> None | c # _ \<Rightarrow> Some c))))))"

definition candidates_semantic ::
    "pylib \<Rightarrow> unicode_lib \<Rightarrow> serve_cfg \<Rightarrow> feed_db \<Rightarrow> telemetry_db \<Rightarrow> uuid \<Rightarrow> instant \<Rightarrow> candidate_post list res" where
  "candidates_semantic lib ul cfg db tdb user observed_at =
     bind_res (fetch_user_history lib cfg tdb observed_at user (Some observed_at) []) (\<lambda>(snapshot, _).
     bind_res (history_query (hs_entries snapshot)) (\<lambda>query. case query of
       None \<Rightarrow> Inr []
     | Some q \<Rightarrow>
         let rows = List.map_filter (\<lambda>p. map_option (Pair p) (lateral_feature tdb observed_at (po_id p)))
                      (semantic_window db cfg user observed_at) in
         bind_res (map_res (semantic_candidate lib ul q) rows) (\<lambda>found.
           Inr (py_prefix (sc_feed_candidate_pool cfg div 4)
             (sort_key (\<lambda>c. (- the (cp_retrieval_score c), str_uuid (cp_id c))) (List.map_filter id found))))))"

section \<open>Candidate telemetry\<close>

definition uuid_bytes :: "uuid \<Rightarrow> string" where
  "uuid_bytes u = map (\<lambda>i. char_of (unat (drop_bit (8 * (15 - i)) u) mod 256)) [0..<16]"

text \<open>The first eight bytes of the digest, as a number: its first sixteen hexadecimal digits.\<close>

definition digest_prefix :: "pylib \<Rightarrow> uuid \<Rightarrow> nat" where
  "digest_prefix lib request_id =
     (case parse_digits 16 0 False (take 16 (sha256_hex lib (uuid_bytes request_id))) of None \<Rightarrow> 0 | Some n \<Rightarrow> n)"

definition sampled :: "pylib \<Rightarrow> uuid \<Rightarrow> real \<Rightarrow> bool res" where
  "sampled lib request_id rate =
     (if \<not> (0 \<le> rate \<and> rate \<le> 1) then Inl (ValueError ''sample rate must be in [0, 1]'')
      else Inr (real (digest_prefix lib request_id) / 2 ^ 64 < rate))"

record candidate_event =
  ce_request_id :: uuid
  ce_post_id :: uuid
  ce_stage :: string
  ce_source :: string
  ce_retrieval_score :: "real option"
  ce_eligibility_reason :: string
  ce_model_version :: string
  ce_retrieval_version :: string

definition candidate_event_of :: "uuid \<Rightarrow> string \<Rightarrow> candidate_post \<Rightarrow> candidate_event" where
  "candidate_event_of request_id model_version c =
     \<lparr>ce_request_id = request_id, ce_post_id = cp_id c, ce_stage = ''eligible'', ce_source = cp_source c,
      ce_retrieval_score = cp_retrieval_score c, ce_eligibility_reason = ''passed_candidate_policy'',
      ce_model_version = model_version, ce_retrieval_version = ''hybrid-candidates-v1''\<rparr>"

definition insert_candidate_event :: "candidate_event list \<Rightarrow> candidate_event \<Rightarrow> candidate_event list" where
  "insert_candidate_event table e =
     (if list_ex (\<lambda>x. ce_request_id x = ce_request_id e \<and> ce_post_id x = ce_post_id e \<and> ce_stage x = ce_stage e) table
      then table else table @ [e])"

definition record_pool ::
    "pylib \<Rightarrow> uuid \<Rightarrow> candidate_post list \<Rightarrow> string \<Rightarrow> real \<Rightarrow> candidate_event list \<Rightarrow> candidate_event list res" where
  "record_pool lib request_id candidates model_version sample_rate table =
     (if candidates = [] then Inr table
      else bind_res (sampled lib request_id sample_rate) (\<lambda>chosen.
        Inr (if chosen then foldl insert_candidate_event table (map (candidate_event_of request_id model_version) candidates)
             else table)))"

section \<open>The context is current\<close>

lemma context_features_sound:
  assumes "dget (context_features tdb ids encoder_version observed_at) (post, hash) = Some f"
  shows "f \<in> set (td_features tdb) \<and> af_post_id f = post \<and> af_content_hash f = hash \<and>
    af_encoder_version f = encoder_version \<and> af_source_updated_at f \<le> af_computed_at f \<and> af_computed_at f \<le> observed_at"
proof -
  define good where "good d \<longleftrightarrow> (\<forall>k f. dget d k = Some f \<longrightarrow> f \<in> set (td_features tdb) \<and>
      (af_post_id f, af_content_hash f) = k \<and> af_encoder_version f = encoder_version \<and>
      af_source_updated_at f \<le> af_computed_at f \<and> af_computed_at f \<le> observed_at)" for d :: "(uuid \<times> string, article_feature) dict"
  have step: "good (add_context_feature encoder_version observed_at d g)" if "good d" "g \<in> set (td_features tdb)" for d g
    using that by (auto simp: good_def add_context_feature_def dsetdefault_def split: option.splits)
  have "good (foldl (add_context_feature encoder_version observed_at) d gs)" if "good d" "set gs \<subseteq> set (td_features tdb)" for d gs
    using that step by (induction gs arbitrary: d) simp_all
  moreover have "good []" by (simp add: good_def)
  moreover have "set (context_feature_rows tdb ids encoder_version observed_at) \<subseteq> set (td_features tdb)"
    by (auto simp: context_feature_rows_def latest_feature_first_def)
  ultimately have "good (context_features tdb ids encoder_version observed_at)" unfolding context_features_def by blast
  then show ?thesis using assms by (auto simp: good_def)
qed

lemma serving_embedding_ok:
  "serving_embedding v n = Inr w \<longleftrightarrow> w = v \<and> length v = n \<and> \<bar>euclidean_norm v - 1\<bar> \<le> 1 / 1000"
  by (auto simp: serving_embedding_def)

text \<open>What the NRMS ranker is given for one candidate.\<close>

definition fresh_record ::
    "pylib \<Rightarrow> unicode_lib \<Rightarrow> telemetry_db \<Rightarrow> instant \<Rightarrow> string \<Rightarrow> nat \<Rightarrow> candidate_post \<Rightarrow> ranker_record \<Rightarrow> bool" where
  "fresh_record lib ul tdb observed_at encoder_version dimension c r \<longleftrightarrow>
     (\<exists>n f. r = NrmsRecord n \<and> f \<in> set (td_features tdb) \<and> content_hash lib ul (cp_content c) = Inr (nr_content_hash n) \<and>
        af_post_id f = cp_id c \<and> af_content_hash f = nr_content_hash n \<and> af_encoder_version f = encoder_version \<and>
        af_computed_at f \<le> observed_at \<and> nr_embedding n = af_embedding f \<and> nr_encoder_version n = encoder_version \<and>
        length (nr_embedding n) = dimension \<and> \<bar>euclidean_norm (nr_embedding n) - 1\<bar> \<le> 1 / 1000 \<and>
        list_all (\<lambda>(_, _, v). length v = dimension \<and> \<bar>euclidean_norm v - 1\<bar> \<le> 1 / 1000) (nr_history n))"

lemma context_history_ok:
  assumes "map_res (context_history_entry lib encoder_version dimension observed_at) es = Inr history"
  shows "list_all (\<lambda>(_, _, v). length v = dimension \<and> \<bar>euclidean_norm v - 1\<bar> \<le> 1 / 1000) history"
  using map_res_memD[OF assms]
  by (fastforce simp: list_all_iff context_history_entry_def serving_embedding_ok split: if_splits)

lemma candidate_record_fresh:
  assumes "candidate_record lib ul encoder_version dimension (context_features tdb ids encoder_version observed_at) history c = Inr r"
    and "list_all (\<lambda>(_, _, v). length v = dimension \<and> \<bar>euclidean_norm v - 1\<bar> \<le> 1 / 1000) history"
  shows "fresh_record lib ul tdb observed_at encoder_version dimension c r"
proof -
  obtain hash f v where "content_hash lib ul (cp_content c) = Inr hash"
    and f: "dget (context_features tdb ids encoder_version observed_at) (cp_id c, hash) = Some f"
    and "serving_embedding (af_embedding f) dimension = Inr v"
    and "r = NrmsRecord \<lparr>nr_embedding = v, nr_content_hash = af_content_hash f, nr_encoder_version = encoder_version,
        nr_history = history\<rparr>"
    using assms(1) by (auto simp: candidate_record_def split: option.splits)
  with context_features_sound[OF f] assms(2) show ?thesis
    unfolding fresh_record_def by (intro exI[of _ "\<lparr>nr_embedding = v, nr_content_hash = af_content_hash f,
        nr_encoder_version = encoder_version, nr_history = history\<rparr>"] exI[of _ f]) (simp add: serving_embedding_ok)
qed

lemma nrms_context_fresh:
  assumes "load_nrms_records lib ul cfg tdb user candidates observed_at encoder_version dimension = Inr records"
  shows "list_all2 (fresh_record lib ul tdb observed_at encoder_version dimension) candidates records"
proof -
  let ?f = "context_features tdb (map cp_id candidates) encoder_version observed_at"
  obtain snapshot cache history where
      "fetch_user_history lib cfg tdb observed_at user (Some observed_at) [] = Inr (snapshot, cache)"
    and h: "map_res (context_history_entry lib encoder_version dimension observed_at) (enumerate 0 (hs_entries snapshot)) = Inr history"
    and r: "map_res (candidate_record lib ul encoder_version dimension ?f history) candidates = Inr records"
    using assms by (auto simp: load_nrms_records_def Let_def)
  show ?thesis
    using r unfolding map_res_Inr_iff
    by (rule list_all2_mono) (rule candidate_record_fresh[OF _ context_history_ok[OF h]])
qed

section \<open>Author affinity is a share\<close>

lemma affinity_bounds: "0 \<le> affinity prior a \<and> affinity prior a \<le> 1"
  using count_le_length[of prior a] by (simp add: affinity_def divide_le_eq)

lemma affinity_total:
  assumes "distinct authors"
  shows "sum_list (map (affinity prior) authors) \<le> 1"
proof (cases "prior = []")
  case True
  then show ?thesis by (simp add: affinity_def[abs_def])
next
  case False
  have "sum_list (map (count_list prior) authors) = (\<Sum>a\<in>set authors. count_list prior a)"
    using assms by (simp add: sum_list_distinct_conv_sum_set)
  also have "\<dots> \<le> (\<Sum>a\<in>set authors \<union> set prior. count_list prior a)" by (intro sum_mono2) auto
  also have "\<dots> = (\<Sum>a\<in>set prior. count_list prior a)"
    by (intro sum.mono_neutral_right) (auto simp: count_list_0_iff)
  also have "\<dots> = length prior" by (rule sum_count_set) simp_all
  finally have le: "sum_list (map (count_list prior) authors) \<le> length prior" .
  have "sum_list (map (affinity prior) authors) = real (sum_list (map (count_list prior) authors)) / real (length prior)"
    using False by (induction authors) (simp_all add: affinity_def add_divide_distrib)
  then show ?thesis using le False by (simp add: divide_le_eq)
qed

lemma author_context_bounds:
  assumes "dget (load_author_context lib db tdb user ids observed_at) a = Some (followed, x)"
  shows "0 \<le> x \<and> x \<le> 1"
  using map_of_SomeD[OF assms] affinity_bounds by (auto simp: load_author_context_def Let_def)

section \<open>Semantic candidates are eligible\<close>

lemma semantic_candidate_of:
  assumes "semantic_candidate lib ul q (p, f) = Inr (Some c)" "p \<in> set (semantic_window db cfg user t)"
  shows "candidate_of db user (sc_seen_cooldown_days cfg) c"
proof -
  have "cp_id c = po_id p" "cp_author_id c = po_author_id p" "cp_topics c = po_topics p" "cp_content c = po_content p"
    using assms(1) by (auto simp: semantic_candidate_def suppress_Some to_candidates_def split: if_splits)
  moreover have "p \<in> set (fd_posts db)" "eligible db user (sc_seen_cooldown_days cfg) p"
    using assms(2) by (auto simp: semantic_window_def dest: in_set_takeD)
  ultimately show ?thesis unfolding candidate_of_def by blast
qed

lemma semantic_eligible:
  assumes "candidates_semantic lib ul cfg db tdb user t = Inr cs" "c \<in> set cs"
  shows "candidate_of db user (sc_seen_cooldown_days cfg) c"
proof -
  let ?rows = "List.map_filter (\<lambda>p. map_option (Pair p) (lateral_feature tdb t (po_id p))) (semantic_window db cfg user t)"
  obtain q found where found: "map_res (semantic_candidate lib ul q) ?rows = Inr found"
    and c: "Some c \<in> set found"
    using assms by (auto simp: candidates_semantic_def Let_def List.map_filter_def[of id] simp del: bind_res_Inr
        elim!: bind_resE split: option.splits dest!: py_prefix_subset)
  obtain r where r: "r \<in> set ?rows" "semantic_candidate lib ul q r = Inr (Some c)" using map_res_memD[OF found c] by blast
  then obtain p f where "r = (p, f)" "p \<in> set (semantic_window db cfg user t)"
    by (auto simp: List.map_filter_def)
  then show ?thesis using semantic_candidate_of r(2) by blast
qed

section \<open>Sampling\<close>

text \<open>The sampling decision of a request is fixed, and a higher rate only adds requests.\<close>

lemma sampled_mono:
  assumes "sampled lib r a = Inr True" "a \<le> b" "b \<le> 1"
  shows "sampled lib r b = Inr True"
  using assms by (auto simp: sampled_def split: if_splits)

lemma sampled_never: "sampled lib r 0 = Inr False"
  by (simp add: sampled_def)

lemma parse_digits_bound:
  "parse_digits b acc p s = Some n \<Longrightarrow> 0 < b \<Longrightarrow> n < (acc + 1) * b ^ length s"
proof (induction b acc p s rule: parse_digits.induct)
  case (2 b acc after c cs)
  show ?case
  proof (cases "c = CHR ''_''")
    case True
    then have "n < (acc + 1) * b ^ length cs" using 2 by (auto split: if_splits)
    also have "\<dots> \<le> (acc + 1) * b ^ length (c # cs)"
      using 2(4) by (intro mult_left_mono power_increasing) simp_all
    finally show ?thesis .
  next
    case False
    then obtain v where v: "digit_val c = Some v" "v < b" "parse_digits b (acc * b + v) True cs = Some n"
      using 2(3) by (auto split: option.splits if_splits)
    have "n < (acc * b + v + 1) * b ^ length cs" using 2(2)[OF False v(1,2,3) 2(4)] .
    also have "\<dots> \<le> ((acc + 1) * b) * b ^ length cs" using v(2) by (intro mult_right_mono) auto
    finally show ?thesis by (simp add: algebra_simps)
  qed
qed (auto split: if_splits)

lemma sampled_always: "sampled lib r 1 = Inr True"
proof -
  have "digest_prefix lib r < 16 ^ 16"
  proof (cases "parse_digits 16 0 False (take 16 (sha256_hex lib (uuid_bytes r)))")
    case (Some n)
    then have "n < 16 ^ length (take 16 (sha256_hex lib (uuid_bytes r)))" using parse_digits_bound[OF Some] by simp
    also have "\<dots> \<le> 16 ^ 16" by (rule power_increasing) simp_all
    finally show ?thesis by (simp add: digest_prefix_def Some)
  qed (simp add: digest_prefix_def)
  then have "real (digest_prefix lib r) < 2 ^ 64" by simp
  then show ?thesis by (simp add: sampled_def)
qed

end
