(* ===== verification/RecommendFeed.thy ===== *)
theory RecommendFeed
  imports ServingContext
begin

text \<open>
  \<open>recommend_feed\<close> of \<open>recommendation_api/app/main.py\<close>: the composition of the preference vector, candidate
  retrieval, the heuristic score, the author and NRMS contexts, the model ranker, the candidate telemetry
  and the diversity re-ranking. \<open>faults\<close> says which optional calls time out or raise, and whether the
  model answers in time. The theorem is the contract of the endpoint: whatever the optional parts do, a
  request is answered, with distinct eligible posts, as many as the limit and the pool allow.
\<close>

section \<open>Requests and state\<close>

record feed_request =
  fr_limit :: int
  fr_candidate_pool :: int
  fr_exclude_post_ids :: "uuid list"

definition request_valid :: "feed_request \<Rightarrow> bool" where
  "request_valid r \<longleftrightarrow>
     1 \<le> fr_limit r \<and> fr_limit r \<le> 200 \<and> 1 \<le> fr_candidate_pool r \<and> fr_candidate_pool r \<le> 1000 \<and>
     length (fr_exclude_post_ids r) \<le> 1000"

record feed_response =
  fe_items :: "recommendation_item list"
  fe_model_version :: string

record serving_world =
  sw_feed :: feed_db
  sw_features :: feature_world
  sw_telemetry :: telemetry_db
  sw_candidate_events :: "candidate_event list"
  sw_ranker :: ranker_runtime

datatype feed_call = SemanticCall | AuthorCall | ContextCall | ScoreCall | TelemetryCall

type_synonym feed_faults = "feed_call \<Rightarrow> bool"

text \<open>\<open>try: await wait_for(call) except Exception: default\<close>\<close>

definition optional_call :: "feed_faults \<Rightarrow> feed_call \<Rightarrow> 'a \<Rightarrow> 'a res \<Rightarrow> 'a" where
  "optional_call faults c fallback_value r =
     (if faults c then fallback_value else case r of Inl e \<Rightarrow> fallback_value | Inr x \<Rightarrow> x)"

section \<open>Scoring the candidates\<close>

definition scored_candidate ::
    "unicode_lib \<Rightarrow> serve_cfg \<Rightarrow> (string, real) dict \<Rightarrow> string list \<Rightarrow> (uuid, bool \<times> real) dict \<Rightarrow> instant \<Rightarrow> uuid \<Rightarrow>
     candidate_post \<Rightarrow> recommendation_item res" where
  "scored_candidate ul cfg user_vec declared_topics author_context observed_at request_id c =
     bind_res (build_rank_feature_snapshot ul user_vec c score_weights 1 (sc_half_life_hours cfg) declared_topics observed_at) (\<lambda>f.
       let author = dget author_context (cp_author_id c);
           features = f\<lparr>fs_is_followed_author := map_option fst author, fs_author_affinity := map_option snd author,
                        fs_retrieval_request_id := Some request_id\<rparr> in
       case fs_heuristic_score features of
         None \<Rightarrow> Inl (AssertionError [])
       | Some s \<Rightarrow> Inr \<lparr>it_post_id = cp_id c, it_score = s, it_source = cp_source c,
                        it_reason = ''score='' @ cp_source c, it_features = features\<rparr>)"

text \<open>The content hash and encoder of a context record are copied into the item's snapshot.\<close>

definition with_context :: "recommendation_item \<times> ranker_record \<Rightarrow> recommendation_item" where
  "with_context ir =
     (case ir of
        (item, NrmsRecord n) \<Rightarrow>
          item\<lparr>it_features := (it_features item)\<lparr>fs_candidate_content_hash := Some (nr_content_hash n),
                                                fs_candidate_encoder_version := Some (nr_encoder_version n)\<rparr>\<rparr>
      | (item, FeatureRecord d) \<Rightarrow> item)"

definition needs_context :: "ranker_runtime \<Rightarrow> predictor option" where
  "needs_context rt =
     (case rt_predictor rt of
        Some p \<Rightarrow> if rt_mode rt \<noteq> Heuristic \<and> pr_requires_context p then Some p else None
      | None \<Rightarrow> None)"

text \<open>The context records, and whether loading them failed.\<close>

definition ranker_context ::
    "pylib \<Rightarrow> unicode_lib \<Rightarrow> serve_cfg \<Rightarrow> serving_world \<Rightarrow> feed_faults \<Rightarrow> uuid \<Rightarrow> candidate_post list \<Rightarrow> instant \<Rightarrow>
     ranker_record list option \<times> bool" where
  "ranker_context lib ul cfg w faults user candidates observed_at =
     (case needs_context (sw_ranker w) of
        None \<Rightarrow> (None, False)
      | Some p \<Rightarrow>
          (case optional_call faults ContextCall None
               (bind_res (load_nrms_records lib ul cfg (sw_telemetry w) user candidates observed_at
                  (pr_encoder_version p) (pr_dimension p)) (\<lambda>rs. Inr (Some rs))) of
             None \<Rightarrow> (None, True) | Some rs \<Rightarrow> (Some rs, False)))"

definition rank_decision ::
    "serving_world \<Rightarrow> feed_faults \<Rightarrow> ranker_record list option \<times> bool \<Rightarrow> recommendation_item list \<Rightarrow>
     ranker_runtime \<times> ranking_decision" where
  "rank_decision w faults context scored =
     (case context of (records, context_failed) \<Rightarrow>
        let items = (case records of None \<Rightarrow> scored | Some rs \<Rightarrow> map with_context (zip scored rs)) in
        if context_failed then fallback (sw_ranker w) items ''context_error''
        else score_async (sw_ranker w) items records (\<not> faults ScoreCall))"

section \<open>The endpoint\<close>

definition feed_candidates ::
    "pylib \<Rightarrow> unicode_lib \<Rightarrow> serve_cfg \<Rightarrow> serving_world \<Rightarrow> feed_faults \<Rightarrow> instant \<Rightarrow> uuid \<Rightarrow> feed_request \<Rightarrow>
     (string, real) dict \<Rightarrow> candidate_post list" where
  "feed_candidates lib ul cfg w faults now user body user_vec =
     (let semantic = (if sc_semantic_enabled cfg
            then optional_call faults SemanticCall []
              (candidates_semantic lib ul cfg (sw_feed w) (sw_telemetry w) user now)
            else []);
          pool = (if fr_candidate_pool body \<noteq> 0 then fr_candidate_pool body else sc_feed_candidate_pool cfg) in
      filter (\<lambda>c. cp_id c \<notin> set (fr_exclude_post_ids body))
        (gather_candidates (sw_feed w) user user_vec pool (sc_seen_cooldown_days cfg) (fr_exclude_post_ids body) semantic))"

definition serve_candidates ::
    "pylib \<Rightarrow> unicode_lib \<Rightarrow> serve_cfg \<Rightarrow> serving_world \<Rightarrow> feed_faults \<Rightarrow> instant \<Rightarrow> uuid \<Rightarrow> uuid \<Rightarrow> feed_request \<Rightarrow>
     (string, real) dict \<Rightarrow> candidate_post list \<Rightarrow> (serving_world \<times> feed_response) res" where
  "serve_candidates lib ul cfg w faults now request_id user body user_vec candidates =
     (let declared_topics = declared_topics_of (w_db (sw_features w)) user;
          author_context = optional_call faults AuthorCall []
            (Inr (load_author_context lib (sw_feed w) (sw_telemetry w) user (dedup (map cp_author_id candidates)) now)) in
      bind_res (map_res (scored_candidate ul cfg user_vec declared_topics author_context now request_id) candidates) (\<lambda>scored.
        let (rt, decision) = rank_decision w faults (ranker_context lib ul cfg w faults user candidates now) scored;
            table = optional_call faults TelemetryCall (sw_candidate_events w)
              (record_pool lib request_id candidates (rd_model_version decision) (sc_telemetry_sample_rate cfg)
                 (sw_candidate_events w));
            primary = map (\<lambda>c. (str_uuid (cp_id c), primary_topic c)) candidates;
            author = map (\<lambda>c. (str_uuid (cp_id c), str_uuid (cp_author_id c))) candidates in
        Inr (w\<lparr>sw_ranker := rt, sw_candidate_events := table\<rparr>,
             \<lparr>fe_items = diversity_rerank (rd_items decision) primary author (fr_limit body),
              fe_model_version = rd_model_version decision\<rparr>)))"

text \<open>The contexts are read as of \<open>later\<close>, the instant after retrieval.\<close>

definition recommend_feed ::
    "pylib \<Rightarrow> unicode_lib \<Rightarrow> serve_cfg \<Rightarrow> serving_world \<Rightarrow> feed_faults \<Rightarrow> instant \<Rightarrow> instant \<Rightarrow> uuid \<Rightarrow> uuid \<Rightarrow> feed_request \<Rightarrow>
     (serving_world \<times> feed_response) res" where
  "recommend_feed lib ul cfg w faults now later request_id user body =
     bind_res (fetch_user_vector lib cfg now user (sw_features w)) (\<lambda>user_vec.
       let candidates = feed_candidates lib ul cfg w faults now user body user_vec in
       if candidates = [] then Inr (w, \<lparr>fe_items = [], fe_model_version = HEURISTIC_MODEL_VERSION\<rparr>)
       else serve_candidates lib ul cfg w faults later request_id user body user_vec candidates)"

section \<open>The ranked items are the candidates\<close>

lemma scored_candidate_ok:
  assumes "sc_half_life_hours cfg \<noteq> 0"
  shows "\<exists>x. scored_candidate ul cfg user_vec declared author_context t rid c = Inr x \<and> it_post_id x = cp_id c"
  using assms by (simp add: scored_candidate_def build_rank_feature_snapshot_def freshness_decay_def score_weights_def Let_def)

lemma scored_candidates_ok:
  assumes "sc_half_life_hours cfg \<noteq> 0"
  shows "\<exists>xs. map_res (scored_candidate ul cfg user_vec declared author_context t rid) cs = Inr xs \<and>
    map it_post_id xs = map cp_id cs"
proof (induction cs)
  case (Cons c cs)
  then show ?case using scored_candidate_ok[OF assms, of ul user_vec declared author_context t rid c] by auto
qed simp

lemma with_context_id [simp]: "it_post_id (with_context (item, r)) = it_post_id item"
  by (cases r) (simp_all add: with_context_def)

lemma with_context_ids: "length rs = length items \<Longrightarrow> map it_post_id (map with_context (zip items rs)) = map it_post_id items"
  by (induction rs items rule: list_induct2) simp_all

lemma same_post_ids: "list_all2 same_post xs ys \<Longrightarrow> map it_post_id xs = map it_post_id ys"
  by (induction rule: list_all2_induct) (auto simp: same_post_def)

lemma decision_ids: "decision_safe rt items d \<Longrightarrow> map it_post_id (rd_items d) = map it_post_id items"
  by (simp add: decision_safe_def same_post_ids)

lemma context_length:
  assumes "ranker_context lib ul cfg w faults user cs t = (Some rs, failed)"
  shows "length rs = length cs"
proof -
  obtain p where p: "needs_context (sw_ranker w) = Some p"
    using assms by (cases "needs_context (sw_ranker w)") (auto simp: ranker_context_def)
  have "load_nrms_records lib ul cfg (sw_telemetry w) user cs t (pr_encoder_version p) (pr_dimension p) = Inr rs"
    using assms by (auto simp: ranker_context_def p optional_call_def split: option.splits sum.splits if_splits)
  then have "list_all2 (fresh_record lib ul (sw_telemetry w) t (pr_encoder_version p) (pr_dimension p)) cs rs"
    by (rule nrms_context_fresh)
  then show ?thesis by (simp add: list_all2_lengthD)
qed

lemma rank_decision_ids:
  assumes "ranker_context lib ul cfg w faults user cs t = context" "length scored = length cs"
  shows "map it_post_id (rd_items (snd (rank_decision w faults context scored))) = map it_post_id scored"
proof -
  obtain records failed where c: "context = (records, failed)" by fastforce
  define items where "items = (case records of None \<Rightarrow> scored | Some rs \<Rightarrow> map with_context (zip scored rs))"
  have "map it_post_id items = map it_post_id scored"
    using context_length[of lib ul cfg w faults user cs t] assms by (auto simp: items_def c with_context_ids simp del: map_map split: option.split)
  moreover have "map it_post_id (rd_items (snd (rank_decision w faults context scored))) = map it_post_id items"
    using decision_ids[OF fallback_safe[of _ items]] decision_ids[OF score_async_safe[of _ items]]
    by (simp add: rank_decision_def c items_def[symmetric] Let_def)
  ultimately show ?thesis by simp
qed

lemma serve_candidates_ok:
  assumes "sc_half_life_hours cfg \<noteq> 0" "distinct (map cp_id cs)"
  shows "\<exists>w' r. serve_candidates lib ul cfg w faults t rid user body user_vec cs = Inr (w', r) \<and>
    distinct (map it_post_id (fe_items r)) \<and> set (map it_post_id (fe_items r)) \<subseteq> set (map cp_id cs) \<and>
    length (fe_items r) = min (nat (fr_limit body)) (length cs)"
proof -
  let ?declared = "declared_topics_of (w_db (sw_features w)) user"
  let ?authors = "optional_call faults AuthorCall []
      (Inr (load_author_context lib (sw_feed w) (sw_telemetry w) user (dedup (map cp_author_id cs)) t))"
  obtain scored where scored: "map_res (scored_candidate ul cfg user_vec ?declared ?authors t rid) cs = Inr scored"
    and ids: "map it_post_id scored = map cp_id cs"
    using scored_candidates_ok[OF assms(1)] by blast
  obtain rt d where d: "rank_decision w faults (ranker_context lib ul cfg w faults user cs t) scored = (rt, d)" by fastforce
  have len: "length scored = length cs" using ids by (metis length_map)
  have items: "map it_post_id (rd_items d) = map cp_id cs"
    using rank_decision_ids[OF refl len, of w faults lib ul cfg user t] by (simp add: d ids)
  let ?r = "diversity_rerank (rd_items d) (map (\<lambda>c. (str_uuid (cp_id c), primary_topic c)) cs)
      (map (\<lambda>c. (str_uuid (cp_id c), str_uuid (cp_author_id c))) cs) (fr_limit body)"
  have sub: "mset ?r \<subseteq># mset (rd_items d)" and n: "length ?r = min (nat (fr_limit body)) (length (rd_items d))"
    using diversity_rerank_selects by blast+
  have "mset (map it_post_id ?r) \<subseteq># mset (map it_post_id (rd_items d))" using sub by (simp add: image_mset_subseteq_mono)
  then have m: "mset (map it_post_id ?r) \<subseteq># mset (map cp_id cs)" by (simp only: items)
  have "distinct (map it_post_id ?r)" "set (map it_post_id ?r) \<subseteq> set (map cp_id cs)"
    using mset_subset_distinct[OF m assms(2)] set_mset_mono[OF m] by (simp_all only: set_mset_mset)
  moreover have "length (rd_items d) = length cs" using items by (metis length_map)
  ultimately show ?thesis
    using n unfolding serve_candidates_def Let_def scored bind_res.simps d prod.case by auto
qed

section \<open>The contract of the endpoint\<close>

lemma feed_candidates_ok:
  assumes "distinct (map po_id (fd_posts (sw_feed w)))" "request_valid body"
  shows "distinct (map cp_id (feed_candidates lib ul cfg w faults now user body vec)) \<and>
    (\<forall>c\<in>set (feed_candidates lib ul cfg w faults now user body vec).
       candidate_of (sw_feed w) user (sc_seen_cooldown_days cfg) c \<and> cp_id c \<notin> set (fr_exclude_post_ids body)) \<and>
    min (nat (fr_candidate_pool body))
        (card (po_id ` {p \<in> set (fd_posts (sw_feed w)). eligible (sw_feed w) user (sc_seen_cooldown_days cfg) p} -
               set (fr_exclude_post_ids body))) \<le>
      length (feed_candidates lib ul cfg w faults now user body vec)"
proof -
  let ?semantic = "if sc_semantic_enabled cfg
      then optional_call faults SemanticCall [] (candidates_semantic lib ul cfg (sw_feed w) (sw_telemetry w) user now) else []"
  let ?g = "gather_candidates (sw_feed w) user vec (fr_candidate_pool body) (sc_seen_cooldown_days cfg)
      (fr_exclude_post_ids body) ?semantic"
  have semantic: "candidate_of (sw_feed w) user (sc_seen_cooldown_days cfg) c" if "c \<in> set ?semantic" for c
  proof -
    from that obtain r where "candidates_semantic lib ul cfg (sw_feed w) (sw_telemetry w) user now = Inr r" "c \<in> set r"
      by (cases "candidates_semantic lib ul cfg (sw_feed w) (sw_telemetry w) user now")
        (auto simp: optional_call_def split: if_splits)
    then show ?thesis by (rule semantic_eligible)
  qed
  note g = gather_candidates_spec[OF assms(1), of user vec "fr_candidate_pool body" "sc_seen_cooldown_days cfg"
      "fr_exclude_post_ids body" ?semantic]
  have "fr_candidate_pool body \<noteq> 0" using assms(2) by (simp add: request_valid_def)
  then have f: "feed_candidates lib ul cfg w faults now user body vec = filter (\<lambda>c. cp_id c \<notin> set (fr_exclude_post_ids body)) ?g"
    by (simp add: feed_candidates_def Let_def)
  have "filter (\<lambda>c. cp_id c \<notin> set (fr_exclude_post_ids body)) ?g = ?g" using g by (auto simp: filter_id_conv)
  then have same: "feed_candidates lib ul cfg w faults now user body vec = ?g" by (simp only: f)
  have "\<forall>c\<in>set ?g. candidate_of (sw_feed w) user (sc_seen_cooldown_days cfg) c" using g semantic by blast
  then show ?thesis unfolding same using g by blast
qed

text \<open>
  C2. Every valid feed request is answered, whatever the optional parts do (semantic retrieval, author
  context, model context, model, telemetry may each fail or time out): with distinct posts, each
  published, by an active author, not hidden, reported, recently seen or excluded, at most the limit,
  and as many as the limit, the pool and the eligible posts allow.
\<close>

theorem recommend_feed_contract:
  assumes "settings_valid cfg" "sc_half_life_hours cfg \<noteq> 0" "request_valid body"
    and "distinct (map po_id (fd_posts (sw_feed w)))"
  shows "\<exists>w' r. recommend_feed lib ul cfg w faults now later rid user body = Inr (w', r) \<and>
    distinct (map it_post_id (fe_items r)) \<and>
    list_all (\<lambda>x. it_post_id x \<notin> set (fr_exclude_post_ids body) \<and>
      list_ex (\<lambda>p. po_id p = it_post_id x \<and> eligible (sw_feed w) user (sc_seen_cooldown_days cfg) p) (fd_posts (sw_feed w)))
      (fe_items r) \<and>
    length (fe_items r) \<le> nat (fr_limit body) \<and>
    min (nat (fr_limit body)) (min (nat (fr_candidate_pool body))
        (card (po_id ` {p \<in> set (fd_posts (sw_feed w)). eligible (sw_feed w) user (sc_seen_cooldown_days cfg) p} -
               set (fr_exclude_post_ids body)))) \<le> length (fe_items r)"
proof -
  obtain vec where vec: "fetch_user_vector lib cfg now user (sw_features w) = Inr vec"
    using fetch_user_vector_ok[OF assms(1)] by blast
  define cs where "cs = feed_candidates lib ul cfg w faults now user body vec"
  note ok = feed_candidates_ok[OF assms(4,3), of lib ul cfg faults now user vec, folded cs_def]
  show ?thesis
  proof (cases "cs = []")
    case True
    then have r: "recommend_feed lib ul cfg w faults now later rid user body =
        Inr (w, \<lparr>fe_items = [], fe_model_version = HEURISTIC_MODEL_VERSION\<rparr>)"
      by (simp add: recommend_feed_def vec cs_def[symmetric] Let_def)
    show ?thesis using ok True unfolding r by simp
  next
    case False
    then have r: "recommend_feed lib ul cfg w faults now later rid user body = serve_candidates lib ul cfg w faults later rid user body vec cs"
      by (simp add: recommend_feed_def vec cs_def[symmetric] Let_def)
    obtain w' f where f: "serve_candidates lib ul cfg w faults later rid user body vec cs = Inr (w', f)"
      "distinct (map it_post_id (fe_items f))" "set (map it_post_id (fe_items f)) \<subseteq> set (map cp_id cs)"
      "length (fe_items f) = min (nat (fr_limit body)) (length cs)"
      using serve_candidates_ok[OF assms(2), of cs] ok by blast
    have "it_post_id x \<notin> set (fr_exclude_post_ids body) \<and>
        list_ex (\<lambda>p. po_id p = it_post_id x \<and> eligible (sw_feed w) user (sc_seen_cooldown_days cfg) p) (fd_posts (sw_feed w))"
      if "x \<in> set (fe_items f)" for x
    proof -
      from that have "it_post_id x \<in> set (map it_post_id (fe_items f))" by simp
      then have "it_post_id x \<in> cp_id ` set cs" using f(3) by (metis set_map subsetD)
      then obtain c where "c \<in> set cs" "it_post_id x = cp_id c" by (rule imageE)
      then have "candidate_of (sw_feed w) user (sc_seen_cooldown_days cfg) c" "cp_id c \<notin> set (fr_exclude_post_ids body)"
        using ok by blast+
      then show ?thesis using \<open>it_post_id x = cp_id c\<close> unfolding candidate_of_def list_ex_iff by metis
    qed
    then show ?thesis using f(2,4) ok unfolding r f(1) by (auto simp: list_all_iff)
  qed
qed

definition demo_request :: feed_request where
  "demo_request = \<lparr>fr_limit = 1, fr_candidate_pool = 300, fr_exclude_post_ids = [1]\<rparr>"

definition demo_serving :: serving_world where
  "demo_serving = \<lparr>sw_feed = demo_feed, sw_features = demo_world, sw_telemetry = demo_telemetry, sw_candidate_events = [],
     sw_ranker = demo_runtime\<rparr>"

theorem recommend_feed_contract_witness:
  "\<exists>w' r. recommend_feed clock_lib ascii_lib demo_serve demo_serving (\<lambda>_. True) 100 101 1 7 demo_request = Inr (w', r) \<and>
     length (fe_items r) = 1 \<and> it_post_id (hd (fe_items r)) = 2"
proof -
  have feed: "sw_feed demo_serving = demo_feed" "distinct (map po_id (fd_posts demo_feed))"
    by (simp_all add: demo_serving_def)
  have cfg: "sc_half_life_hours demo_serve \<noteq> 0" "sc_seen_cooldown_days demo_serve = 7" "request_valid demo_request"
    by (simp_all add: demo_serve_def request_valid_def demo_request_def)
  have "{p \<in> set (fd_posts demo_feed). eligible demo_feed 7 7 p} = {demo_post 1 10, demo_post 2 20}"
    using demo_feed_eligible[of 1 10] demo_feed_eligible[of 2 20] demo_feed_eligible[of 3 30] by auto
  then have ids: "card (po_id ` {p \<in> set (fd_posts demo_feed). eligible demo_feed 7 7 p} - {1}) = 1" by simp
  have limits: "fr_limit demo_request = 1" "fr_candidate_pool demo_request = 300" "fr_exclude_post_ids demo_request = [1]"
    by (simp_all add: demo_request_def)
  obtain w' r where r: "recommend_feed clock_lib ascii_lib demo_serve demo_serving (\<lambda>_. True) 100 101 1 7 demo_request = Inr (w', r)"
    "list_all (\<lambda>x. it_post_id x \<notin> {1} \<and> list_ex (\<lambda>p. po_id p = it_post_id x \<and> eligible demo_feed 7 7 p) (fd_posts demo_feed)) (fe_items r)"
    "length (fe_items r) \<le> 1" "1 \<le> length (fe_items r)"
    using recommend_feed_contract[OF demo_serve_valid cfg(1,3), of demo_serving clock_lib ascii_lib "\<lambda>_. True" 100 101 1 7, unfolded feed(1) limits cfg(2) list.set ids, OF feed(2)]
    by auto
  then obtain x where x: "fe_items r = [x]" by (cases "fe_items r") auto
  then have "it_post_id x = 2" using r(2) demo_feed_eligible[of 3 30] by auto
  then show ?thesis using r(1) x by simp
qed

end
