(* ===== verification/ReleaseGate.thy ===== *)
theory ReleaseGate
  imports DatasetSchemas
begin

text \<open>
  \<open>ai_pipeline/release_gate.py\<close>: the fail-closed decision on releasing a model, from the offline
  comparison report and the operational evidence, both JSON values. Every check adds messages to the
  missing evidence or to the failures. The theorem states the requirements declaratively, as lookups of
  paths in the two documents, and shows that the gate approves exactly when all of them hold. One
  evaluation reads the clock once.
\<close>

section \<open>JSON access\<close>

text \<open>A chain of \<open>.get(k, {})\<close> that ends in \<open>.get(k)\<close>.\<close>

fun get_path :: "pyval \<Rightarrow> string list \<Rightarrow> pyval res" where
  "get_path v [] = Inr v"
| "get_path v [k] = py_get v k VNone"
| "get_path v (k # ks) = bind_res (py_get v k (VMap [])) (\<lambda>w. get_path w ks)"

section \<open>Checks\<close>

definition METRICS :: "string list" where
  "METRICS = [''impression_auc'', ''mrr'', ''ndcg_at_5'', ''ndcg_at_10'']"

definition REQUIRED_SEGMENTS :: "(string \<times> string) list" where
  "REQUIRED_SEGMENTS = [(''user_tenure'', ''new''), (''article_tenure'', ''new''), (''language'', ''vi'')]"

text \<open>The messages a check adds: missing evidence, and failures.\<close>

type_synonym findings = "string list \<times> string list"

fun both :: "findings \<Rightarrow> findings \<Rightarrow> findings" where
  "both (m, f) (m', f') = (m @ m', f @ f')"

fun gather :: "findings res list \<Rightarrow> findings res" where
  "gather [] = Inr ([], [])"
| "gather (c # cs) = bind_res c (\<lambda>x. bind_res (gather cs) (\<lambda>y. Inr (both x y)))"

definition missing_if :: "bool \<Rightarrow> string \<Rightarrow> findings" where
  "missing_if b m = (if b then [m] else [], [])"

fun key_type_or_value :: "py_error \<Rightarrow> bool" where
  "key_type_or_value (KeyError _) = True"
| "key_type_or_value (TypeError _) = True"
| "key_type_or_value (ValueError _) = True"
| "key_type_or_value _ = False"

text \<open>\<open>try: body except (KeyError, TypeError, ValueError): handler\<close>\<close>

definition except_bad_value :: "'a res \<Rightarrow> 'a \<Rightarrow> 'a res" where
  "except_bad_value body handler =
     (case body of Inl e \<Rightarrow> if key_type_or_value e then Inr handler else Inl e | Inr x \<Rightarrow> Inr x)"

definition time_at :: "pylib \<Rightarrow> pyval \<Rightarrow> string \<Rightarrow> instant res" where
  "time_at lib v k = bind_res (vsub v k) (parse_datetime lib)"

definition in_range :: "real \<Rightarrow> pyval \<Rightarrow> bool" where
  "in_range maximum v = (case as_number v of None \<Rightarrow> False | Some x \<Rightarrow> 0 \<le> x \<and> x \<le> maximum)"

fun at_least :: "int \<Rightarrow> pyval \<Rightarrow> bool" where
  "at_least n (VInt i) = (n \<le> i)"
| "at_least n _ = False"

definition WINDOW_BOUNDS :: "(string \<times> real) list" where
  "WINDOW_BOUNDS = [(''p95_ms'', 500), (''fallback_rate'', 1 / 100), (''error_rate'', 1 / 1000)]"

definition short_window :: "pylib \<Rightarrow> instant \<Rightarrow> pyval \<Rightarrow> int \<Rightarrow> bool res" where
  "short_window lib now window minimum_hours =
     except_bad_value
       (bind_res (time_at lib window ''started_at'') (\<lambda>start.
        bind_res (time_at lib window ''ended_at'') (\<lambda>end_at.
          Inr (end_at - start < hours_us minimum_hours \<or> end_at > now)))) True"

definition check_window :: "pylib \<Rightarrow> instant \<Rightarrow> pyval \<Rightarrow> int \<Rightarrow> int \<Rightarrow> bool \<Rightarrow> string list res" where
  "check_window lib now window minimum_hours minimum_requests shadow =
     bind_res (short_window lib now window minimum_hours) (\<lambda>short.
     bind_res (py_get window ''requests'' VNone) (\<lambda>requests.
     bind_res (map_res (\<lambda>(name, maximum). bind_res (py_get window name VNone) (\<lambda>v.
         Inr (if in_range maximum v then [] else [name]))) WINDOW_BOUNDS) (\<lambda>bounds.
     bind_res (py_get window ''order_changes'' VNone) (\<lambda>changes.
       Inr ((if short then [''observation_window''] else []) @
            (if at_least minimum_requests requests then [] else [''request_count'']) @
            concat bounds @
            (if shadow \<and> changes \<noteq> VInt 0 then [''shadow_order_changes''] else []))))))"

definition is_sha256 :: "string \<Rightarrow> bool" where
  "is_sha256 s \<longleftrightarrow> length s = 64 \<and> list_all (\<lambda>c. c \<in> set ''abcdef0123456789'') s"

definition trace_key :: "pyval \<Rightarrow> string \<Rightarrow> bool res" where
  "trace_key trace k =
     bind_res (vsub trace k) (\<lambda>v. case v of VStr s \<Rightarrow> Inr (is_sha256 s)
       | _ \<Rightarrow> Inl (TypeError ''expected string or bytes-like object''))"

text \<open>\<open>all\<close> over fallible conditions, stopping at the first that is false.\<close>

fun and_res :: "bool res list \<Rightarrow> bool res" where
  "and_res [] = Inr True"
| "and_res (c # cs) = bind_res c (\<lambda>b. if b then and_res cs else Inr False)"

fun trace_times_ordered :: "instant \<Rightarrow> instant list \<Rightarrow> bool" where
  "trace_times_ordered now [served, visible, click, dwell, history, scored] =
     (served \<le> visible \<and> visible \<le> click \<and> click \<le> dwell \<and> dwell < history \<and> history \<le> scored \<and> scored \<le> now)"
| "trace_times_ordered now _ = False"

definition TRACE_KEYS :: "string list" where
  "TRACE_KEYS = [''request_group'', ''candidate_group'', ''dataset_sample_id'']"

definition TRACE_TIMES :: "string list" where
  "TRACE_TIMES = [''served_at'', ''visible_at'', ''click_at'', ''dwell_at'', ''history_reference_at'', ''shadow_scored_at'']"

definition TRACE_VERSIONS :: "(string \<times> string) list" where
  "TRACE_VERSIONS = [(''feature_schema_version'', ''rank-features-v2''), (''history_schema_version'', ''user-history-snapshot-v1''),
     (''dataset_schema_version'', ''recommendation-dataset-v2'')]"

definition trace_checks :: "pylib \<Rightarrow> instant \<Rightarrow> pyval \<Rightarrow> bool res" where
  "trace_checks lib now trace =
     bind_res (and_res (map (trace_key trace) TRACE_KEYS)) (\<lambda>keys.
     if \<not> keys then Inr False
     else bind_res (map_res (time_at lib trace) TRACE_TIMES) (\<lambda>times.
       if \<not> trace_times_ordered now times then Inr False
       else and_res (map (\<lambda>(k, version). bind_res (vsub trace k) (\<lambda>v. Inr (v = VStr version))) TRACE_VERSIONS @
              [bind_res (vsub trace ''dwell_ms'') (\<lambda>v. Inr (at_least 10000 v)),
               bind_res (vsub trace ''model_version'') (\<lambda>v. Inr (truthy v))])))"

definition trace_valid :: "pylib \<Rightarrow> instant \<Rightarrow> pyval \<Rightarrow> bool res" where
  "trace_valid lib now trace = except_bad_value (trace_checks lib now trace) False"

text \<open>A confidence interval: an absent one or one that straddles the margin is missing evidence, one below it a failure.\<close>

definition interval_of :: "pyval \<Rightarrow> (real \<times> real) option" where
  "interval_of v =
     (case v of VList [a, b] \<Rightarrow> (case (as_number a, as_number b) of (Some lo, Some hi) \<Rightarrow> Some (lo, hi) | _ \<Rightarrow> None)
      | _ \<Rightarrow> None)"

definition MARGIN :: real where "MARGIN = - 1 / 100"

definition interval_check :: "string \<Rightarrow> pyval \<Rightarrow> findings" where
  "interval_check prefix v =
     (case interval_of v of
        None \<Rightarrow> ([prefix @ '':confidence_interval''], [])
      | Some (lo, hi) \<Rightarrow>
          if hi < MARGIN then ([], [prefix @ '':regression''])
          else if lo < MARGIN then ([prefix @ '':uncertain_no_regression''], []) else ([], []))"

definition interval_checks :: "pyval \<Rightarrow> string \<Rightarrow> string list \<Rightarrow> findings res list" where
  "interval_checks v prefix baselines =
     concat (map (\<lambda>name. map (\<lambda>metric.
         bind_res (get_path v [''comparisons'', name, metric, ''ci95''])
           (\<lambda>ci. Inr (interval_check (prefix @ name @ '':'' @ metric) ci))) METRICS) baselines)"

definition comparison_checks :: "pyval \<Rightarrow> findings res list" where
  "comparison_checks report = interval_checks report [] [''pure_vs_logged_position'', ''pure_vs_logistic'']"

definition segment_of :: "pyval \<Rightarrow> string \<Rightarrow> string \<Rightarrow> pyval res" where
  "segment_of report name bucket =
     bind_res (py_get report ''segments'' (VMap [])) (\<lambda>a.
     bind_res (py_get a name (VMap [])) (\<lambda>b. py_get b bucket (VMap [])))"

definition small_segment :: "pyval \<Rightarrow> bool res" where
  "small_segment segment =
     bind_res (and_res (map (\<lambda>k. bind_res (py_get segment k VNone) (\<lambda>v. Inr (at_least 100 v)))
         [''requests'', ''impression_auc_eligible_requests''])) (\<lambda>enough. Inr (\<not> enough))"

definition segment_check :: "pyval \<Rightarrow> string \<times> string \<Rightarrow> findings res" where
  "segment_check report nb =
     (case nb of (name, bucket) \<Rightarrow>
        bind_res (segment_of report name bucket) (\<lambda>segment.
          gather
            (bind_res (small_segment segment) (\<lambda>small.
               Inr (missing_if small (name @ '':'' @ bucket @ '':minimum_100_requests''))) #
             interval_checks segment (name @ '':'' @ bucket @ '':'') [''logged_position'', ''logistic''])))"

text \<open>The metrics that must not fall, and the one that must not rise, by more than two points.\<close>

definition GUARDRAILS :: "(string \<times> bool) list" where
  "GUARDRAILS = [(''coverage_at_k'', True), (''embedding_diversity_at_k'', True), (''strong_negative_rate_at_k'', False)]"

definition guardrail_check :: "pyval \<Rightarrow> string \<Rightarrow> string \<times> bool \<Rightarrow> findings res" where
  "guardrail_check models model mh =
     (case mh of (metric, higher) \<Rightarrow>
        bind_res (get_path models [model, metric]) (\<lambda>v.
        bind_res (get_path models [''logged_position_baseline'', metric]) (\<lambda>b.
          Inr (case (as_number v, as_number b) of
                 (Some value, Some baseline) \<Rightarrow>
                   if (if higher then baseline - value else value - baseline) > 2 / 100
                   then ([], [model @ '':'' @ metric @ '':guardrail_regression'']) else ([], [])
               | _ \<Rightarrow> ([model @ '':'' @ metric], [])))))"

definition guardrail_checks :: "pyval \<Rightarrow> findings res" where
  "guardrail_checks report =
     bind_res (py_get report ''models'' (VMap [])) (\<lambda>models.
       gather (concat (map (\<lambda>model. map (guardrail_check models model) GUARDRAILS) [''pure_model'', ''post_policy''])))"

text \<open>\<open>value != sha or not sha\<close>, with an absent or empty digest never bound.\<close>

definition bound_to :: "pyval \<Rightarrow> string option \<Rightarrow> bool" where
  "bound_to v sha = (case sha of None \<Rightarrow> False | Some s \<Rightarrow> s \<noteq> [] \<and> v = VStr s)"

definition rollout_check :: "pylib \<Rightarrow> instant \<Rightarrow> pyval \<Rightarrow> string option \<Rightarrow> string \<times> int \<times> int \<Rightarrow> findings res" where
  "rollout_check lib now evidence model_sha nhc =
     (case nhc of (name, hours, requests) \<Rightarrow>
        bind_res (get_path evidence [name, ''model_sha256'']) (\<lambda>sha.
        bind_res (py_get evidence name (VMap [])) (\<lambda>window.
        bind_res (check_window lib now window hours requests (name = ''shadow'')) (\<lambda>reasons.
          Inr (both (missing_if (\<not> bound_to sha model_sha) (name @ '':model_evidence_binding''))
                 (map (\<lambda>r. name @ '':'' @ r) reasons, []))))))"

definition ROLLOUTS :: "(string \<times> int \<times> int) list" where
  "ROLLOUTS = [(''shadow'', 48, 10000), (''canary'', 24, 5000)]"

definition chronology_check :: "pylib \<Rightarrow> pyval \<Rightarrow> findings res" where
  "chronology_check lib evidence =
     except_bad_value
       (bind_res (bind_res (vsub evidence ''canary'') (\<lambda>c. time_at lib c ''started_at'')) (\<lambda>started.
        bind_res (bind_res (vsub evidence ''shadow'') (\<lambda>s. time_at lib s ''ended_at'')) (\<lambda>ended.
          Inr (missing_if (started < ended) ''canary_must_follow_shadow''))))
       ([''shadow_canary_chronology''], [])"

definition traffic_check :: "pyval \<Rightarrow> findings res" where
  "traffic_check evidence =
     bind_res (get_path evidence [''canary'', ''traffic_percent'']) (\<lambda>v.
       Inr (missing_if (case as_number v of None \<Rightarrow> True | Some x \<Rightarrow> \<not> (0 < x \<and> x \<le> 5)) ''bounded_canary_traffic''))"

section \<open>The gate\<close>

definition provenance_checks :: "pyval \<Rightarrow> pyval \<Rightarrow> string option \<Rightarrow> findings res list" where
  "provenance_checks report evidence model_sha =
     [bind_res (py_get evidence ''evidence_schema_version'' VNone) (\<lambda>v.
        Inr (missing_if (v \<noteq> VStr ''recommendation-release-evidence-v1'') ''versioned_release_evidence'')),
      bind_res (py_get evidence ''environment'' VNone) (\<lambda>e.
        if e \<noteq> VStr ''production'' then Inr (missing_if True ''production_domain_holdout'')
        else bind_res (get_path evidence [''dataset'', ''source_format'']) (\<lambda>v.
          Inr (missing_if (v \<noteq> VStr ''oecophylla-telemetry-v2'') ''production_domain_holdout''))),
      bind_res (get_path report [''data_provenance'', ''source_formats'']) (\<lambda>v.
        Inr (missing_if (v \<noteq> VList [VStr ''oecophylla-telemetry-v2'']) ''comparison_production_provenance'')),
      bind_res (get_path report [''data_provenance'', ''dataset_sha256'']) (\<lambda>v.
        if \<not> truthy v then Inr (missing_if True ''dataset_evidence_binding'')
        else bind_res (get_path evidence [''dataset'', ''sha256'']) (\<lambda>w.
          Inr (missing_if (\<not> py_eq v w) ''dataset_evidence_binding''))),
      bind_res (get_path report [''data_provenance'', ''model_sha256'']) (\<lambda>v.
        Inr (missing_if (\<not> bound_to v model_sha) ''comparison_model_binding''))]"

definition DATASET_REVIEWS :: "string list" where
  "DATASET_REVIEWS = [''privacy_review_passed'', ''temporal_audit_passed'', ''serving_policy_parity_passed'']"

definition sample_checks :: "pyval \<Rightarrow> pyval \<Rightarrow> findings res list" where
  "sample_checks report evidence =
     map (\<lambda>field. bind_res (get_path evidence [''dataset'', field]) (\<lambda>v. Inr (missing_if (v \<noteq> VBool True) field)))
       DATASET_REVIEWS @
     [bind_res (get_path report [''sample'', ''requests'']) (\<lambda>v.
        Inr (missing_if (\<not> at_least 1000 v) ''minimum_1000_test_requests''))]"

definition rollback_check :: "pyval \<Rightarrow> string option \<Rightarrow> findings res" where
  "rollback_check evidence model_sha =
     bind_res (get_path evidence [''rollback'', ''heuristic_passed'']) (\<lambda>v.
       if v \<noteq> VBool True then Inr (missing_if True ''rollback_rehearsal'')
       else bind_res (get_path evidence [''rollback'', ''model_sha256'']) (\<lambda>w.
         Inr (missing_if (w \<noteq> opt_val VStr model_sha) ''rollback_rehearsal'')))"

definition binding_checks :: "pyval \<Rightarrow> string option \<Rightarrow> string option \<Rightarrow> findings res list" where
  "binding_checks evidence comparison_sha model_sha =
     map (\<lambda>(name, expected). bind_res (py_get evidence name VNone) (\<lambda>v.
         Inr (missing_if (\<not> bound_to v expected) (name @ '':evidence_binding''))))
       [(''comparison_sha256'', comparison_sha), (''model_sha256'', model_sha)]"

definition release_checks ::
    "pylib \<Rightarrow> instant \<Rightarrow> pyval \<Rightarrow> pyval \<Rightarrow> string option \<Rightarrow> string option \<Rightarrow> findings res list" where
  "release_checks lib now report evidence comparison_sha model_sha =
     provenance_checks report evidence model_sha @ sample_checks report evidence @ comparison_checks report @
     map (segment_check report) REQUIRED_SEGMENTS @ [guardrail_checks report] @
     map (rollout_check lib now evidence model_sha) ROLLOUTS @
     [chronology_check lib evidence, traffic_check evidence,
      bind_res (py_get evidence ''trace'' (VMap [])) (\<lambda>t. bind_res (trace_valid lib now t) (\<lambda>ok.
        Inr (missing_if (\<not> ok) ''served_behavior_dataset_history_shadow_trace''))),
      rollback_check evidence model_sha] @
     binding_checks evidence comparison_sha model_sha"

record release_result =
  rl_release_schema_version :: string
  rl_decision :: string
  rl_approved :: bool
  rl_missing_evidence :: "string list"
  rl_failures :: "string list"
  rl_comparison_sha256 :: "string option"
  rl_model_sha256 :: "string option"

definition headline_lower :: "pyval \<Rightarrow> real option" where
  "headline_lower report =
     (case get_path report [''comparisons'', ''pure_vs_logged_position'', ''ndcg_at_10'', ''ci95''] of
        Inr v \<Rightarrow> map_option fst (interval_of v) | Inl _ \<Rightarrow> None)"

definition release_decision :: "pyval \<Rightarrow> findings \<Rightarrow> string" where
  "release_decision report mf =
     (case mf of (missing, failures) \<Rightarrow>
        if failures \<noteq> [] then ''FAIL''
        else if missing \<noteq> [] then ''INCONCLUSIVE''
        else (case headline_lower report of Some lo \<Rightarrow> if lo > 0 then ''WIN'' else ''NO_REGRESSION'' | None \<Rightarrow> ''NO_REGRESSION''))"

definition evaluate_release ::
    "pylib \<Rightarrow> instant \<Rightarrow> pyval \<Rightarrow> pyval \<Rightarrow> string option \<Rightarrow> string option \<Rightarrow> release_result res" where
  "evaluate_release lib now report evidence comparison_sha model_sha =
     (let evidence = py_or evidence (VMap []) in
      bind_res (gather (release_checks lib now report evidence comparison_sha model_sha)) (\<lambda>mf.
        let decision = release_decision report mf in
        Inr \<lparr>rl_release_schema_version = ''recommendation-release-gate-v1'', rl_decision = decision, rl_approved = (decision \<in> {''WIN'', ''NO_REGRESSION''}),
             rl_missing_evidence = sorted_list_of_set (set (fst mf)),
             rl_failures = sorted_list_of_set (set (snd mf)),
             rl_comparison_sha256 = comparison_sha, rl_model_sha256 = model_sha\<rparr>))"

section \<open>What the gate requires\<close>

text \<open>The value a path of keys leads to, \<open>VNone\<close> when there is none.\<close>

fun path :: "pyval \<Rightarrow> string list \<Rightarrow> pyval" where
  "path v [] = v"
| "path v (k # ks) = (case v of VMap m \<Rightarrow> (case map_of m k of None \<Rightarrow> VNone | Some w \<Rightarrow> path w ks) | _ \<Rightarrow> VNone)"

definition instant_at :: "pylib \<Rightarrow> pyval \<Rightarrow> instant option" where
  "instant_at lib v = (case parse_datetime lib v of Inr t \<Rightarrow> Some t | Inl _ \<Rightarrow> None)"

definition no_regression :: "pyval \<Rightarrow> bool" where
  "no_regression v \<longleftrightarrow> (\<exists>lo hi. interval_of v = Some (lo, hi) \<and> MARGIN \<le> lo \<and> MARGIN \<le> hi)"

definition digest_bound :: "pyval \<Rightarrow> string option \<Rightarrow> bool" where
  "digest_bound v sha \<longleftrightarrow> (\<exists>s. s \<noteq> [] \<and> sha = Some s \<and> v = VStr s)"

definition provenance_ok :: "pyval \<Rightarrow> pyval \<Rightarrow> string option \<Rightarrow> string option \<Rightarrow> bool" where
  "provenance_ok report evidence comparison_sha model_sha \<longleftrightarrow>
     path evidence [''evidence_schema_version''] = VStr ''recommendation-release-evidence-v1'' \<and>
     path evidence [''environment''] = VStr ''production'' \<and>
     path evidence [''dataset'', ''source_format''] = VStr ''oecophylla-telemetry-v2'' \<and>
     path report [''data_provenance'', ''source_formats''] = VList [VStr ''oecophylla-telemetry-v2''] \<and>
     truthy (path report [''data_provenance'', ''dataset_sha256'']) \<and>
     py_eq (path report [''data_provenance'', ''dataset_sha256'']) (path evidence [''dataset'', ''sha256'']) \<and>
     digest_bound (path report [''data_provenance'', ''model_sha256'']) model_sha \<and>
     digest_bound (path evidence [''comparison_sha256'']) comparison_sha \<and>
     digest_bound (path evidence [''model_sha256'']) model_sha \<and>
     (\<forall>field\<in>set DATASET_REVIEWS. path evidence [''dataset'', field] = VBool True)"

definition offline_ok :: "pyval \<Rightarrow> bool" where
  "offline_ok report \<longleftrightarrow>
     at_least 1000 (path report [''sample'', ''requests'']) \<and>
     (\<forall>name\<in>{''pure_vs_logged_position'', ''pure_vs_logistic''}. \<forall>metric\<in>set METRICS.
        no_regression (path report [''comparisons'', name, metric, ''ci95'']))"

definition segment_ok :: "pyval \<Rightarrow> string \<times> string \<Rightarrow> bool" where
  "segment_ok report nb \<longleftrightarrow>
     (let seg = (\<lambda>ks. path report ([''segments'', fst nb, snd nb] @ ks)) in
      at_least 100 (seg [''requests'']) \<and> at_least 100 (seg [''impression_auc_eligible_requests'']) \<and>
      (\<forall>baseline\<in>{''logged_position'', ''logistic''}. \<forall>metric\<in>set METRICS.
         no_regression (seg [''comparisons'', baseline, metric, ''ci95''])))"

definition guardrail_ok :: "pyval \<Rightarrow> string \<Rightarrow> string \<times> bool \<Rightarrow> bool" where
  "guardrail_ok report model mh \<longleftrightarrow>
     (\<exists>value baseline. as_number (path report [''models'', model, fst mh]) = Some value \<and>
        as_number (path report [''models'', ''logged_position_baseline'', fst mh]) = Some baseline \<and>
        (if snd mh then baseline - 2 / 100 \<le> value else value \<le> baseline + 2 / 100))"

definition rollout_ok :: "pylib \<Rightarrow> instant \<Rightarrow> pyval \<Rightarrow> string option \<Rightarrow> string \<times> int \<times> int \<Rightarrow> bool" where
  "rollout_ok lib now evidence model_sha nhc \<longleftrightarrow>
     (case nhc of (name, hours, requests) \<Rightarrow>
        digest_bound (path evidence [name, ''model_sha256'']) model_sha \<and>
        (\<exists>start end_at. instant_at lib (path evidence [name, ''started_at'']) = Some start \<and>
           instant_at lib (path evidence [name, ''ended_at'']) = Some end_at \<and>
           start + hours_us hours \<le> end_at \<and> end_at \<le> now) \<and>
        at_least requests (path evidence [name, ''requests'']) \<and>
        (\<forall>(field, maximum)\<in>set WINDOW_BOUNDS. in_range maximum (path evidence [name, field])) \<and>
        (name = ''shadow'' \<longrightarrow> path evidence [name, ''order_changes''] = VInt 0))"

definition canary_ok :: "pylib \<Rightarrow> pyval \<Rightarrow> bool" where
  "canary_ok lib evidence \<longleftrightarrow>
     (\<exists>ended started x. instant_at lib (path evidence [''shadow'', ''ended_at'']) = Some ended \<and>
        instant_at lib (path evidence [''canary'', ''started_at'']) = Some started \<and> ended \<le> started \<and>
        as_number (path evidence [''canary'', ''traffic_percent'']) = Some x \<and> 0 < x \<and> x \<le> 5)"

definition trace_ok :: "pylib \<Rightarrow> instant \<Rightarrow> pyval \<Rightarrow> bool" where
  "trace_ok lib now evidence \<longleftrightarrow>
     (\<forall>k\<in>set TRACE_KEYS. \<exists>s. path evidence [''trace'', k] = VStr s \<and> is_sha256 s) \<and>
     (\<exists>served visible click dwell history scored.
        map (\<lambda>k. instant_at lib (path evidence [''trace'', k])) TRACE_TIMES =
          map Some [served, visible, click, dwell, history, scored] \<and>
        served \<le> visible \<and> visible \<le> click \<and> click \<le> dwell \<and> dwell < history \<and> history \<le> scored \<and> scored \<le> now) \<and>
     (\<forall>(k, version)\<in>set TRACE_VERSIONS. path evidence [''trace'', k] = VStr version) \<and>
     at_least 10000 (path evidence [''trace'', ''dwell_ms'']) \<and> truthy (path evidence [''trace'', ''model_version''])"

definition rollback_ok :: "pyval \<Rightarrow> string option \<Rightarrow> bool" where
  "rollback_ok evidence model_sha \<longleftrightarrow>
     path evidence [''rollback'', ''heuristic_passed''] = VBool True \<and>
     path evidence [''rollback'', ''model_sha256''] = opt_val VStr model_sha"

definition release_justified ::
    "pylib \<Rightarrow> instant \<Rightarrow> pyval \<Rightarrow> pyval \<Rightarrow> string option \<Rightarrow> string option \<Rightarrow> bool" where
  "release_justified lib now report evidence comparison_sha model_sha \<longleftrightarrow>
     provenance_ok report evidence comparison_sha model_sha \<and> offline_ok report \<and>
     (\<forall>nb\<in>set REQUIRED_SEGMENTS. segment_ok report nb) \<and>
     (\<forall>model\<in>{''pure_model'', ''post_policy''}. \<forall>mh\<in>set GUARDRAILS. guardrail_ok report model mh) \<and>
     (\<forall>nhc\<in>set ROLLOUTS. rollout_ok lib now evidence model_sha nhc) \<and> canary_ok lib evidence \<and>
     trace_ok lib now evidence \<and> rollback_ok evidence model_sha"

section \<open>Lookups and paths\<close>

lemma bound_to_iff: "bound_to v sha = digest_bound v sha"
  by (auto simp: bound_to_def digest_bound_def split: option.splits)

lemma trace_times_ordered_iff:
  "(\<exists>times. f = map Some times \<and> trace_times_ordered now times) \<longleftrightarrow>
   (\<exists>served visible click dwell history scored. f = map Some [served, visible, click, dwell, history, scored] \<and>
      served \<le> visible \<and> visible \<le> click \<and> click \<le> dwell \<and> dwell < history \<and> history \<le> scored \<and> scored \<le> now)"
  (is "?l = ?r")
proof
  assume ?l
  then obtain times where t: "f = map Some times" "trace_times_ordered now times" by blast
  from t(2) obtain a b c d e g where "times = [a, b, c, d, e, g]"
    "a \<le> b \<and> b \<le> c \<and> c \<le> d \<and> d < e \<and> e \<le> g \<and> g \<le> now"
    by (rule trace_times_ordered.elims(2)) blast
  with t(1) show ?r by blast
next
  assume ?r
  then obtain a b c d e g where t: "f = map Some [a, b, c, d, e, g]"
    "a \<le> b \<and> b \<le> c \<and> c \<le> d \<and> d < e \<and> e \<le> g \<and> g \<le> now" by blast
  then have "trace_times_ordered now [a, b, c, d, e, g]" by simp
  with t(1) show ?l by blast
qed

lemma py_get_leaf: "py_get v k VNone = Inr w \<Longrightarrow> w = path v [k]"
  by (auto simp: py_get_def split: pyval.splits option.splits)

lemma path_VNone [simp]: "path VNone ks = VNone"
  by (cases ks) simp_all

lemma path_path: "path (path v ks) ks' = path v (ks @ ks')"
  by (induction ks arbitrary: v) (auto split: pyval.splits option.splits)

lemma path_empty: "ks \<noteq> [] \<Longrightarrow> path (VMap []) ks = VNone"
  by (cases ks) simp_all

lemma py_get_node: "py_get v k (VMap []) = Inr w \<Longrightarrow> ks \<noteq> [] \<Longrightarrow> path w ks = path v (k # ks)"
  by (auto simp: py_get_def path_empty split: pyval.splits option.splits)

lemma get_path_value: "get_path v ks = Inr w \<Longrightarrow> w = path v ks"
proof (induction v ks arbitrary: w rule: get_path.induct)
  case (2 v k)
  then show ?case by (simp only: get_path.simps py_get_leaf)
next
  case (3 v k k' ks)
  then obtain u where u: "py_get v k (VMap []) = Inr u" "get_path u (k' # ks) = Inr w" by auto
  then show ?case using 3(1)[OF u] py_get_node[OF u(1), of "k' # ks"] by simp
qed simp

lemma vsub_value: "vsub v k = Inr w \<Longrightarrow> w = path v [k]"
  by (auto simp: vsub_def vitem_def split: pyval.splits option.splits)

lemma vsub_errors: "raises_only key_type_or_value (vsub v k)"
  by (auto simp: vsub_def vitem_def split: pyval.splits option.splits)

lemma parse_datetime_errors: "raises_only key_type_or_value (parse_datetime lib v)"
  by (cases "(lib, v)" rule: parse_datetime.cases)
    (auto simp: parse_iso_def intro!: raises_only_bind split: option.splits datetime.splits)

lemma time_at_errors: "raises_only key_type_or_value (time_at lib v k)"
  unfolding time_at_def by (intro raises_only_bind vsub_errors parse_datetime_errors)

lemma time_at_value: "time_at lib v k = Inr t \<longleftrightarrow> instant_at lib (path v [k]) = Some t"
proof (cases "vsub v k")
  case (Inl e)
  then have "path v [k] = VNone" by (auto simp: vsub_def vitem_def split: pyval.splits option.splits)
  then show ?thesis by (simp add: time_at_def Inl instant_at_def)
next
  case (Inr w)
  then show ?thesis using vsub_value[OF Inr] by (auto simp: time_at_def instant_at_def split: sum.splits)
qed

section \<open>Checks that pass\<close>

definition passes :: "findings res \<Rightarrow> bool" where
  "passes c \<longleftrightarrow> c = Inr ([], [])"

definition answers :: "'a res \<Rightarrow> bool" where
  "answers c \<longleftrightarrow> (\<exists>x. c = Inr x)"

named_theorems gate_simps \<open>when a check of the gate passes\<close>

lemma answers_simps [simp]: "answers (Inr x)" "\<not> answers (Inl e)"
  by (simp_all add: answers_def)

lemma answers_bind: "answers (bind_res m f) \<longleftrightarrow> (\<exists>x. m = Inr x \<and> answers (f x))"
  by (auto simp: answers_def)

lemma passes_Inr [gate_simps]: "passes (Inr (missing_if b m)) \<longleftrightarrow> \<not> b"
  by (simp add: passes_def missing_if_def)

lemma passes_interval [gate_simps]: "passes (Inr (interval_check p v)) \<longleftrightarrow> no_regression v"
  by (auto simp: passes_def interval_check_def no_regression_def split: option.splits)

lemma gather_answers: "answers (gather cs) \<Longrightarrow> c \<in> set cs \<Longrightarrow> answers c"
  by (induction cs) (auto simp: answers_def)

lemma both_empty: "both x y = ([], []) \<longleftrightarrow> x = ([], []) \<and> y = ([], [])"
  by (cases x; cases y) auto

lemma passes_gather: "passes (gather cs) \<longleftrightarrow> (\<forall>c\<in>set cs. passes c)"
proof (induction cs)
  case (Cons c cs)
  then show ?case by (cases c; cases "gather cs") (auto simp: passes_def both_empty)
qed (simp add: passes_def)

lemma passes_path:
  assumes "answers (bind_res (get_path v ks) f)"
  shows "passes (bind_res (get_path v ks) f) \<longleftrightarrow> passes (f (path v ks))" "answers (f (path v ks))"
  using assms get_path_value[of v ks] by (auto simp: answers_bind)

lemma passes_leaf:
  assumes "answers (bind_res (py_get v k VNone) f)"
  shows "passes (bind_res (py_get v k VNone) f) \<longleftrightarrow> passes (f (path v [k]))" "answers (f (path v [k]))"
  using assms py_get_leaf[of v k] by (auto simp: answers_bind)

lemma except_bad_value_ok:
  assumes "raises_only key_type_or_value body"
  shows "except_bad_value body handler = Inr (case body of Inl e \<Rightarrow> handler | Inr x \<Rightarrow> x)"
  using assms by (cases body) (auto simp: except_bad_value_def)

lemma passes_guarded:
  assumes "answers (bind_res m (\<lambda>x. if P x then Inr (missing_if True msg) else bind_res (get_path v ks) (f x)))"
    and "\<And>w. m = Inr w \<Longrightarrow> w = a"
  shows "passes (bind_res m (\<lambda>x. if P x then Inr (missing_if True msg) else bind_res (get_path v ks) (f x))) \<longleftrightarrow>
    \<not> P a \<and> passes (f a (path v ks))"
  using assms get_path_value[of v ks] by (auto simp: answers_bind passes_Inr split: if_splits)

lemma provenance_passes:
  assumes "\<And>c. c \<in> set (provenance_checks report evidence model_sha) \<Longrightarrow> answers c"
  shows "(\<forall>c\<in>set (provenance_checks report evidence model_sha). passes c) \<longleftrightarrow>
     path evidence [''evidence_schema_version''] = VStr ''recommendation-release-evidence-v1'' \<and>
     path evidence [''environment''] = VStr ''production'' \<and>
     path evidence [''dataset'', ''source_format''] = VStr ''oecophylla-telemetry-v2'' \<and>
     path report [''data_provenance'', ''source_formats''] = VList [VStr ''oecophylla-telemetry-v2''] \<and>
     truthy (path report [''data_provenance'', ''dataset_sha256'']) \<and>
     py_eq (path report [''data_provenance'', ''dataset_sha256'']) (path evidence [''dataset'', ''sha256'']) \<and>
     digest_bound (path report [''data_provenance'', ''model_sha256'']) model_sha"
proof -
  have a: "answers c" if "c \<in> set (provenance_checks report evidence model_sha)" for c using assms that .
  note guarded = passes_guarded[OF _ py_get_leaf] passes_guarded[OF _ get_path_value]
  show ?thesis
    using a unfolding provenance_checks_def list.set
    by (simp add: passes_leaf passes_path(1) guarded gate_simps bound_to_iff del: path.simps get_path.simps)
qed

lemma sample_passes:
  assumes "\<And>c. c \<in> set (sample_checks report evidence) \<Longrightarrow> answers c"
  shows "(\<forall>c\<in>set (sample_checks report evidence). passes c) \<longleftrightarrow>
    (\<forall>field\<in>set DATASET_REVIEWS. path evidence [''dataset'', field] = VBool True) \<and>
    at_least 1000 (path report [''sample'', ''requests''])"
proof -
  let ?review = "\<lambda>field. bind_res (get_path evidence [''dataset'', field]) (\<lambda>v. Inr (missing_if (v \<noteq> VBool True) field))"
  let ?requests = "bind_res (get_path report [''sample'', ''requests'']) (\<lambda>v.
      Inr (missing_if (\<not> at_least 1000 v) ''minimum_1000_test_requests''))"
  have eq: "set (sample_checks report evidence) = insert ?requests (?review ` set DATASET_REVIEWS)"
    by (simp add: sample_checks_def)
  have "passes (?review field) \<longleftrightarrow> path evidence [''dataset'', field] = VBool True" if "field \<in> set DATASET_REVIEWS" for field
    using assms[unfolded eq] that by (subst passes_path(1)) (auto simp only: gate_simps insert_iff image_iff simp_thms)
  moreover have "passes ?requests \<longleftrightarrow> at_least 1000 (path report [''sample'', ''requests''])"
    using assms[unfolded eq] by (subst passes_path(1)) (auto simp only: gate_simps insert_iff simp_thms)
  ultimately show ?thesis unfolding eq by blast
qed

lemma intervals_pass:
  assumes "\<And>c. c \<in> set (interval_checks v prefix baselines) \<Longrightarrow> answers c"
  shows "(\<forall>c\<in>set (interval_checks v prefix baselines). passes c) \<longleftrightarrow>
    (\<forall>name\<in>set baselines. \<forall>metric\<in>set METRICS. no_regression (path v [''comparisons'', name, metric, ''ci95'']))"
proof -
  let ?check = "\<lambda>name metric. bind_res (get_path v [''comparisons'', name, metric, ''ci95''])
      (\<lambda>ci. Inr (interval_check (prefix @ name @ '':'' @ metric) ci))"
  have eq: "set (interval_checks v prefix baselines) = (\<Union>name\<in>set baselines. ?check name ` set METRICS)"
    by (simp add: interval_checks_def)
  have "passes (?check name metric) \<longleftrightarrow> no_regression (path v [''comparisons'', name, metric, ''ci95''])"
    if "name \<in> set baselines" "metric \<in> set METRICS" for name metric
  proof -
    have "answers (?check name metric)" using assms that unfolding eq by blast
    from passes_path(1)[OF this] show ?thesis by (simp only: gate_simps)
  qed
  then show ?thesis unfolding eq by blast
qed

lemma comparison_passes:
  assumes "\<And>c. c \<in> set (comparison_checks report) \<Longrightarrow> answers c"
  shows "(\<forall>c\<in>set (comparison_checks report). passes c) \<longleftrightarrow>
    (\<forall>name\<in>{''pure_vs_logged_position'', ''pure_vs_logistic''}. \<forall>metric\<in>set METRICS.
        no_regression (path report [''comparisons'', name, metric, ''ci95'']))"
  unfolding comparison_checks_def
  by (rule intervals_pass[where baselines = "[''pure_vs_logged_position'', ''pure_vs_logistic'']", unfolded list.set])
    (rule assms, simp only: comparison_checks_def)

lemma segment_of_path:
  assumes "segment_of report name bucket = Inr v" "ks \<noteq> []"
  shows "path v ks = path report ([''segments'', name, bucket] @ ks)"
proof -
  obtain a b where "py_get report ''segments'' (VMap []) = Inr a" "py_get a name (VMap []) = Inr b"
    "py_get b bucket (VMap []) = Inr v"
    using assms(1) unfolding segment_of_def by auto
  then show ?thesis
    using py_get_node[of b bucket v ks] py_get_node[of a name b "bucket # ks"]
      py_get_node[of report "''segments''" a "name # bucket # ks"] assms(2) by (simp del: path.simps)
qed

lemma small_segment_value:
  assumes "small_segment segment = Inr small"
  shows "small \<longleftrightarrow> \<not> (at_least 100 (path segment [''requests'']) \<and>
    at_least 100 (path segment [''impression_auc_eligible_requests'']))"
  using assms py_get_leaf[of segment "''requests''"] py_get_leaf[of segment "''impression_auc_eligible_requests''"]
  by (auto simp: small_segment_def simp del: path.simps split: if_splits)

lemma segment_passes:
  assumes "answers (segment_check report nb)"
  shows "passes (segment_check report nb) \<longleftrightarrow> segment_ok report nb"
proof -
  obtain name bucket where nb: "nb = (name, bucket)" by fastforce
  obtain segment where seg: "segment_of report name bucket = Inr segment"
    using assms by (auto simp: segment_check_def nb answers_bind)
  let ?intervals = "interval_checks segment (name @ '':'' @ bucket @ '':'') [''logged_position'', ''logistic'']"
  let ?small = "bind_res (small_segment segment) (\<lambda>small. Inr (missing_if small (name @ '':'' @ bucket @ '':minimum_100_requests'')))"
  have eq: "segment_check report nb = gather (?small # ?intervals)"
    unfolding segment_check_def nb prod.case seg bind_res.simps ..
  have all: "answers c" if "c \<in> set (?small # ?intervals)" for c
    using gather_answers assms[unfolded eq] that by blast
  have "answers ?small" by (rule all) simp
  then obtain small where small: "small_segment segment = Inr small" unfolding answers_bind by blast
  have s: "passes ?small \<longleftrightarrow> at_least 100 (path segment [''requests'']) \<and> at_least 100 (path segment [''impression_auc_eligible_requests''])"
    using small_segment_value[OF small] unfolding small bind_res.simps passes_Inr by blast
  have i: "(\<forall>c\<in>set ?intervals. passes c) \<longleftrightarrow>
      (\<forall>baseline\<in>{''logged_position'', ''logistic''}. \<forall>metric\<in>set METRICS.
         no_regression (path segment [''comparisons'', baseline, metric, ''ci95'']))"
    by (rule intervals_pass[where baselines = "[''logged_position'', ''logistic'']", unfolded list.set]) (rule all, simp)
  have "passes (segment_check report nb) \<longleftrightarrow> passes ?small \<and> (\<forall>c\<in>set ?intervals. passes c)"
    unfolding eq passes_gather by simp
  also have "\<dots> \<longleftrightarrow> segment_ok report nb"
    unfolding s i segment_ok_def Let_def nb fst_conv snd_conv
    using segment_of_path[OF seg, of "[''requests'']"] segment_of_path[OF seg, of "[''impression_auc_eligible_requests'']"]
      segment_of_path[OF seg, of "[''comparisons'', _, _, ''ci95'']"] by (simp only: append_Cons append_Nil list.distinct simp_thms conj_assoc)
  finally show ?thesis .
qed

lemma guardrail_passes:
  assumes "answers (guardrail_check models model mh)" "py_get report ''models'' (VMap []) = Inr models"
  shows "passes (guardrail_check models model mh) \<longleftrightarrow> guardrail_ok report model mh"
proof -
  obtain metric higher where mh: "mh = (metric, higher)" by fastforce
  have v: "get_path models [model, metric] = Inr (path report [''models'', model, metric])"
    and b: "get_path models [''logged_position_baseline'', metric] = Inr (path report [''models'', ''logged_position_baseline'', metric])"
  proof -
    obtain v b where "get_path models [model, metric] = Inr v" "get_path models [''logged_position_baseline'', metric] = Inr b"
      using assms(1) unfolding guardrail_check_def mh prod.case answers_bind by blast
    moreover note this[THEN get_path_value]
    moreover have "path models ks = path report (''models'' # ks)" if "ks \<noteq> []" for ks
      using py_get_node[OF assms(2) that] .
    ultimately show "get_path models [model, metric] = Inr (path report [''models'', model, metric])"
      "get_path models [''logged_position_baseline'', metric] = Inr (path report [''models'', ''logged_position_baseline'', metric])"
      by (simp_all only: list.distinct simp_thms)
  qed
  show ?thesis
    unfolding guardrail_check_def mh prod.case v b bind_res.simps guardrail_ok_def fst_conv snd_conv
    by (auto simp: passes_def simp del: path.simps split: option.splits)
qed

lemma guardrails_pass:
  assumes "answers (guardrail_checks report)"
  shows "passes (guardrail_checks report) \<longleftrightarrow>
    (\<forall>model\<in>{''pure_model'', ''post_policy''}. \<forall>mh\<in>set GUARDRAILS. guardrail_ok report model mh)"
proof -
  let ?cs = "\<lambda>models. concat (map (\<lambda>model. map (guardrail_check models model) GUARDRAILS) [''pure_model'', ''post_policy''])"
  obtain models where m: "py_get report ''models'' (VMap []) = Inr models" and a: "answers (gather (?cs models))"
    using assms unfolding guardrail_checks_def answers_bind by blast
  have eq: "set (?cs models) = (\<Union>model\<in>{''pure_model'', ''post_policy''}. guardrail_check models model ` set GUARDRAILS)"
    by simp
  have "passes (guardrail_check models model mh) \<longleftrightarrow> guardrail_ok report model mh"
    if "model \<in> {''pure_model'', ''post_policy''}" "mh \<in> set GUARDRAILS" for model mh
    using gather_answers[OF a, unfolded eq] that by (intro guardrail_passes[OF _ m]) blast
  then show ?thesis unfolding guardrail_checks_def m bind_res.simps passes_gather eq by blast
qed

lemma short_window_value:
  "short_window lib now window hours = Inr b \<Longrightarrow>
     b \<longleftrightarrow> \<not> (\<exists>start end_at. instant_at lib (path window [''started_at'']) = Some start \<and>
       instant_at lib (path window [''ended_at'']) = Some end_at \<and> start + hours_us hours \<le> end_at \<and> end_at \<le> now)"
  unfolding time_at_value[symmetric] short_window_def except_bad_value_def
  by (cases "time_at lib window ''started_at''"; cases "time_at lib window ''ended_at''")
    (auto split: if_splits)

lemma bounds_value:
  assumes "map_res (\<lambda>(name, maximum). bind_res (py_get window name VNone) (\<lambda>v.
      Inr (if in_range maximum v then [] else [name]))) bs = Inr bounds"
  shows "concat bounds = [] \<longleftrightarrow> (\<forall>(field, maximum)\<in>set bs. in_range maximum (path window [field]))"
  using assms
proof (induction bs arbitrary: bounds)
  case (Cons b bs)
  then show ?case using py_get_leaf[of window "fst b"] by (cases b) (auto simp del: path.simps split: if_splits)
qed simp

lemma check_window_value:
  assumes "check_window lib now window hours requests shadow = Inr reasons"
  shows "reasons = [] \<longleftrightarrow>
     (\<exists>start end_at. instant_at lib (path window [''started_at'']) = Some start \<and>
       instant_at lib (path window [''ended_at'']) = Some end_at \<and> start + hours_us hours \<le> end_at \<and> end_at \<le> now) \<and>
     at_least requests (path window [''requests'']) \<and>
     (\<forall>(field, maximum)\<in>set WINDOW_BOUNDS. in_range maximum (path window [field])) \<and>
     (shadow \<longrightarrow> path window [''order_changes''] = VInt 0)"
proof -
  obtain short n bounds changes where w: "short_window lib now window hours = Inr short"
    "py_get window ''requests'' VNone = Inr n"
    "map_res (\<lambda>(name, maximum). bind_res (py_get window name VNone) (\<lambda>v.
        Inr (if in_range maximum v then [] else [name]))) WINDOW_BOUNDS = Inr bounds"
    "py_get window ''order_changes'' VNone = Inr changes"
    and r: "reasons = (if short then [''observation_window''] else []) @ (if at_least requests n then [] else [''request_count'']) @
      concat bounds @ (if shadow \<and> changes \<noteq> VInt 0 then [''shadow_order_changes''] else [])"
    using assms unfolding check_window_def by (elim bind_resE) simp
  have "reasons = [] \<longleftrightarrow> \<not> short \<and> at_least requests n \<and> concat bounds = [] \<and> (shadow \<longrightarrow> changes = VInt 0)"
    by (simp add: r)
  then show ?thesis
    unfolding short_window_value[OF w(1)] py_get_leaf[OF w(2)] bounds_value[OF w(3)] py_get_leaf[OF w(4)] by (simp only: not_not)
qed

lemma rollout_passes:
  assumes "answers (rollout_check lib now evidence model_sha nhc)"
  shows "passes (rollout_check lib now evidence model_sha nhc) \<longleftrightarrow> rollout_ok lib now evidence model_sha nhc"
proof -
  obtain name hours requests where nhc: "nhc = (name, hours, requests)" by (cases nhc) auto
  obtain sha window reasons where w: "get_path evidence [name, ''model_sha256''] = Inr sha"
    "py_get evidence name (VMap []) = Inr window" "check_window lib now window hours requests (name = ''shadow'') = Inr reasons"
    using assms unfolding rollout_check_def nhc prod.case answers_bind by blast
  have field: "path window [k] = path evidence [name, k]" for k using py_get_node[OF w(2), of "[k]"] by simp
  have "passes (rollout_check lib now evidence model_sha nhc) \<longleftrightarrow> bound_to sha model_sha \<and> reasons = []"
    unfolding rollout_check_def nhc prod.case w bind_res.simps by (auto simp: passes_def missing_if_def)
  then show ?thesis
    unfolding check_window_value[OF w(3)] field get_path_value[OF w(1)] rollout_ok_def nhc prod.case bound_to_iff by blast
qed

lemma chronology_value:
  "chronology_check lib evidence = Inr
     (case (instant_at lib (path evidence [''canary'', ''started_at'']), instant_at lib (path evidence [''shadow'', ''ended_at''])) of
        (Some started, Some ended) \<Rightarrow> missing_if (started < ended) ''canary_must_follow_shadow''
      | _ \<Rightarrow> ([''shadow_canary_chronology''], []))"
proof -
  have nested: "raises_only key_type_or_value (bind_res (vsub evidence a) (\<lambda>c. time_at lib c k))"
    "bind_res (vsub evidence a) (\<lambda>c. time_at lib c k) = Inr t \<longleftrightarrow> instant_at lib (path evidence [a, k]) = Some t" for a k t
  proof -
    show "raises_only key_type_or_value (bind_res (vsub evidence a) (\<lambda>c. time_at lib c k))"
      by (intro raises_only_bind vsub_errors time_at_errors)
    show "bind_res (vsub evidence a) (\<lambda>c. time_at lib c k) = Inr t \<longleftrightarrow> instant_at lib (path evidence [a, k]) = Some t"
    proof (cases "vsub evidence a")
      case (Inl e)
      then have "path evidence [a] = VNone" by (auto simp: vsub_def vitem_def split: pyval.splits option.splits)
      then have "path evidence [a, k] = VNone" using path_path[of evidence "[a]" "[k]"] by (simp del: path.simps)
      then show ?thesis by (simp add: Inl instant_at_def del: path.simps)
    next
      case (Inr w)
      then show ?thesis
        using vsub_value[OF Inr] path_path[of evidence "[a]" "[k]"] by (simp add: time_at_value del: path.simps)
    qed
  qed
  let ?c = "bind_res (vsub evidence ''canary'') (\<lambda>c. time_at lib c ''started_at'')"
  let ?s = "bind_res (vsub evidence ''shadow'') (\<lambda>s. time_at lib s ''ended_at'')"
  have none: "instant_at lib (path evidence [a, k]) = None" if "bind_res (vsub evidence a) (\<lambda>c. time_at lib c k) = Inl e" for a k e
    using nested(2)[of a k] that by (metis not_None_eq sum.distinct(1))
  show ?thesis
    unfolding chronology_check_def
  proof (subst except_bad_value_ok)
    show "raises_only key_type_or_value (bind_res ?c (\<lambda>started. bind_res ?s (\<lambda>ended.
        Inr (missing_if (started < ended) ''canary_must_follow_shadow''))))"
      by (intro raises_only_bind nested(1)) simp
  next
    show "Inr (case bind_res ?c (\<lambda>started. bind_res ?s (\<lambda>ended. Inr (missing_if (started < ended) ''canary_must_follow_shadow'')))
        of Inl e \<Rightarrow> ([''shadow_canary_chronology''], []) | Inr x \<Rightarrow> x) =
      Inr (case (instant_at lib (path evidence [''canary'', ''started_at'']), instant_at lib (path evidence [''shadow'', ''ended_at''])) of
        (Some started, Some ended) \<Rightarrow> missing_if (started < ended) ''canary_must_follow_shadow''
      | _ \<Rightarrow> ([''shadow_canary_chronology''], []))"
    proof (cases ?c)
      case (Inl e)
      show ?thesis unfolding Inl none[OF Inl] by simp
    next
      case c: (Inr started)
      show ?thesis
      proof (cases ?s)
        case (Inl e)
        show ?thesis unfolding c Inl none[OF Inl] nested(2)[THEN iffD1, OF c] by simp
      next
        case s: (Inr ended)
        show ?thesis unfolding c s nested(2)[THEN iffD1, OF c] nested(2)[THEN iffD1, OF s] by simp
      qed
    qed
  qed
qed

lemma canary_passes:
  assumes "answers (traffic_check evidence)"
  shows "passes (chronology_check lib evidence) \<and> passes (traffic_check evidence) \<longleftrightarrow> canary_ok lib evidence"
proof -
  have "passes (traffic_check evidence) \<longleftrightarrow>
      (\<exists>x. as_number (path evidence [''canary'', ''traffic_percent'']) = Some x \<and> 0 < x \<and> x \<le> 5)"
    using passes_path(1)[OF assms[unfolded traffic_check_def]] unfolding traffic_check_def gate_simps
    by (auto split: option.splits simp del: path.simps)
  moreover have "passes (chronology_check lib evidence) \<longleftrightarrow>
      (\<exists>ended started. instant_at lib (path evidence [''shadow'', ''ended_at'']) = Some ended \<and>
         instant_at lib (path evidence [''canary'', ''started_at'']) = Some started \<and> ended \<le> started)"
    unfolding chronology_value
    by (auto simp: passes_def missing_if_def split: option.splits simp del: path.simps)
  ultimately show ?thesis unfolding canary_ok_def by blast
qed

lemma rollback_passes:
  assumes "answers (rollback_check evidence model_sha)"
  shows "passes (rollback_check evidence model_sha) \<longleftrightarrow> rollback_ok evidence model_sha"
  using passes_guarded[OF assms[unfolded rollback_check_def] get_path_value]
  unfolding rollback_check_def rollback_ok_def gate_simps by blast

lemma binding_passes:
  assumes "\<And>c. c \<in> set (binding_checks evidence comparison_sha model_sha) \<Longrightarrow> answers c"
  shows "(\<forall>c\<in>set (binding_checks evidence comparison_sha model_sha). passes c) \<longleftrightarrow>
    digest_bound (path evidence [''comparison_sha256'']) comparison_sha \<and> digest_bound (path evidence [''model_sha256'']) model_sha"
  using assms unfolding binding_checks_def by (simp add: passes_leaf gate_simps bound_to_iff del: path.simps)

lemma and_res_True: "and_res cs = Inr True \<longleftrightarrow> (\<forall>c\<in>set cs. c = Inr True)"
  by (induction cs) auto

lemma vsub_test:
  assumes "\<not> P VNone"
  shows "bind_res (vsub v k) (\<lambda>w. Inr (P w)) = Inr True \<longleftrightarrow> P (path v [k])"
  using assms by (auto simp: vsub_def vitem_def split: pyval.splits option.splits)

lemma trace_key_value: "trace_key trace k = Inr True \<longleftrightarrow> (\<exists>s. path trace [k] = VStr s \<and> is_sha256 s)"
  unfolding trace_key_def by (cases "vsub trace k")
    (auto simp: vsub_def vitem_def split: pyval.splits option.splits)

lemma times_value:
  "map_res (time_at lib v) ks = Inr ts \<longleftrightarrow> map (\<lambda>k. instant_at lib (path v [k])) ks = map Some ts"
proof (induction ks arbitrary: ts)
  case (Cons k ks)
  then show ?case by (cases ts) (auto simp: time_at_value simp del: path.simps)
qed auto

lemma trace_checks_value:
  "trace_checks lib now trace = Inr True \<longleftrightarrow>
     (\<forall>k\<in>set TRACE_KEYS. \<exists>s. path trace [k] = VStr s \<and> is_sha256 s) \<and>
     (\<exists>times. map (\<lambda>k. instant_at lib (path trace [k])) TRACE_TIMES = map Some times \<and> trace_times_ordered now times) \<and>
     (\<forall>(k, version)\<in>set TRACE_VERSIONS. path trace [k] = VStr version) \<and>
     at_least 10000 (path trace [''dwell_ms'']) \<and> truthy (path trace [''model_version''])"
proof -
  have keys: "and_res (map (trace_key trace) TRACE_KEYS) = Inr True \<longleftrightarrow>
      (\<forall>k\<in>set TRACE_KEYS. \<exists>s. path trace [k] = VStr s \<and> is_sha256 s)"
    by (simp add: and_res_True trace_key_value del: path.simps)
  have versions: "bind_res (vsub trace k) (\<lambda>v. Inr (v = VStr version)) = Inr True \<longleftrightarrow> path trace [k] = VStr version" for k version
    by (rule vsub_test) simp
  have dwell: "bind_res (vsub trace ''dwell_ms'') (\<lambda>v. Inr (at_least 10000 v)) = Inr True \<longleftrightarrow> at_least 10000 (path trace [''dwell_ms''])"
    by (rule vsub_test) simp
  have model: "bind_res (vsub trace ''model_version'') (\<lambda>v. Inr (truthy v)) = Inr True \<longleftrightarrow> truthy (path trace [''model_version''])"
    by (rule vsub_test) simp
  let ?tail = "map (\<lambda>(k, version). bind_res (vsub trace k) (\<lambda>v. Inr (v = VStr version))) TRACE_VERSIONS @
      [bind_res (vsub trace ''dwell_ms'') (\<lambda>v. Inr (at_least 10000 v)), bind_res (vsub trace ''model_version'') (\<lambda>v. Inr (truthy v))]"
  have tail: "and_res ?tail = Inr True \<longleftrightarrow> (\<forall>(k, version)\<in>set TRACE_VERSIONS. path trace [k] = VStr version) \<and>
      at_least 10000 (path trace [''dwell_ms'']) \<and> truthy (path trace [''model_version''])"
    unfolding and_res_True set_append set_map list.set ball_Un ball_simps dwell model
    by (simp add: case_prod_beta versions del: path.simps bind_res_Inr)
  have "trace_checks lib now trace = Inr True \<longleftrightarrow> and_res (map (trace_key trace) TRACE_KEYS) = Inr True \<and>
      (\<exists>times. map_res (time_at lib trace) TRACE_TIMES = Inr times \<and> trace_times_ordered now times) \<and> and_res ?tail = Inr True"
    unfolding trace_checks_def by (cases "and_res (map (trace_key trace) TRACE_KEYS)") auto
  then show ?thesis unfolding keys tail times_value .
qed

lemma trace_passes:
  fixes lib now evidence
  defines "c \<equiv> bind_res (py_get evidence ''trace'' (VMap [])) (\<lambda>t. bind_res (trace_valid lib now t) (\<lambda>ok.
        Inr (missing_if (\<not> ok) ''served_behavior_dataset_history_shadow_trace'')))"
  assumes "answers c"
  shows "passes c \<longleftrightarrow> trace_ok lib now evidence"
proof -
  obtain trace ok where t: "py_get evidence ''trace'' (VMap []) = Inr trace" "trace_valid lib now trace = Inr ok"
    using assms(2) unfolding c_def answers_bind by blast
  have "ok \<longleftrightarrow> trace_checks lib now trace = Inr True"
    using t(2) by (auto simp: trace_valid_def except_bad_value_def split: sum.splits if_splits)
  moreover have "path trace [k] = path evidence [''trace'', k]" for k using py_get_node[OF t(1), of "[k]"] by simp
  moreover have "passes c \<longleftrightarrow> ok" unfolding c_def t bind_res.simps gate_simps by simp
  ultimately show ?thesis unfolding trace_checks_value trace_times_ordered_iff trace_ok_def by presburger
qed

section \<open>The gate approves exactly the justified releases\<close>

lemma release_checks_pass:
  assumes "\<And>c. c \<in> set (release_checks lib now report evidence comparison_sha model_sha) \<Longrightarrow> answers c"
  shows "(\<forall>c\<in>set (release_checks lib now report evidence comparison_sha model_sha). passes c) \<longleftrightarrow>
    release_justified lib now report evidence comparison_sha model_sha"
proof -
  let ?trace = "bind_res (py_get evidence ''trace'' (VMap [])) (\<lambda>t. bind_res (trace_valid lib now t) (\<lambda>ok.
        Inr (missing_if (\<not> ok) ''served_behavior_dataset_history_shadow_trace'')))"
  have eq: "set (release_checks lib now report evidence comparison_sha model_sha) =
      set (provenance_checks report evidence model_sha) \<union> set (sample_checks report evidence) \<union> set (comparison_checks report) \<union>
      segment_check report ` set REQUIRED_SEGMENTS \<union> {guardrail_checks report} \<union>
      rollout_check lib now evidence model_sha ` set ROLLOUTS \<union>
      {chronology_check lib evidence, traffic_check evidence, ?trace, rollback_check evidence model_sha} \<union>
      set (binding_checks evidence comparison_sha model_sha)"
    unfolding release_checks_def by auto
  note a = assms[unfolded eq]
  have "(\<forall>c\<in>set (provenance_checks report evidence model_sha). passes c) \<and> (\<forall>c\<in>set (sample_checks report evidence). passes c) \<and>
      (\<forall>c\<in>set (binding_checks evidence comparison_sha model_sha). passes c) \<and> (\<forall>c\<in>set (comparison_checks report). passes c) \<longleftrightarrow>
      provenance_ok report evidence comparison_sha model_sha \<and> offline_ok report"
    by (subst provenance_passes sample_passes binding_passes comparison_passes, rule a, blast)+
      (unfold provenance_ok_def offline_ok_def, blast)
  moreover have "(\<forall>c\<in>segment_check report ` set REQUIRED_SEGMENTS. passes c) \<longleftrightarrow> (\<forall>nb\<in>set REQUIRED_SEGMENTS. segment_ok report nb)"
    using segment_passes[OF a] by blast
  moreover have "passes (guardrail_checks report) \<longleftrightarrow>
      (\<forall>model\<in>{''pure_model'', ''post_policy''}. \<forall>mh\<in>set GUARDRAILS. guardrail_ok report model mh)"
    by (rule guardrails_pass, rule a) blast
  moreover have "(\<forall>c\<in>rollout_check lib now evidence model_sha ` set ROLLOUTS. passes c) \<longleftrightarrow>
      (\<forall>nhc\<in>set ROLLOUTS. rollout_ok lib now evidence model_sha nhc)"
    using rollout_passes[OF a] by blast
  moreover have "passes (chronology_check lib evidence) \<and> passes (traffic_check evidence) \<longleftrightarrow> canary_ok lib evidence"
    by (rule canary_passes, rule a) blast
  moreover have "passes ?trace \<longleftrightarrow> trace_ok lib now evidence" by (rule trace_passes, rule a) blast
  moreover have "passes (rollback_check evidence model_sha) \<longleftrightarrow> rollback_ok evidence model_sha"
    by (rule rollback_passes, rule a) blast
  moreover have "(\<forall>c\<in>{guardrail_checks report}. passes c) \<longleftrightarrow> passes (guardrail_checks report)"
    "(\<forall>c\<in>{chronology_check lib evidence, traffic_check evidence, ?trace, rollback_check evidence model_sha}. passes c) \<longleftrightarrow>
      passes (chronology_check lib evidence) \<and> passes (traffic_check evidence) \<and> passes ?trace \<and>
      passes (rollback_check evidence model_sha)"
    by blast+
  ultimately show ?thesis unfolding eq release_justified_def ball_Un by argo
qed

lemma evaluate_release_parts:
  assumes "evaluate_release lib now report evidence comparison_sha model_sha = Inr r"
  obtains m f where
    "\<And>c. c \<in> set (release_checks lib now report (py_or evidence (VMap [])) comparison_sha model_sha) \<Longrightarrow> answers c"
    "rl_decision r = release_decision report (m, f)" "rl_approved r \<longleftrightarrow> release_decision report (m, f) \<in> {''WIN'', ''NO_REGRESSION''}"
    "rl_missing_evidence r = sorted_list_of_set (set m)" "rl_failures r = sorted_list_of_set (set f)"
    "m = [] \<and> f = [] \<longleftrightarrow> release_justified lib now report (py_or evidence (VMap [])) comparison_sha model_sha"
proof -
  let ?cs = "release_checks lib now report (py_or evidence (VMap [])) comparison_sha model_sha"
  obtain m f where g: "gather ?cs = Inr (m, f)"
    and r: "rl_decision r = release_decision report (m, f)" "rl_approved r \<longleftrightarrow> release_decision report (m, f) \<in> {''WIN'', ''NO_REGRESSION''}"
      "rl_missing_evidence r = sorted_list_of_set (set m)" "rl_failures r = sorted_list_of_set (set f)"
    using assms unfolding evaluate_release_def Let_def by (elim bind_resE) auto
  have a: "answers c" if "c \<in> set ?cs" for c using gather_answers[of ?cs] g that by (simp add: answers_def)
  have "m = [] \<and> f = [] \<longleftrightarrow> release_justified lib now report (py_or evidence (VMap [])) comparison_sha model_sha"
    using release_checks_pass[OF a] passes_gather[of ?cs] unfolding g passes_def by simp
  from that[OF a r this] show ?thesis .
qed

lemma approved_justified:
  assumes "evaluate_release lib now report evidence comparison_sha model_sha = Inr r" "rl_approved r"
  shows "release_justified lib now report (py_or evidence (VMap [])) comparison_sha model_sha"
  by (rule evaluate_release_parts[OF assms(1)], use assms(2) in \<open>auto simp: release_decision_def split: if_splits\<close>)


definition demo_report :: pyval where
  "demo_report =
     (let ci = VMap [(''ci95'', VList [VFloat (1 / 100), VFloat (2 / 100)])];
          metrics = VMap (map (\<lambda>m. (m, ci)) METRICS);
          segment = VMap [(''requests'', VInt 100), (''impression_auc_eligible_requests'', VInt 100),
            (''comparisons'', VMap [(''logged_position'', metrics), (''logistic'', metrics)])];
          model = VMap (map (\<lambda>(m, _). (m, VInt 0)) GUARDRAILS) in
      VMap [(''data_provenance'', VMap [(''source_formats'', VList [VStr ''oecophylla-telemetry-v2'']), (''dataset_sha256'', VStr ''d''),
              (''model_sha256'', VStr ''m'')]),
            (''sample'', VMap [(''requests'', VInt 1000)]),
            (''comparisons'', VMap [(''pure_vs_logged_position'', metrics), (''pure_vs_logistic'', metrics)]),
            (''segments'', VMap [(''user_tenure'', VMap [(''new'', segment)]), (''article_tenure'', VMap [(''new'', segment)]),
              (''language'', VMap [(''vi'', segment)])]),
            (''models'', VMap [(''pure_model'', model), (''post_policy'', model), (''logged_position_baseline'', model)])])"

definition demo_window :: "instant \<Rightarrow> (string \<times> pyval) list" where
  "demo_window start =
     [(''model_sha256'', VStr ''m''), (''started_at'', VTime (Aware start)), (''ended_at'', VTime (Aware (start + hours_us 48))),
      (''requests'', VInt 10000), (''p95_ms'', VInt 200), (''fallback_rate'', VInt 0), (''error_rate'', VInt 0),
      (''order_changes'', VInt 0)]"

definition demo_evidence :: pyval where
  "demo_evidence =
     (let digest = VStr (replicate 64 CHR ''a'') in
      VMap [(''evidence_schema_version'', VStr ''recommendation-release-evidence-v1''), (''environment'', VStr ''production''),
            (''dataset'', VMap ([(''source_format'', VStr ''oecophylla-telemetry-v2''), (''sha256'', VStr ''d'')] @
               map (\<lambda>k. (k, VBool True)) DATASET_REVIEWS)),
            (''comparison_sha256'', VStr ''c''), (''model_sha256'', VStr ''m''),
            (''shadow'', VMap (demo_window 0)),
            (''canary'', VMap ((''traffic_percent'', VInt 5) # demo_window (hours_us 48))),
            (''trace'', VMap (map (\<lambda>k. (k, digest)) TRACE_KEYS @ zip TRACE_TIMES (map (\<lambda>t. VTime (Aware t)) [1, 2, 3, 4, 5, 6]) @
               map (\<lambda>(k, v). (k, VStr v)) TRACE_VERSIONS @ [(''dwell_ms'', VInt 10000), (''model_version'', VStr ''v'')])),
            (''rollback'', VMap [(''heuristic_passed'', VBool True), (''model_sha256'', VStr ''m'')])])"

lemma demo_release:
  "case evaluate_release clock_lib (hours_us 96) demo_report demo_evidence (Some ''c'') (Some ''m'') of
     Inr r \<Rightarrow> rl_decision r = ''WIN'' | Inl _ \<Rightarrow> False"
  by code_simp


text \<open>Without evidence nothing is approved, whatever the report says.\<close>

lemma no_evidence_no_release:
  assumes "evaluate_release lib now report VNone comparison_sha model_sha = Inr r"
  shows "\<not> rl_approved r"
proof -
  obtain m f where g: "gather (release_checks lib now report (VMap []) comparison_sha model_sha) = Inr (m, f)"
    and r: "rl_approved r \<longleftrightarrow> release_decision report (m, f) \<in> {''WIN'', ''NO_REGRESSION''}"
    using assms unfolding evaluate_release_def Let_def py_or_def truthy.simps if_False by (elim bind_resE) auto
  have "answers c" if "c \<in> set (release_checks lib now report (VMap []) comparison_sha model_sha)" for c
    using gather_answers that g by (metis answers_simps(1))
  from release_checks_pass[OF this] have "\<not> (m = [] \<and> f = [])"
    using passes_gather[of "release_checks lib now report (VMap []) comparison_sha model_sha"]
    unfolding g passes_def by (simp add: release_justified_def provenance_ok_def)
  then show ?thesis by (auto simp: r release_decision_def)
qed

end
