(* ===== verification/EmbeddingWorker.thy ===== *)
theory EmbeddingWorker
  imports ContentFeatures MicroBatch
begin

text \<open>
  The post pipeline of the NLP worker: \<open>EmbeddingService.process\<close> (\<open>embedding_worker.py\<close>) over the
  \<open>posts\<close> and \<open>post_content_features\<close> tables (\<open>repository.py\<close>, with the \<open>updated_at\<close> trigger of
  \<open>src/migrations\<close>), its metrics, and the Kafka consumer of \<open>kafka_consumer.py\<close>. A \<open>process_env\<close> is what
  one call meets: the clocks, the encoder and which database calls fail. The theorems: stored features
  are well formed, and no content event is acknowledged before its post has topics.
\<close>

section \<open>Tables\<close>

definition SCHEMA_VERSION :: string where
  "SCHEMA_VERSION = ''post-content-features-v1''"

record content_post =
  np_id :: uuid
  np_content :: "unicode option"
  np_topics :: "unicode list"
  np_updated_at :: instant
  np_published :: bool

record post_feature =
  pf_schema_version :: string
  pf_post_id :: uuid
  pf_encoder_version :: string
  pf_normalization_version :: string
  pf_content_hash :: string
  pf_embedding :: "real list"
  pf_normalized_topics :: "unicode list"
  pf_source_updated_at :: instant
  pf_computed_at :: instant

record content_record =
  cr_post_id :: uuid
  cr_content :: unicode
  cr_topics :: "unicode list"
  cr_updated_at :: instant

record content_db =
  cd_posts :: "content_post list"
  cd_features :: "post_feature list"

definition record_of :: "content_post \<Rightarrow> content_record" where
  "record_of p = \<lparr>cr_post_id = np_id p, cr_content = (case np_content p of None \<Rightarrow> [] | Some c \<Rightarrow> c), cr_topics = np_topics p,
     cr_updated_at = np_updated_at p\<rparr>"

definition get_post :: "content_db \<Rightarrow> uuid \<Rightarrow> content_record option" where
  "get_post db i = map_option record_of (find (\<lambda>p. np_id p = i) (cd_posts db))"

definition feature_exists :: "content_db \<Rightarrow> uuid \<Rightarrow> string \<Rightarrow> string \<Rightarrow> bool" where
  "feature_exists db i encoder digest \<longleftrightarrow>
     list_ex (\<lambda>f. pf_post_id f = i \<and> pf_encoder_version f = encoder \<and> pf_content_hash f = digest) (cd_features db)"

definition insert_feature :: "content_db \<Rightarrow> post_feature \<Rightarrow> content_db \<times> bool" where
  "insert_feature db f =
     (if feature_exists db (pf_post_id f) (pf_encoder_version f) (pf_content_hash f) then (db, False)
      else (db\<lparr>cd_features := cd_features db @ [f]\<rparr>, True))"

text \<open>The update fires the trigger that stamps \<open>updated_at\<close> with the database clock.\<close>

definition ensure_topics :: "instant \<Rightarrow> uuid \<Rightarrow> unicode list \<Rightarrow> content_db \<Rightarrow> content_db" where
  "ensure_topics now i topics db =
     db\<lparr>cd_posts := map (\<lambda>p. if np_id p = i \<and> np_topics p = [] then p\<lparr>np_topics := topics, np_updated_at := now\<rparr> else p)
       (cd_posts db)\<rparr>"

section \<open>Metrics\<close>

record nlp_metrics =
  nm_outcomes :: "string list"
  nm_failures :: "string list"
  nm_missing :: bool

definition feature_created :: "nlp_metrics \<Rightarrow> nlp_metrics" where
  "feature_created m = m\<lparr>nm_missing := False, nm_outcomes := nm_outcomes m @ [''created'']\<rparr>"

definition feature_unchanged :: "nlp_metrics \<Rightarrow> nlp_metrics" where
  "feature_unchanged m = m\<lparr>nm_missing := False, nm_outcomes := nm_outcomes m @ [''unchanged'']\<rparr>"

definition embedding_missing :: "nlp_metrics \<Rightarrow> nlp_metrics" where
  "embedding_missing m = m\<lparr>nm_missing := True, nm_outcomes := nm_outcomes m @ [''fallback'']\<rparr>"

definition embedding_failure :: "string \<Rightarrow> nlp_metrics \<Rightarrow> nlp_metrics" where
  "embedding_failure reason m =
     (let bounded = (if reason \<in> {''model'', ''validation'', ''storage'', ''future_source''} then reason else ''other'') in
      m\<lparr>nm_failures := nm_failures m @ [bounded]\<rparr>)"

section \<open>Processing a post\<close>

datatype repo_call = GetPost | EnsureTopics | FeatureExists | InsertFeature

record process_env =
  pe_db_now :: instant
  pe_clock :: instant
  pe_encode :: "unicode \<Rightarrow> real list res"
  pe_faults :: "repo_call \<Rightarrow> bool"

datatype process_status = Created | Unchanged | Fallback

record nlp_world =
  nw_db :: content_db
  nw_metrics :: nlp_metrics

definition fall_back :: "string \<Rightarrow> nlp_world \<Rightarrow> nlp_world \<times> process_status res" where
  "fall_back reason w =
     (w\<lparr>nw_metrics := embedding_missing (embedding_failure reason (nw_metrics w))\<rparr>, Inr Fallback)"

definition store_feature :: "process_env \<Rightarrow> post_feature \<Rightarrow> nlp_world \<Rightarrow> nlp_world \<times> process_status res" where
  "store_feature env f w =
     (if pe_faults env InsertFeature then fall_back ''storage'' w
      else let (db, inserted) = insert_feature (nw_db w) f in
        if inserted then (w\<lparr>nw_db := db, nw_metrics := feature_created (nw_metrics w)\<rparr>, Inr Created)
        else (w\<lparr>nw_db := db, nw_metrics := feature_unchanged (nw_metrics w)\<rparr>, Inr Unchanged))"

definition digest_of :: "pylib \<Rightarrow> unicode_lib \<Rightarrow> unicode \<Rightarrow> (unicode \<times> string) res" where
  "digest_of lib ul content =
     bind_res (normalize_content ul content) (\<lambda>normalized.
     bind_res (content_hash lib ul normalized) (\<lambda>digest. Inr (normalized, digest)))"

text \<open>\<open>except (TypeError, ValueError)\<close> around the digest, \<open>except ValueError\<close> around the encoder.\<close>

fun is_type_error :: "py_error \<Rightarrow> bool" where
  "is_type_error (TypeError _) = True"
| "is_type_error _ = False"

fun is_value_error :: "py_error \<Rightarrow> bool" where
  "is_value_error (ValueError _) = True"
| "is_value_error _ = False"

definition embed_post ::
    "pylib \<Rightarrow> unicode_lib \<Rightarrow> process_env \<Rightarrow> content_record \<Rightarrow> unicode list \<Rightarrow> nlp_world \<Rightarrow> nlp_world \<times> process_status res" where
  "embed_post lib ul env r topics w =
     (case digest_of lib ul (cr_content r) of
        Inl e \<Rightarrow> if is_type_error e \<or> is_value_error e then fall_back ''validation'' w else (w, Inl e)
      | Inr (normalized, digest) \<Rightarrow>
          if pe_faults env FeatureExists then (w, Inl (ServiceError ''feature_exists''))
          else if feature_exists (nw_db w) (cr_post_id r) ENCODER_VERSION digest
          then (w\<lparr>nw_metrics := feature_unchanged (nw_metrics w)\<rparr>, Inr Unchanged)
          else if cr_updated_at r > pe_clock env then fall_back ''future_source'' w
          else case bind_res (pe_encode env normalized) validate_embedding of
            Inl e \<Rightarrow> fall_back (if is_value_error e then ''validation'' else ''model'') w
          | Inr embedding \<Rightarrow>
              store_feature env
                \<lparr>pf_schema_version = SCHEMA_VERSION, pf_post_id = cr_post_id r, pf_encoder_version = ENCODER_VERSION,
                 pf_normalization_version = CONTENT_HASH_VERSION, pf_content_hash = digest, pf_embedding = embedding,
                 pf_normalized_topics = topics, pf_source_updated_at = cr_updated_at r, pf_computed_at = pe_clock env\<rparr> w)"

definition topics_for :: "unicode_lib \<Rightarrow> content_record \<Rightarrow> unicode list res" where
  "topics_for ul r =
     normalize_topics ul (if cr_topics r \<noteq> [] then cr_topics r else map ascii (infer_topics ul (cr_content r)))"

definition process ::
    "pylib \<Rightarrow> unicode_lib \<Rightarrow> process_env \<Rightarrow> content_record \<Rightarrow> nlp_world \<Rightarrow> nlp_world \<times> process_status res" where
  "process lib ul env r w =
     (case topics_for ul r of
        Inl e \<Rightarrow> (w, Inl e)
      | Inr topics \<Rightarrow>
          if pe_faults env EnsureTopics then (w, Inl (ServiceError ''ensure_topics''))
          else embed_post lib ul env r topics
                 (w\<lparr>nw_db := ensure_topics (pe_db_now env) (cr_post_id r) topics (nw_db w)\<rparr>))"

section \<open>Content events\<close>

text \<open>A content event names its post; the driver refuses an id that is not a UUID.\<close>

definition event_post :: "pylib \<Rightarrow> pyval \<Rightarrow> pyval res" where
  "event_post lib envelope =
     (case envelope of
        VMap e \<Rightarrow>
          (case map_of e ''data'' of
             None \<Rightarrow> Inr VNone
           | Some (VMap d) \<Rightarrow> Inr (vget d ''post_id'')
           | Some _ \<Rightarrow> Inl (AttributeError ''object has no attribute get''))
      | _ \<Rightarrow> Inl (AttributeError ''object has no attribute get''))"

definition uuid_argument :: "pylib \<Rightarrow> pyval \<Rightarrow> uuid res" where
  "uuid_argument lib v =
     (case v of VStr s \<Rightarrow> (case uuid_of_string s of Some u \<Rightarrow> Inr u | None \<Rightarrow> Inl (ServiceError ''invalid UUID''))
      | _ \<Rightarrow> Inl (ServiceError ''invalid UUID''))"

definition process_one ::
    "pylib \<Rightarrow> unicode_lib \<Rightarrow> process_env \<Rightarrow> pyval \<Rightarrow> nlp_world \<Rightarrow> nlp_world \<times> unit res" where
  "process_one lib ul env envelope w =
     (case event_post lib envelope of
        Inl e \<Rightarrow> (w, Inl e)
      | Inr v \<Rightarrow>
          if \<not> truthy v then (w, Inr ())
          else case uuid_argument lib v of
            Inl e \<Rightarrow> (w, Inl e)
          | Inr i \<Rightarrow>
              if pe_faults env GetPost then (w, Inl (ServiceError ''get_post''))
              else case get_post (nw_db w) i of
                None \<Rightarrow> (w, Inr ())
              | Some r \<Rightarrow> (case process lib ul env r w of (w', Inl e) \<Rightarrow> (w', Inl e) | (w', Inr s) \<Rightarrow> (w', Inr ())))"

text \<open>A batch stops at the first event that raises; \<open>envs\<close> gives the environment of each event.\<close>

fun process_batch ::
    "pylib \<Rightarrow> unicode_lib \<Rightarrow> (nat \<Rightarrow> process_env) \<Rightarrow> nat \<Rightarrow> pyval list \<Rightarrow> nlp_world \<Rightarrow> nlp_world \<times> unit res" where
  "process_batch lib ul envs n [] w = (w, Inr ())"
| "process_batch lib ul envs n (e # es) w =
     (case process_one lib ul (envs n) e w of
        (w', Inl err) \<Rightarrow> (w', Inl err)
      | (w', Inr _) \<Rightarrow> process_batch lib ul envs (Suc n) es w')"

text \<open>The path of \<open>_process_one\<close> without an embedding service.\<close>

definition process_legacy :: "pylib \<Rightarrow> unicode_lib \<Rightarrow> instant \<Rightarrow> pyval \<Rightarrow> content_db \<Rightarrow> content_db res" where
  "process_legacy lib ul now envelope db =
     bind_res (event_post lib envelope) (\<lambda>v.
     if \<not> truthy v then Inr db
     else bind_res (uuid_argument lib v) (\<lambda>i.
       case get_post db i of
         None \<Rightarrow> Inr db
       | Some r \<Rightarrow> if cr_topics r \<noteq> [] then Inr db
                   else Inr (ensure_topics now i (map ascii (infer_topics ul (cr_content r))) db)))"

section \<open>What processing changes\<close>

text \<open>
  Every row keeps its id, content and status; a row changes only by getting its first topics, which
  happens for one of the posts \<open>I\<close> at one of the instants \<open>T\<close>.
\<close>

definition row_step :: "uuid set \<Rightarrow> instant set \<Rightarrow> content_post \<Rightarrow> content_post \<Rightarrow> bool" where
  "row_step I T p q \<longleftrightarrow> q = p \<or>
     (\<exists>topics t. np_id p \<in> I \<and> t \<in> T \<and> np_topics p = [] \<and> topics \<noteq> [] \<and> q = p\<lparr>np_topics := topics, np_updated_at := t\<rparr>)"

definition evolved :: "uuid set \<Rightarrow> instant set \<Rightarrow> content_db \<Rightarrow> content_db \<Rightarrow> bool" where
  "evolved I T db db' \<longleftrightarrow> list_all2 (row_step I T) (cd_posts db) (cd_posts db') \<and> set (cd_features db) \<subseteq> set (cd_features db')"

lemma row_step_refl [simp]: "row_step I T p p"
  by (simp add: row_step_def)

lemma row_step_mono: "row_step I T p q \<Longrightarrow> I \<subseteq> I' \<Longrightarrow> T \<subseteq> T' \<Longrightarrow> row_step I' T' p q"
  unfolding row_step_def by blast

lemma row_step_trans: "row_step I T p q \<Longrightarrow> row_step I T q r \<Longrightarrow> row_step I T p r"
  unfolding row_step_def by auto

lemma row_step_keeps: "row_step I T p q \<Longrightarrow> np_id q = np_id p \<and> np_content q = np_content p \<and> np_published q = np_published p"
  by (auto simp: row_step_def)

lemma evolved_refl [simp]: "evolved I T db db"
  by (simp add: evolved_def list_all2_refl)

lemma evolved_mono: "evolved I T db db' \<Longrightarrow> I \<subseteq> I' \<Longrightarrow> T \<subseteq> T' \<Longrightarrow> evolved I' T' db db'"
  unfolding evolved_def by (auto elim!: list_all2_mono row_step_mono)

lemma evolved_trans: "evolved I T db db' \<Longrightarrow> evolved I T db' db'' \<Longrightarrow> evolved I T db db''"
  unfolding evolved_def by (intro conjI, rule list_all2_trans[of "row_step I T" "row_step I T", OF row_step_trans]) auto

lemma evolved_rows:
  assumes "evolved I T db db'" "q \<in> set (cd_posts db')"
  shows "\<exists>p\<in>set (cd_posts db). row_step I T p q"
  using assms unfolding evolved_def by (metis in_set_conv_nth list_all2_conv_all_nth)

lemma evolved_ids: "evolved I T db db' \<Longrightarrow> map np_id (cd_posts db') = map np_id (cd_posts db)"
  unfolding evolved_def by (auto simp: list_all2_conv_all_nth row_step_keeps intro!: nth_equalityI)

lemma evolved_exists: "evolved I T db db' \<Longrightarrow> feature_exists db i enc d \<Longrightarrow> feature_exists db' i enc d"
  unfolding evolved_def feature_exists_def list_ex_iff by blast

text \<open>A record read earlier: the row may have got topics since, but never lost them.\<close>

definition read_earlier :: "content_db \<Rightarrow> content_record \<Rightarrow> bool" where
  "read_earlier db r \<longleftrightarrow>
     (\<forall>p\<in>set (cd_posts db). np_id p = cr_post_id r \<longrightarrow>
        cr_content r = cr_content (record_of p) \<and> (cr_topics r \<noteq> [] \<longrightarrow> np_topics p \<noteq> []))"

lemma read_earlier_evolved:
  assumes "read_earlier db r" "evolved I T db db'"
  shows "read_earlier db' r"
  unfolding read_earlier_def
proof (intro ballI impI)
  fix q assume q: "q \<in> set (cd_posts db')" "np_id q = cr_post_id r"
  obtain p where p: "p \<in> set (cd_posts db)" "row_step I T p q" using evolved_rows[OF assms(2) q(1)] by blast
  have "np_id p = cr_post_id r" "np_content q = np_content p" "np_topics p \<noteq> [] \<longrightarrow> np_topics q \<noteq> []"
    using row_step_keeps[OF p(2)] q(2) p(2) by (auto simp: row_step_def)
  then show "cr_content r = cr_content (record_of q) \<and> (cr_topics r \<noteq> [] \<longrightarrow> np_topics q \<noteq> [])"
    using assms(1) p(1) by (simp add: read_earlier_def record_of_def)
qed

lemma ensure_topics_evolved:
  assumes "read_earlier db r" "cr_topics r = [] \<Longrightarrow> topics \<noteq> []"
  shows "evolved {cr_post_id r} {t} db (ensure_topics t (cr_post_id r) topics db)"
proof -
  have "row_step {cr_post_id r} {t} p
      (if np_id p = cr_post_id r \<and> np_topics p = [] then p\<lparr>np_topics := topics, np_updated_at := t\<rparr> else p)"
    if "p \<in> set (cd_posts db)" for p
    using assms that unfolding read_earlier_def row_step_def by auto
  then show ?thesis by (simp add: evolved_def ensure_topics_def list_all2_map2 list.rel_refl_strong)
qed

lemma insert_feature_evolved: "evolved I T db (fst (insert_feature db f))"
  by (auto simp: evolved_def insert_feature_def list_all2_refl)

lemma insert_feature_exists: "feature_exists (fst (insert_feature db f)) (pf_post_id f) (pf_encoder_version f) (pf_content_hash f)"
  by (simp add: insert_feature_def feature_exists_def)

text \<open>Inferred labels survive normalisation: what the Unicode tables promise for ASCII.\<close>

definition keeps_topics :: "unicode_lib \<Rightarrow> bool" where
  "keeps_topics ul \<longleftrightarrow>
     (\<forall>content. \<exists>topics. normalize_topics ul (map ascii (infer_topics ul content)) = Inr topics \<and> topics \<noteq> [])"

lemma topics_for_nonempty:
  assumes "keeps_topics ul" "topics_for ul r = Inr topics" "cr_topics r = []"
  shows "topics \<noteq> []"
  using assms unfolding keeps_topics_def topics_for_def by (metis sum.inject(2))

lemma store_feature_db:
  "cd_posts (nw_db (fst (store_feature env f w))) = cd_posts (nw_db w) \<and>
   set (cd_features (nw_db w)) \<subseteq> set (cd_features (nw_db (fst (store_feature env f w))))"
  by (auto simp: store_feature_def fall_back_def insert_feature_def)

lemma embed_post_evolved: "evolved I T (nw_db w) (nw_db (fst (embed_post lib ul env r topics w)))"
proof -
  have "cd_posts (nw_db (fst (embed_post lib ul env r topics w))) = cd_posts (nw_db w) \<and>
    set (cd_features (nw_db w)) \<subseteq> set (cd_features (nw_db (fst (embed_post lib ul env r topics w))))"
    using store_feature_db unfolding embed_post_def
    by (auto simp: fall_back_def split: sum.splits prod.splits)
  then show ?thesis by (simp add: evolved_def list_all2_refl)
qed

lemma process_evolved:
  assumes "keeps_topics ul" "read_earlier (nw_db w) r"
  shows "evolved {cr_post_id r} {pe_db_now env} (nw_db w) (nw_db (fst (process lib ul env r w)))"
proof (cases "topics_for ul r")
  case (Inl e)
  then show ?thesis by (simp add: process_def)
next
  case (Inr topics)
  show ?thesis
  proof (cases "pe_faults env EnsureTopics")
    case True
    then show ?thesis by (simp add: process_def Inr)
  next
    case False
    let ?w = "w\<lparr>nw_db := ensure_topics (pe_db_now env) (cr_post_id r) topics (nw_db w)\<rparr>"
    have "evolved {cr_post_id r} {pe_db_now env} (nw_db w) (nw_db ?w)"
      using ensure_topics_evolved[OF assms(2)] topics_for_nonempty[OF assms(1) Inr] by simp
    then show ?thesis
      using evolved_trans[OF _ embed_post_evolved] by (simp add: process_def Inr False)
  qed
qed

text \<open>A post is embedded when its current content has a feature of the pinned encoder.\<close>

definition has_feature :: "pylib \<Rightarrow> unicode_lib \<Rightarrow> content_db \<Rightarrow> uuid \<Rightarrow> unicode \<Rightarrow> bool" where
  "has_feature lib ul db i content \<longleftrightarrow>
     (\<exists>normalized digest. digest_of lib ul content = Inr (normalized, digest) \<and> feature_exists db i ENCODER_VERSION digest)"

lemma has_feature_evolved: "evolved I T db db' \<Longrightarrow> has_feature lib ul db i c \<Longrightarrow> has_feature lib ul db' i c"
  using evolved_exists unfolding has_feature_def by blast

lemma process_embeds:
  assumes "process lib ul env r w = (w', Inr s)" "s \<noteq> Fallback"
  shows "has_feature lib ul (nw_db w') (cr_post_id r) (cr_content r)"
  using assms insert_feature_exists[of "nw_db _"]
  unfolding process_def embed_post_def store_feature_def has_feature_def
  by (auto simp: fall_back_def feature_exists_def insert_feature_def split: sum.splits if_splits)

lemma process_sets_topics:
  assumes "process lib ul env r w = (w', Inr s)" "keeps_topics ul" "read_earlier (nw_db w) r"
    and "p \<in> set (cd_posts (nw_db w'))" "np_id p = cr_post_id r"
  shows "np_topics p \<noteq> []"
proof -
  obtain topics where t: "topics_for ul r = Inr topics" "\<not> pe_faults env EnsureTopics"
    using assms(1) by (auto simp: process_def split: sum.splits if_splits)
  let ?w = "w\<lparr>nw_db := ensure_topics (pe_db_now env) (cr_post_id r) topics (nw_db w)\<rparr>"
  have "evolved {} {} (nw_db ?w) (nw_db w')"
    using embed_post_evolved[of "{}" "{}" ?w lib ul env r topics] assms(1) by (simp add: process_def t)
  then obtain q where q: "q \<in> set (cd_posts (nw_db ?w))" "p = q"
    using evolved_rows[OF _ assms(4)] by (fastforce simp: row_step_def)
  then obtain q0 where "q0 \<in> set (cd_posts (nw_db w))"
    "q = (if np_id q0 = cr_post_id r \<and> np_topics q0 = [] then q0\<lparr>np_topics := topics, np_updated_at := pe_db_now env\<rparr> else q0)"
    by (auto simp: ensure_topics_def)
  then show ?thesis
    using assms(3,5) topics_for_nonempty[OF assms(2) t(1)] q(2) by (auto simp: read_earlier_def split: if_splits)
qed

section \<open>Stored features are well formed\<close>

definition topics_wf :: "unicode list \<Rightarrow> bool" where
  "topics_wf topics \<longleftrightarrow>
     distinct topics \<and> sorted (map utf8_encode topics) \<and> length topics \<le> 32 \<and> (\<forall>t\<in>set topics. t \<noteq> [] \<and> length t \<le> 64)"

lemma normalize_topics_wf:
  assumes "normalize_topics ul values = Inr topics"
  shows "topics_wf topics"
proof -
  let ?step = "\<lambda>normalized value. let label = normalize_topic ul value in
         if label = [] then Inr normalized
         else if length label > 64 then Inl (ValueError ''topic label exceeds 64 Unicode characters'')
         else Inr (if label \<in> set normalized then normalized else normalized @ [label])"
  obtain ls where ls: "fold_res ?step [] values = Inr ls" "length ls \<le> 32" "topics = sort_key utf8_encode ls"
    using assms by (auto simp: normalize_topics_def split: if_splits)
  have "distinct ls \<and> (\<forall>t\<in>set ls. t \<noteq> [] \<and> length t \<le> 64)"
    by (rule fold_res_invariant[OF ls(1)]) (auto simp: Let_def split: if_splits)
  then show ?thesis using ls by (simp add: topics_wf_def)
qed

definition feature_wf :: "pylib \<Rightarrow> unicode_lib \<Rightarrow> post_feature \<Rightarrow> bool" where
  "feature_wf lib ul f \<longleftrightarrow>
     pf_schema_version f = SCHEMA_VERSION \<and> pf_encoder_version f = ENCODER_VERSION \<and> pf_normalization_version f = CONTENT_HASH_VERSION \<and>
     length (pf_embedding f) = EMBEDDING_DIMENSION \<and> \<bar>euclidean_norm (pf_embedding f) - 1\<bar> \<le> 1 / 1000 \<and>
     topics_wf (pf_normalized_topics f) \<and> pf_source_updated_at f \<le> pf_computed_at f \<and>
     (\<exists>content normalized. digest_of lib ul content = Inr (normalized, pf_content_hash f))"

definition feature_key_of :: "post_feature \<Rightarrow> uuid \<times> string \<times> string" where
  "feature_key_of f = (pf_post_id f, pf_encoder_version f, pf_content_hash f)"

definition content_db_ok :: "pylib \<Rightarrow> unicode_lib \<Rightarrow> content_db \<Rightarrow> bool" where
  "content_db_ok lib ul db \<longleftrightarrow>
     distinct (map np_id (cd_posts db)) \<and> distinct (map feature_key_of (cd_features db)) \<and>
     list_all (feature_wf lib ul) (cd_features db)"

lemma insert_feature_ok:
  assumes "content_db_ok lib ul db" "feature_wf lib ul f"
  shows "content_db_ok lib ul (fst (insert_feature db f))"
  using assms by (auto simp: content_db_ok_def insert_feature_def feature_exists_def feature_key_of_def list_ex_iff)

lemma store_feature_ok:
  assumes "content_db_ok lib ul (nw_db w)" "feature_wf lib ul f"
  shows "content_db_ok lib ul (nw_db (fst (store_feature env f w)))"
  using assms(1) insert_feature_ok[OF assms] by (auto simp: store_feature_def fall_back_def split: prod.splits)

lemma embed_post_ok:
  assumes "content_db_ok lib ul (nw_db w)" "topics_wf topics"
  shows "content_db_ok lib ul (nw_db (fst (embed_post lib ul env r topics w)))"
proof (cases "digest_of lib ul (cr_content r)")
  case (Inl e)
  then show ?thesis using assms(1) by (simp add: embed_post_def fall_back_def)
next
  case (Inr nd)
  obtain normalized digest where nd: "nd = (normalized, digest)" by fastforce
  show ?thesis
  proof (cases "bind_res (pe_encode env normalized) validate_embedding")
    case (Inl e)
    then show ?thesis using assms(1) by (simp add: embed_post_def fall_back_def Inr nd)
  next
    case emb: (Inr embedding)
    let ?f = "\<lparr>pf_schema_version = SCHEMA_VERSION, pf_post_id = cr_post_id r, pf_encoder_version = ENCODER_VERSION,
        pf_normalization_version = CONTENT_HASH_VERSION, pf_content_hash = digest, pf_embedding = embedding,
        pf_normalized_topics = topics, pf_source_updated_at = cr_updated_at r, pf_computed_at = pe_clock env\<rparr>"
    have e: "length embedding = EMBEDDING_DIMENSION" "\<bar>euclidean_norm embedding - 1\<bar> \<le> 1 / 1000"
      using emb by (auto simp: validate_embedding_def split: if_splits)
    have "feature_wf lib ul ?f" if "\<not> cr_updated_at r > pe_clock env"
      using that e assms(2) Inr nd by (auto simp: feature_wf_def)
    then show ?thesis
      using assms(1) store_feature_ok[OF assms(1), of ?f env]
      by (simp add: embed_post_def fall_back_def Inr nd emb)
  qed
qed

lemma process_ok:
  assumes "content_db_ok lib ul (nw_db w)"
  shows "content_db_ok lib ul (nw_db (fst (process lib ul env r w)))"
proof (cases "topics_for ul r")
  case (Inr topics)
  have "content_db_ok lib ul (ensure_topics now i ts db) = content_db_ok lib ul db" for now i ts db
  proof -
    have "map np_id (cd_posts (ensure_topics now i ts db)) = map np_id (cd_posts db)" by (simp add: ensure_topics_def)
    moreover have "cd_features (ensure_topics now i ts db) = cd_features db" by (simp add: ensure_topics_def)
    ultimately show ?thesis by (simp add: content_db_ok_def)
  qed
  moreover have "topics_wf topics" using normalize_topics_wf Inr by (auto simp: topics_for_def)
  ultimately show ?thesis
    using assms embed_post_ok[of lib ul "w\<lparr>nw_db := ensure_topics (pe_db_now env) (cr_post_id r) topics (nw_db w)\<rparr>"]
    by (simp add: process_def Inr)
qed (simp add: process_def assms)

section \<open>The consumer\<close>

record nlp_run =
  nc_position :: nat
  nc_committed :: nat
  nc_batch :: "pyval micro_batch"
  nc_world :: nlp_world

text \<open>Reconnecting loses the buffer and resumes at the committed offset.\<close>

definition reconnected :: "real \<Rightarrow> nlp_run \<Rightarrow> nlp_run" where
  "reconnected t st = st\<lparr>nc_position := nc_committed st, nc_batch := mb_touch (mb_replace (nc_batch st) []) t\<rparr>"

inductive nlp_step :: "pylib \<Rightarrow> unicode_lib \<Rightarrow> pyval option list \<Rightarrow> nlp_run \<Rightarrow> nlp_run \<Rightarrow> bool"
  for lib ul part where
  polled: "nc_position st + k \<le> length part \<Longrightarrow>
    nlp_step lib ul part st
      (st\<lparr>nc_position := nc_position st + k,
          nc_batch := mb_extend_records (nc_batch st) [((), take k (drop (nc_position st) part))]\<rparr>)"
| acknowledged: "\<lbrakk>mb_ready (nc_batch st) tick; mb_drain (nc_batch st) tick = (events, batch);
    process_batch lib ul envs 0 events (nc_world st) = (w, Inr ())\<rbrakk> \<Longrightarrow>
    nlp_step lib ul part st (st\<lparr>nc_batch := batch, nc_world := w, nc_committed := nc_position st\<rparr>)"
| commit_failed: "\<lbrakk>mb_ready (nc_batch st) tick; mb_drain (nc_batch st) tick = (events, batch);
    process_batch lib ul envs 0 events (nc_world st) = (w, Inr ())\<rbrakk> \<Longrightarrow>
    nlp_step lib ul part st (reconnected t (st\<lparr>nc_world := w\<rparr>))"
| batch_raised: "\<lbrakk>mb_drain (nc_batch st) tick = (events, batch);
    process_batch lib ul envs 0 events (nc_world st) = (w, Inl e)\<rbrakk> \<Longrightarrow>
    nlp_step lib ul part st (reconnected t (st\<lparr>nc_world := w\<rparr>))"
| crashed: "nlp_step lib ul part st (reconnected t st)"

inductive_cases nlp_stepE: "nlp_step lib ul part st st'"

inductive nlp_reachable :: "pylib \<Rightarrow> unicode_lib \<Rightarrow> pyval option list \<Rightarrow> nlp_run \<Rightarrow> nlp_run \<Rightarrow> bool"
  for lib ul part st0 where
  nlp_start: "nlp_reachable lib ul part st0 st0"
| nlp_more: "nlp_reachable lib ul part st0 st \<Longrightarrow> nlp_step lib ul part st st' \<Longrightarrow> nlp_reachable lib ul part st0 st'"

text \<open>An event is handled when its post, if there is one, has topics.\<close>

definition handled :: "pylib \<Rightarrow> content_db \<Rightarrow> pyval \<Rightarrow> bool" where
  "handled lib db e \<longleftrightarrow>
     (case event_post lib e of
        Inl _ \<Rightarrow> False
      | Inr v \<Rightarrow> \<not> truthy v \<or>
          (case uuid_argument lib v of
             Inl _ \<Rightarrow> False | Inr i \<Rightarrow> list_all (\<lambda>p. np_id p = i \<longrightarrow> np_topics p \<noteq> []) (cd_posts db)))"

lemma handled_evolved:
  assumes "handled lib db e" "evolved I T db db'"
  shows "handled lib db' e"
proof -
  have "np_topics q \<noteq> []" if all: "\<And>p. p \<in> set (cd_posts db) \<Longrightarrow> np_id p = i \<Longrightarrow> np_topics p \<noteq> []"
    and q: "q \<in> set (cd_posts db')" "np_id q = i" for i q
  proof -
    obtain p where p: "p \<in> set (cd_posts db)" "row_step I T p q" using evolved_rows[OF assms(2) q(1)] by blast
    have "np_id p = i" using row_step_keeps[OF p(2)] q(2) by simp
    with all[OF p(1)] p(2) show ?thesis by (auto simp: row_step_def)
  qed
  note keep = this
  show ?thesis
  proof (cases "event_post lib e")
    case (Inr v)
    then show ?thesis
    proof (cases "uuid_argument lib v")
      case i: (Inr i)
      show ?thesis using assms(1) keep[of i] unfolding handled_def Inr i sum.case list_all_iff by blast
    qed (use assms(1) in \<open>simp add: handled_def\<close>)
  qed (use assms(1) in \<open>simp add: handled_def\<close>)
qed

lemma get_post_read:
  assumes "distinct (map np_id (cd_posts db))" "get_post db i = Some r"
  shows "read_earlier db r" "cr_post_id r = i"
proof -
  obtain p where p: "find (\<lambda>p. np_id p = i) (cd_posts db) = Some p" "r = record_of p"
    using assms(2) by (auto simp: get_post_def)
  then have "p \<in> set (cd_posts db)" "np_id p = i" by (auto simp: find_Some_iff)
  then have "q = p" if "q \<in> set (cd_posts db)" "np_id q = i" for q
    using assms(1) that by (metis distinct_map inj_onD)
  then show "read_earlier db r" "cr_post_id r = i"
    using \<open>np_id p = i\<close> by (auto simp: read_earlier_def p(2) record_of_def)
qed

lemma get_post_None: "get_post db i = None \<longleftrightarrow> (\<forall>p\<in>set (cd_posts db). np_id p \<noteq> i)"
  by (auto simp: get_post_def find_None_iff)

lemma process_one_cases:
  assumes "process_one lib ul env e w = (w', res)"
  obtains (untouched) "w' = w" "res = Inr () \<Longrightarrow> handled lib (nw_db w) e"
  | (processed) v i r where "event_post lib e = Inr v" "uuid_argument lib v = Inr i" "get_post (nw_db w) i = Some r"
      "w' = fst (process lib ul env r w)" "res = map_sum id (\<lambda>_. ()) (snd (process lib ul env r w))"
proof (cases "event_post lib e")
  case (Inl err)
  then show ?thesis using assms by (intro untouched) (auto simp: process_one_def)
next
  case v: (Inr v)
  show ?thesis
  proof (cases "truthy v")
    case False
    then show ?thesis using assms v by (intro untouched) (auto simp: process_one_def handled_def)
  next
    case t: True
    show ?thesis
    proof (cases "uuid_argument lib v")
      case (Inl err)
      then show ?thesis using assms v t by (intro untouched) (auto simp: process_one_def)
    next
      case i: (Inr i)
      show ?thesis
      proof (cases "pe_faults env GetPost \<or> get_post (nw_db w) i = None")
        case True
        then show ?thesis using assms v t i
          by (intro untouched) (auto simp: process_one_def handled_def list_all_iff split: if_splits dest: get_post_None[THEN iffD1])
      next
        case False
        then obtain r where "\<not> pe_faults env GetPost" "get_post (nw_db w) i = Some r" by auto
        then show ?thesis using assms v t i
          by (intro processed[of v i r]) (auto simp: process_one_def split: prod.splits sum.splits)
      qed
    qed
  qed
qed

lemma process_one_db:
  assumes "process_one lib ul env e w = (w', res)" "keeps_topics ul" "content_db_ok lib ul (nw_db w)"
  shows "evolved UNIV UNIV (nw_db w) (nw_db w')" "content_db_ok lib ul (nw_db w')"
    "res = Inr () \<Longrightarrow> handled lib (nw_db w') e"
proof -
  have "evolved UNIV UNIV (nw_db w) (nw_db w') \<and> content_db_ok lib ul (nw_db w') \<and> (res = Inr () \<longrightarrow> handled lib (nw_db w') e)"
    using assms(1)
  proof (cases rule: process_one_cases)
    case untouched
    then show ?thesis using assms(3) by simp
  next
    case (processed v i r)
    have d: "distinct (map np_id (cd_posts (nw_db w)))" using assms(3) by (simp add: content_db_ok_def)
    note r = get_post_read[OF d processed(3)]
    have "handled lib (nw_db w') e" if ok: "res = Inr ()"
    proof -
      obtain s where s: "process lib ul env r w = (w', Inr s)"
        using processed(4,5) ok by (cases "process lib ul env r w"; cases "snd (process lib ul env r w)") auto
      show ?thesis
        using process_sets_topics[OF s assms(2) r(1)] r(2) processed(1,2) unfolding handled_def list_all_iff by auto
    qed
    then show ?thesis
      using evolved_mono[OF process_evolved[OF assms(2) r(1), of env lib] subset_UNIV subset_UNIV]
        process_ok[OF assms(3), of env r] unfolding processed(4) by simp
  qed
  then show "evolved UNIV UNIV (nw_db w) (nw_db w')" "content_db_ok lib ul (nw_db w')" "res = Inr () \<Longrightarrow> handled lib (nw_db w') e"
    by blast+
qed

lemma process_batch_db:
  assumes "process_batch lib ul envs n es w = (w', res)" "keeps_topics ul" "content_db_ok lib ul (nw_db w)"
  shows "evolved UNIV UNIV (nw_db w) (nw_db w') \<and> content_db_ok lib ul (nw_db w') \<and>
    (res = Inr () \<longrightarrow> (\<forall>e\<in>set es. handled lib (nw_db w') e))"
  using assms
proof (induction es arbitrary: n w)
  case (Cons e es)
  obtain w1 r1 where one: "process_one lib ul (envs n) e w = (w1, r1)" by fastforce
  note db = process_one_db[OF one Cons.prems(2,3)]
  show ?case
  proof (cases r1)
    case (Inl err)
    then show ?thesis using Cons.prems(1) one db by auto
  next
    case (Inr u)
    then have rest: "process_batch lib ul envs (Suc n) es w1 = (w', res)" using Cons.prems(1) one by simp
    from Cons.IH[OF rest Cons.prems(2) db(2)] db handled_evolved[OF db(3)] evolved_trans[OF db(1)]
    show ?thesis using Inr by auto
  qed
qed simp

definition nlp_inv :: "pylib \<Rightarrow> unicode_lib \<Rightarrow> pyval option list \<Rightarrow> nlp_run \<Rightarrow> bool" where
  "nlp_inv lib ul part st \<longleftrightarrow>
     content_db_ok lib ul (nw_db (nc_world st)) \<and> nc_committed st \<le> nc_position st \<and> nc_position st \<le> length part \<and>
     (\<forall>e. Some e \<in> set (take (nc_committed st) part) \<longrightarrow> handled lib (nw_db (nc_world st)) e) \<and>
     (\<forall>e. Some e \<in> set (take (nc_position st) part) \<longrightarrow>
        handled lib (nw_db (nc_world st)) e \<or> e \<in> set (buffered (nc_batch st)))"

lemma nlp_inv_world:
  assumes "nlp_inv lib ul part st" "evolved UNIV UNIV (nw_db (nc_world st)) (nw_db w)" "content_db_ok lib ul (nw_db w)"
  shows "nlp_inv lib ul part (st\<lparr>nc_world := w\<rparr>)"
  using assms handled_evolved[OF _ assms(2)] unfolding nlp_inv_def by auto

lemma nlp_inv_reconnected: "nlp_inv lib ul part st \<Longrightarrow> nlp_inv lib ul part (reconnected t st)"
  by (auto simp: nlp_inv_def reconnected_def)

lemma nlp_inv_step:
  assumes "nlp_step lib ul part st st'" "keeps_topics ul" "nlp_inv lib ul part st"
  shows "nlp_inv lib ul part st' \<and> evolved UNIV UNIV (nw_db (nc_world st)) (nw_db (nc_world st'))"
  using assms(1)
proof (cases rule: nlp_step.cases)
  case (polled k)
  let ?new = "take k (drop (nc_position st) part)"
  have take: "take (nc_position st + k) part = take (nc_position st) part @ ?new" by (simp add: take_add)
  have "set (List.map_filter id ?new) = {e. Some e \<in> set ?new}" by (force simp: List.map_filter_def)
  then show ?thesis using assms(3) polled by (auto simp: nlp_inv_def buffered_extend_records take)
next
  case (acknowledged tick events batch envs w)
  have ok: "content_db_ok lib ul (nw_db (nc_world st))" using assms(3) by (simp add: nlp_inv_def)
  note db = process_batch_db[OF acknowledged(4) assms(2) ok]
  have ev: "events = buffered (nc_batch st)" using acknowledged(3) by (simp add: mb_drain_def)
  have "handled lib (nw_db w) e" if "Some e \<in> set (take (nc_position st) part)" for e
    using assms(3) that db handled_evolved ev unfolding nlp_inv_def by blast
  then show ?thesis using assms(3) db acknowledged(1) by (auto simp: nlp_inv_def)
next
  case (commit_failed tick events batch envs w t)
  have ok: "content_db_ok lib ul (nw_db (nc_world st))" using assms(3) by (simp add: nlp_inv_def)
  note db = process_batch_db[OF commit_failed(4) assms(2) ok]
  have "nlp_inv lib ul part (reconnected t (st\<lparr>nc_world := w\<rparr>))"
    by (rule nlp_inv_reconnected[OF nlp_inv_world[OF assms(3)]]) (use db in auto)
  then show ?thesis using db commit_failed(1) by (simp add: reconnected_def)
next
  case (batch_raised tick events batch envs w e t)
  have ok: "content_db_ok lib ul (nw_db (nc_world st))" using assms(3) by (simp add: nlp_inv_def)
  note db = process_batch_db[OF batch_raised(3) assms(2) ok]
  have "nlp_inv lib ul part (reconnected t (st\<lparr>nc_world := w\<rparr>))"
    by (rule nlp_inv_reconnected[OF nlp_inv_world[OF assms(3)]]) (use db in auto)
  then show ?thesis using db batch_raised(1) by (simp add: reconnected_def)
next
  case (crashed t)
  then show ?thesis using nlp_inv_reconnected[OF assms(3)] by (simp add: reconnected_def)
qed

lemma nlp_inv_reachable:
  assumes "nlp_reachable lib ul part st0 st" "keeps_topics ul" "nlp_inv lib ul part st0"
  shows "nlp_inv lib ul part st \<and> evolved UNIV UNIV (nw_db (nc_world st0)) (nw_db (nc_world st))"
  using assms by (induction rule: nlp_reachable.induct) (auto dest!: nlp_inv_step intro: evolved_trans)

definition nlp_begin :: "pyval micro_batch \<Rightarrow> nlp_world \<Rightarrow> nlp_run" where
  "nlp_begin b w = \<lparr>nc_position = 0, nc_committed = 0, nc_batch = mb_replace b [], nc_world = w\<rparr>"

lemma nlp_inv_begin: "content_db_ok lib ul (nw_db w) \<Longrightarrow> nlp_inv lib ul part (nlp_begin b w)"
  by (simp add: nlp_inv_def nlp_begin_def)


text \<open>
  C39. No content event is acknowledged before it is handled: in every state the consumer reaches, under
  any interleaving of polls, batches, failing calls, failing commits and reconnections, the post of each
  committed event has topics, and posts never lose topics or features.
\<close>

theorem committed_posts_have_topics:
  assumes "nlp_reachable lib ul part (nlp_begin b w) st" "keeps_topics ul" "content_db_ok lib ul (nw_db w)"
    and "i < nc_committed st" "part ! i = Some e"
  shows "handled lib (nw_db (nc_world st)) e \<and>
    set (cd_features (nw_db w)) \<subseteq> set (cd_features (nw_db (nc_world st)))"
proof -
  note inv = nlp_inv_reachable[OF assms(1,2) nlp_inv_begin[OF assms(3)]]
  have "i < length (take (nc_committed st) part)" using inv assms(4) by (simp add: nlp_inv_def)
  then have "Some e \<in> set (take (nc_committed st) part)" using assms(4,5) by (metis nth_mem nth_take)
  then show ?thesis using inv by (auto simp: nlp_inv_def evolved_def nlp_begin_def)
qed

section \<open>Without faults\<close>

lemma digest_of_value_error: "digest_of lib ul content = Inl e \<Longrightarrow> is_value_error e"
  by (auto simp: digest_of_def content_hash_def normalize_content_def Let_def bind_res_Inl split: if_splits)

lemma embed_post_answers:
  assumes "\<not> pe_faults env FeatureExists"
  shows "\<exists>w' s. embed_post lib ul env r topics w = (w', Inr s)"
  using assms digest_of_value_error[of lib ul "cr_content r"]
  by (auto simp: embed_post_def store_feature_def fall_back_def split: sum.splits prod.splits)

lemma process_answers:
  assumes "\<not> pe_faults env EnsureTopics" "\<not> pe_faults env FeatureExists" "topics_for ul r = Inr topics"
  shows "\<exists>w' s. process lib ul env r w = (w', Inr s)"
  using assms embed_post_answers[OF assms(2)] by (simp add: process_def)

definition demo_nlp_env :: process_env where
  "demo_nlp_env = \<lparr>pe_db_now = 1, pe_clock = 1, pe_encode = (\<lambda>_. Inl (RuntimeError ''embedding inference is disabled'')), pe_faults = (\<lambda>_. False)\<rparr>"

definition demo_content_world :: nlp_world where
  "demo_content_world = \<lparr>nw_db = \<lparr>cd_posts = [\<lparr>np_id = 5, np_content = Some (ascii ''gpt''), np_topics = [], np_updated_at = 0, np_published = True\<rparr>],
     cd_features = []\<rparr>, nw_metrics = \<lparr>nm_outcomes = [], nm_failures = [], nm_missing = False\<rparr>\<rparr>"

definition demo_content_event :: pyval where
  "demo_content_event = VMap [(''data'', VMap [(''post_id'', VStr (str_uuid 5))])]"

definition demo_content_batch :: "pyval micro_batch" where
  "demo_content_batch = \<lparr>batch_size = 1, flush_interval_seconds = 5, buffered = [], last_flush = 0\<rparr>"

lemma ascii_keeps_topics: "keeps_topics ascii_lib"
  unfolding keeps_topics_def using ascii_topics_kept by blast

lemma demo_content_ok: "content_db_ok lib ul (nw_db demo_content_world)"
  by (simp add: content_db_ok_def demo_content_world_def)

lemma str_uuid_nonempty [simp]: "str_uuid u \<noteq> []"
  by (simp add: str_uuid_def Let_def)

text \<open>One event, processed with the encoder disabled, and committed.\<close>

lemma demo_content_run:
  "\<exists>st. nlp_reachable clock_lib ascii_lib [Some demo_content_event] (nlp_begin demo_content_batch demo_content_world) st \<and>
     nc_committed st = 1"
proof -
  let ?st0 = "nlp_begin demo_content_batch demo_content_world"
  let ?st1 = "?st0\<lparr>nc_position := 1, nc_batch := mb_extend_records (nc_batch ?st0) [((), [Some demo_content_event])]\<rparr>"
  let ?r = "\<lparr>cr_post_id = 5, cr_content = ascii ''gpt'', cr_topics = [], cr_updated_at = 0\<rparr>"
  obtain topics where t: "topics_for ascii_lib ?r = Inr topics"
    using ascii_topics_kept[of "ascii ''gpt''"] by (auto simp: topics_for_def)
  obtain w s where p: "process clock_lib ascii_lib demo_nlp_env ?r demo_content_world = (w, Inr s)"
    using process_answers[OF _ _ t, of demo_nlp_env] by (fastforce simp: demo_nlp_env_def)
  have "nlp_step clock_lib ascii_lib [Some demo_content_event] ?st0 ?st1"
    using nlp_step.polled[of ?st0 1 "[Some demo_content_event]" clock_lib ascii_lib] by (simp add: nlp_begin_def)
  moreover have "nlp_step clock_lib ascii_lib [Some demo_content_event] ?st1
      (?st1\<lparr>nc_batch := snd (mb_drain (nc_batch ?st1) 0), nc_world := w, nc_committed := nc_position ?st1\<rparr>)"
  proof (rule nlp_step.acknowledged)
    show "mb_ready (nc_batch ?st1) 0"
      by (simp add: mb_ready_def buffered_extend_records nlp_begin_def mb_replace_def demo_content_batch_def List.map_filter_def)
    show "mb_drain (nc_batch ?st1) 0 = ([demo_content_event], snd (mb_drain (nc_batch ?st1) 0))"
      by (simp add: mb_drain_def buffered_extend_records nlp_begin_def mb_replace_def demo_content_batch_def List.map_filter_def)
    have "get_post (nw_db demo_content_world) 5 = Some ?r" by (simp add: get_post_def record_of_def demo_content_world_def)
    then show "process_batch clock_lib ascii_lib (\<lambda>_. demo_nlp_env) 0 [demo_content_event] (nc_world ?st1) = (w, Inr ())"
      using p by (simp add: process_one_def event_post_def demo_content_event_def vget_def uuid_argument_def uuid_of_str_uuid
          demo_nlp_env_def nlp_begin_def)
  qed
  ultimately have "nlp_reachable clock_lib ascii_lib [Some demo_content_event] ?st0
      (?st1\<lparr>nc_batch := snd (mb_drain (nc_batch ?st1) 0), nc_world := w, nc_committed := nc_position ?st1\<rparr>)"
    by (meson nlp_start nlp_more)
  then show ?thesis by (intro exI conjI) (assumption, simp add: nlp_begin_def)
qed


theorem committed_posts_have_topics_witness:
  "\<exists>st. nlp_reachable clock_lib ascii_lib [Some demo_content_event] (nlp_begin demo_content_batch demo_content_world) st \<and>
     handled clock_lib (nw_db (nc_world st)) demo_content_event"
proof -
  obtain st where st: "nlp_reachable clock_lib ascii_lib [Some demo_content_event] (nlp_begin demo_content_batch demo_content_world) st"
    "nc_committed st = 1" using demo_content_run by blast
  have "handled clock_lib (nw_db (nc_world st)) demo_content_event"
    using committed_posts_have_topics[OF st(1) ascii_keeps_topics demo_content_ok, of 0 demo_content_event] st(2) by simp
  with st(1) show ?thesis by blast
qed

end
