(* ===== verification/EmbeddingRebuild.thy ===== *)
theory EmbeddingRebuild
  imports EmbeddingWorker
begin

text \<open>
  \<open>workers/nlp_worker/app/rebuild.py\<close>: \<open>BatchRebuilder.run\<close> pages through the published posts by the key
  (updated_at, id), retries each post, and saves a checkpoint after every page without a failure. Setting
  the first topics of a post moves it to the end of the key order, so a page can bring posts back. The
  attempts are sequential (the default concurrency of one); \<open>envs n\<close> is the environment of the n-th. The
  checkpoint file is a component of the state. The theorems: the checkpoint never passes a post without
  a feature, and a fair environment lets the rebuild finish with every post embedded.
\<close>

section \<open>Pages\<close>

type_synonym cursor = "instant \<times> uuid"

definition post_key :: "content_post \<Rightarrow> cursor" where
  "post_key p = (np_updated_at p, np_id p)"

definition after_cursor :: "cursor option \<Rightarrow> content_post \<Rightarrow> bool" where
  "after_cursor cursor p \<longleftrightarrow> (case cursor of None \<Rightarrow> True | Some c \<Rightarrow> c < post_key p)"

definition page_rows :: "content_db \<Rightarrow> cursor option \<Rightarrow> nat \<Rightarrow> content_post list" where
  "page_rows db cursor limit =
     take limit (sort_key post_key (filter (\<lambda>p. np_published p \<and> after_cursor cursor p) (cd_posts db)))"

definition fetch_batch :: "content_db \<Rightarrow> cursor option \<Rightarrow> nat \<Rightarrow> content_record list \<times> cursor option" where
  "fetch_batch db cursor limit =
     (let rows = page_rows db cursor limit in
      (map record_of rows, if rows = [] then None else Some (post_key (last rows))))"

section \<open>Attempts\<close>

text \<open>The result is \<open>None\<close> when the last attempt raised; \<open>retries\<close> attempts are left after this one.\<close>

fun process_with_retries ::
    "pylib \<Rightarrow> unicode_lib \<Rightarrow> (nat \<Rightarrow> process_env) \<Rightarrow> nat \<Rightarrow> content_record \<Rightarrow> nlp_world \<Rightarrow> nat \<Rightarrow>
     nlp_world \<times> nat \<times> process_status option" where
  "process_with_retries lib ul envs 0 r w n =
     (case process lib ul (envs n) r w of
        (w', Inr s) \<Rightarrow> (w', Suc n, Some s) | (w', Inl _) \<Rightarrow> (w', Suc n, None))"
| "process_with_retries lib ul envs (Suc retries) r w n =
     (case process lib ul (envs n) r w of
        (w', Inr s) \<Rightarrow> if s \<noteq> Fallback then (w', Suc n, Some s) else process_with_retries lib ul envs retries r w' (Suc n)
      | (w', Inl _) \<Rightarrow> process_with_retries lib ul envs retries r w' (Suc n))"

fun process_page ::
    "pylib \<Rightarrow> unicode_lib \<Rightarrow> (nat \<Rightarrow> process_env) \<Rightarrow> nat \<Rightarrow> content_record list \<Rightarrow> nlp_world \<Rightarrow> nat \<Rightarrow>
     nlp_world \<times> nat \<times> process_status option list" where
  "process_page lib ul envs retries [] w n = (w, n, [])"
| "process_page lib ul envs retries (r # rs) w n =
     (let (w1, n1, s) = process_with_retries lib ul envs retries r w n;
          (w2, n2, ss) = process_page lib ul envs retries rs w1 n1 in (w2, n2, s # ss))"

record rebuild_counts =
  rb_processed :: nat
  rb_created :: nat
  rb_unchanged :: nat
  rb_fallback :: nat
  rb_failed :: nat

definition count_result :: "rebuild_counts \<Rightarrow> process_status option \<Rightarrow> rebuild_counts" where
  "count_result c s =
     (let c = c\<lparr>rb_processed := Suc (rb_processed c)\<rparr> in
      case s of
        None \<Rightarrow> c\<lparr>rb_failed := Suc (rb_failed c)\<rparr>
      | Some Created \<Rightarrow> c\<lparr>rb_created := Suc (rb_created c)\<rparr>
      | Some Unchanged \<Rightarrow> c\<lparr>rb_unchanged := Suc (rb_unchanged c)\<rparr>
      | Some Fallback \<Rightarrow> c\<lparr>rb_fallback := Suc (rb_fallback c), rb_failed := Suc (rb_failed c)\<rparr>)"

definition embedded_result :: "process_status option \<Rightarrow> bool" where
  "embedded_result s \<longleftrightarrow> s \<noteq> None \<and> s \<noteq> Some Fallback"

section \<open>The loop\<close>

record rebuild_config =
  rc_batch_size :: nat
  rc_max_retries :: nat

record rebuild_state =
  rs_world :: nlp_world
  rs_calls :: nat
  rs_checkpoint :: "cursor option"
  rs_counts :: rebuild_counts

fun rebuild_loop ::
    "nat \<Rightarrow> pylib \<Rightarrow> unicode_lib \<Rightarrow> (nat \<Rightarrow> process_env) \<Rightarrow> rebuild_config \<Rightarrow> cursor option \<Rightarrow> rebuild_state \<Rightarrow>
     rebuild_state option" where
  "rebuild_loop 0 lib ul envs cfg cursor st = None"
| "rebuild_loop (Suc fuel) lib ul envs cfg cursor st =
     (let (posts, next_cursor) = fetch_batch (nw_db (rs_world st)) cursor (rc_batch_size cfg) in
      if posts = [] then Some st
      else
        let (w, n, results) = process_page lib ul envs (rc_max_retries cfg) posts (rs_world st) (rs_calls st);
            st = st\<lparr>rs_world := w, rs_calls := n, rs_counts := foldl count_result (rs_counts st) results\<rparr> in
        if \<not> list_all embedded_result results then Some st
        else case next_cursor of
          None \<Rightarrow> Some st
        | Some c \<Rightarrow> rebuild_loop fuel lib ul envs cfg (Some c) (st\<lparr>rs_checkpoint := Some c\<rparr>))"

definition rebuild_run ::
    "nat \<Rightarrow> pylib \<Rightarrow> unicode_lib \<Rightarrow> (nat \<Rightarrow> process_env) \<Rightarrow> rebuild_config \<Rightarrow> cursor option \<Rightarrow> nlp_world \<Rightarrow> rebuild_state option" where
  "rebuild_run fuel lib ul envs cfg checkpoint w =
     rebuild_loop fuel lib ul envs cfg checkpoint
       \<lparr>rs_world = w, rs_calls = 0, rs_checkpoint = checkpoint,
        rs_counts = \<lparr>rb_processed = 0, rb_created = 0, rb_unchanged = 0, rb_fallback = 0, rb_failed = 0\<rparr>\<rparr>"

section \<open>What a page does\<close>

definition current_content :: "content_post \<Rightarrow> unicode" where
  "current_content p = cr_content (record_of p)"

definition stamps :: "(nat \<Rightarrow> process_env) \<Rightarrow> nat \<Rightarrow> nat \<Rightarrow> instant set" where
  "stamps envs n m = (\<lambda>k. pe_db_now (envs k)) ` {n..<m}"

lemma stamps_mono: "n' \<le> n \<Longrightarrow> m \<le> m' \<Longrightarrow> stamps envs n m \<subseteq> stamps envs n' m'"
  by (auto simp: stamps_def)

lemma process_with_retries_step:
  assumes "process_with_retries lib ul envs retries r w n = (w', n', s)" "keeps_topics ul" "read_earlier (nw_db w) r"
  shows "n < n' \<and> evolved {cr_post_id r} (stamps envs n n') (nw_db w) (nw_db w') \<and>
    (embedded_result s \<longrightarrow> has_feature lib ul (nw_db w') (cr_post_id r) (cr_content r))"
  using assms
proof (induction retries arbitrary: w n)
  case 0
  then show ?case
    using process_evolved[OF 0(2,3), of "envs n" lib] process_embeds[of lib ul "envs n" r w]
    by (cases "process lib ul (envs n) r w") (auto simp: stamps_def embedded_result_def split: sum.splits)
next
  case (Suc retries)
  obtain w1 res where p: "process lib ul (envs n) r w = (w1, res)" by fastforce
  have e1: "evolved {cr_post_id r} {pe_db_now (envs n)} (nw_db w) (nw_db w1)"
    using process_evolved[OF Suc.prems(2,3), of "envs n" lib] p by simp
  show ?case
  proof (cases "\<exists>s0. res = Inr s0 \<and> s0 \<noteq> Fallback")
    case True
    then show ?thesis
      using Suc.prems(1) p e1 process_embeds[of lib ul "envs n" r w] by (auto simp: stamps_def)
  next
    case False
    then have rest: "process_with_retries lib ul envs retries r w1 (Suc n) = (w', n', s)"
      using Suc.prems(1) p by (auto split: sum.splits if_splits)
    note ih = Suc.IH[OF rest Suc.prems(2) read_earlier_evolved[OF Suc.prems(3) e1]]
    have "evolved {cr_post_id r} (stamps envs n n') (nw_db w) (nw_db w1)"
      by (rule evolved_mono[OF e1 subset_refl]) (use ih in \<open>auto simp: stamps_def\<close>)
    moreover have "evolved {cr_post_id r} (stamps envs n n') (nw_db w1) (nw_db w')"
      by (rule evolved_mono[OF _ subset_refl stamps_mono]) (use ih in auto)
    ultimately have "evolved {cr_post_id r} (stamps envs n n') (nw_db w) (nw_db w')" by (rule evolved_trans)
    then show ?thesis using ih by auto
  qed
qed

lemma process_page_step:
  assumes "process_page lib ul envs retries rs w n = (w', n', ss)" "keeps_topics ul"
    and "\<And>r. r \<in> set rs \<Longrightarrow> read_earlier (nw_db w) r"
  shows "n \<le> n' \<and> evolved (cr_post_id ` set rs) (stamps envs n n') (nw_db w) (nw_db w') \<and>
    (list_all embedded_result ss \<longrightarrow> (\<forall>r\<in>set rs. has_feature lib ul (nw_db w') (cr_post_id r) (cr_content r)))"
  using assms
proof (induction rs arbitrary: w n ss)
  case (Cons r rs)
  obtain w1 n1 s where one: "process_with_retries lib ul envs retries r w n = (w1, n1, s)" by (metis prod_cases3)
  obtain ss' where rest: "process_page lib ul envs retries rs w1 n1 = (w', n', ss')" and ss: "ss = s # ss'"
    using Cons.prems(1) one by (auto split: prod.splits)
  note first = process_with_retries_step[OF one Cons.prems(2) Cons.prems(3)[OF list.set_intros(1)]]
  have "read_earlier (nw_db w1) q" if "q \<in> set rs" for q
    using first Cons.prems(3)[of q] that read_earlier_evolved by fastforce
  note ih = Cons.IH[OF rest Cons.prems(2) this]
  have "evolved (cr_post_id ` set (r # rs)) (stamps envs n n') (nw_db w) (nw_db w1)"
    "evolved (cr_post_id ` set (r # rs)) (stamps envs n n') (nw_db w1) (nw_db w')"
    using first ih stamps_mono[of n n n1 n' envs] stamps_mono[of n n1 n' n' envs] by (auto elim!: evolved_mono)
  then have "evolved (cr_post_id ` set (r # rs)) (stamps envs n n') (nw_db w) (nw_db w')" by (rule evolved_trans)
  then show ?case using first ih has_feature_evolved ss by auto
qed simp

lemma page_rows_set:
  assumes "p \<in> set (page_rows db cursor limit)"
  shows "p \<in> set (cd_posts db)" "np_published p" "after_cursor cursor p"
  using assms by (auto simp: page_rows_def dest!: in_set_takeD)

lemma page_rows_read:
  assumes "distinct (map np_id (cd_posts db))" "r \<in> set (map record_of (page_rows db cursor limit))"
  shows "read_earlier db r"
proof -
  obtain p where p: "p \<in> set (cd_posts db)" "r = record_of p" using assms(2) by (auto dest: page_rows_set(1))
  then have "q = p" if "q \<in> set (cd_posts db)" "np_id q = np_id p" for q
    using assms(1) that by (metis distinct_map inj_onD)
  then show ?thesis by (auto simp: read_earlier_def p(2) record_of_def)
qed

text \<open>A page holds every published post between the cursor and its last row.\<close>

lemma page_rows_complete:
  assumes "distinct (map np_id (cd_posts db))" "page_rows db cursor limit \<noteq> []"
    and "p \<in> set (cd_posts db)" "np_published p" "after_cursor cursor p" "post_key p \<le> post_key (last (page_rows db cursor limit))"
  shows "p \<in> set (page_rows db cursor limit)"
proof (rule ccontr)
  let ?all = "sort_key post_key (filter (\<lambda>p. np_published p \<and> after_cursor cursor p) (cd_posts db))"
  let ?rows = "page_rows db cursor limit"
  assume no: "p \<notin> set ?rows"
  have "p \<in> set (take limit ?all @ drop limit ?all)" using assms(3-5) unfolding append_take_drop_id by simp
  then have p: "p \<in> set (drop limit ?all)" using no unfolding set_append page_rows_def by blast
  have "sorted (map post_key (take limit ?all @ drop limit ?all))" unfolding append_take_drop_id by simp
  then have sorted: "sorted (map post_key ?rows @ map post_key (drop limit ?all))" unfolding page_rows_def map_append .
  have "post_key (last ?rows) \<le> post_key p" 
  proof -
    have "last ?rows \<in> set ?rows" using assms(2) by simp
    then show ?thesis using sorted p unfolding sorted_append set_map by blast
  qed
  with assms(6) have "post_key p = post_key (last ?rows)" by (rule antisym)
  then have "np_id p = np_id (last ?rows)" by (simp add: post_key_def)
  moreover have "last ?rows \<in> set (cd_posts db)" using page_rows_set(1) assms(2) by (metis last_in_set)
  ultimately have "p = last ?rows" using assms(1,3) by (metis distinct_map inj_onD)
  then show False using no assms(2) by simp
qed

section \<open>The checkpoint is safe\<close>

definition covered :: "pylib \<Rightarrow> unicode_lib \<Rightarrow> content_db \<Rightarrow> cursor option \<Rightarrow> cursor option \<Rightarrow> bool" where
  "covered lib ul db start cursor \<longleftrightarrow>
     list_all (\<lambda>p. np_published p \<longrightarrow> after_cursor start p \<longrightarrow> \<not> after_cursor cursor p \<longrightarrow>
       has_feature lib ul db (np_id p) (current_content p)) (cd_posts db)"

text \<open>The database clock advances from call to call, and is past every stamp and the cursor.\<close>

definition clock_ahead :: "(nat \<Rightarrow> process_env) \<Rightarrow> nat \<Rightarrow> content_db \<Rightarrow> cursor option \<Rightarrow> bool" where
  "clock_ahead envs n db cursor \<longleftrightarrow>
     (\<forall>p\<in>set (cd_posts db). np_updated_at p < pe_db_now (envs n)) \<and>
     (\<forall>c. cursor = Some c \<longrightarrow> fst c < pe_db_now (envs n))"

lemma row_step_unchanged: "row_step I T p q \<Longrightarrow> np_updated_at q \<notin> T \<Longrightarrow> q = p"
  by (auto simp: row_step_def)

lemma row_step_outside: "row_step I T p q \<Longrightarrow> np_id p \<notin> I \<Longrightarrow> q = p"
  by (auto simp: row_step_def)

lemma db_clock_mono:
  fixes envs :: "nat \<Rightarrow> process_env"
  assumes "strict_mono (\<lambda>n. pe_db_now (envs n))"
  shows "n \<le> m \<Longrightarrow> pe_db_now (envs n) \<le> pe_db_now (envs m)" "n < m \<Longrightarrow> pe_db_now (envs n) < pe_db_now (envs m)"
  using strict_mono_less_eq[OF assms, of n m] strict_mono_less[OF assms, of n m] by simp_all

lemma stamps_ahead:
  assumes "strict_mono (\<lambda>n. pe_db_now (envs n))" "t \<in> stamps envs n m"
  shows "pe_db_now (envs n) \<le> t" "t < pe_db_now (envs m)"
  using assms(2) db_clock_mono[OF assms(1)] by (auto simp: stamps_def)

lemma clock_ahead_evolved:
  assumes "clock_ahead envs n db cursor" "evolved I (stamps envs n m) db db'" "n \<le> m" "strict_mono (\<lambda>n. pe_db_now (envs n))"
  shows "clock_ahead envs m db' cursor"
proof -
  have le: "pe_db_now (envs n) \<le> pe_db_now (envs m)" using db_clock_mono(1)[OF assms(4,3)] .
  have "np_updated_at q < pe_db_now (envs m)" if q: "q \<in> set (cd_posts db')" for q
  proof (cases "np_updated_at q \<in> stamps envs n m")
    case True
    then show ?thesis by (rule stamps_ahead(2)[OF assms(4)])
  next
    case False
    obtain p where "p \<in> set (cd_posts db)" "row_step I (stamps envs n m) p q" using evolved_rows[OF assms(2) q] by blast
    then show ?thesis using row_step_unchanged False assms(1) le by (fastforce simp: clock_ahead_def)
  qed
  then show ?thesis using assms(1) le by (fastforce simp: clock_ahead_def)
qed

lemma covered_evolved:
  assumes "covered lib ul db start cursor" "evolved I (stamps envs n m) db db'" "clock_ahead envs n db cursor"
    and "strict_mono (\<lambda>n. pe_db_now (envs n))"
  shows "covered lib ul db' start cursor"
  unfolding covered_def list_all_iff
proof (intro ballI impI)
  fix q assume q: "q \<in> set (cd_posts db')" "np_published q" "after_cursor start q" "\<not> after_cursor cursor q"
  obtain p where p: "p \<in> set (cd_posts db)" "row_step I (stamps envs n m) p q" using evolved_rows[OF assms(2) q(1)] by blast
  obtain c where c: "cursor = Some c" "\<not> c < post_key q" using q(4) by (auto simp: after_cursor_def split: option.splits)
  have "np_updated_at q \<notin> stamps envs n m"
  proof
    assume "np_updated_at q \<in> stamps envs n m"
    then have "pe_db_now (envs n) \<le> np_updated_at q" by (rule stamps_ahead(1)[OF assms(4)])
    moreover have "fst c < pe_db_now (envs n)" using assms(3) c(1) by (simp add: clock_ahead_def)
    ultimately have "c < post_key q" by (cases c) (simp add: post_key_def)
    with c(2) show False ..
  qed
  then have "q = p" using row_step_unchanged p(2) by blast
  then show "has_feature lib ul db' (np_id q) (current_content q)"
    using assms(1) p(1) q has_feature_evolved[OF assms(2)] by (auto simp: covered_def list_all_iff)
qed

lemma covered_page:
  assumes cov: "covered lib ul db start cursor" and ev: "evolved (np_id ` set rows) (stamps envs n m) db db'"
    and clock: "clock_ahead envs n db cursor" and mono: "strict_mono (\<lambda>n. pe_db_now (envs n))"
    and dist: "distinct (map np_id (cd_posts db))" and rows: "rows = page_rows db cursor limit" "rows \<noteq> []"
    and done_rows: "\<And>p. p \<in> set rows \<Longrightarrow> has_feature lib ul db' (np_id p) (current_content p)"
  shows "covered lib ul db' start (Some (post_key (last rows)))"
  unfolding covered_def list_all_iff
proof (intro ballI impI)
  fix q assume q: "q \<in> set (cd_posts db')" "np_published q" "after_cursor start q" "\<not> after_cursor (Some (post_key (last rows))) q"
  obtain p where p: "p \<in> set (cd_posts db)" "row_step (np_id ` set rows) (stamps envs n m) p q"
    using evolved_rows[OF ev q(1)] by blast
  have content: "np_id q = np_id p" "current_content q = current_content p" "np_published p"
    using row_step_keeps[OF p(2)] q(2) by (simp_all add: current_content_def record_of_def)
  show "has_feature lib ul db' (np_id q) (current_content q)"
  proof (cases "np_id p \<in> np_id ` set rows")
    case True
    then obtain p' where "p' \<in> set rows" "np_id p' = np_id p" by auto
    moreover from this have "p' = p" using dist p(1) page_rows_set(1) rows(1) by (metis distinct_map inj_onD)
    ultimately show ?thesis using done_rows content by simp
  next
    case False
    then have qp: "q = p" using row_step_outside p(2) by blast
    show ?thesis
    proof (cases "after_cursor cursor p")
      case True
      have "post_key p \<le> post_key (last rows)" using q(4) qp by (simp add: after_cursor_def)
      then have "p \<in> set rows" using page_rows_complete[OF dist _ p(1) content(3) True, of limit] rows by simp
      with False show ?thesis by simp
    next
      case f: False
      then have "has_feature lib ul db (np_id p) (current_content p)"
        using cov p(1) content(3) q(3) qp by (simp add: covered_def list_all_iff)
      then show ?thesis using has_feature_evolved[OF ev] qp by simp
    qed
  qed
qed

lemma page_step:
  assumes "process_page lib ul envs retries (map record_of rows) w n = (w', n', ss)" "rows = page_rows (nw_db w) cursor limit"
    and "keeps_topics ul" "distinct (map np_id (cd_posts (nw_db w)))"
  shows "n \<le> n'" "evolved (np_id ` set rows) (stamps envs n n') (nw_db w) (nw_db w')"
    "list_all embedded_result ss \<Longrightarrow> p \<in> set rows \<Longrightarrow> has_feature lib ul (nw_db w') (np_id p) (current_content p)"
proof -
  have ids: "cr_post_id ` set (map record_of rows) = np_id ` set rows" by (auto simp: record_of_def image_image)
  have read: "read_earlier (nw_db w) r" if "r \<in> set (map record_of rows)" for r
    using page_rows_read[OF assms(4), of r cursor limit] that assms(2) by blast
  note step = process_page_step[OF assms(1,3) read, unfolded ids]
  show "n \<le> n'" "evolved (np_id ` set rows) (stamps envs n n') (nw_db w) (nw_db w')"
    using step by blast+
  have "cr_post_id (record_of p) = np_id p" by (simp add: record_of_def)
  moreover have "record_of p \<in> set (map record_of rows)" if "p \<in> set rows" using that by simp
  ultimately show "list_all embedded_result ss \<Longrightarrow> p \<in> set rows \<Longrightarrow> has_feature lib ul (nw_db w') (np_id p) (current_content p)"
    using step unfolding current_content_def by metis
qed

text \<open>One round of the loop, on a page that is not empty.\<close>

lemma rebuild_round:
  fixes st :: rebuild_state and envs cfg cursor
  defines "rows \<equiv> page_rows (nw_db (rs_world st)) cursor (rc_batch_size cfg)"
  assumes "rows \<noteq> []"
  obtains w n ss st1 where
    "process_page lib ul envs (rc_max_retries cfg) (map record_of rows) (rs_world st) (rs_calls st) = (w, n, ss)"
    "st1 = st\<lparr>rs_world := w, rs_calls := n, rs_counts := foldl count_result (rs_counts st) ss\<rparr>"
    "rebuild_loop (Suc fuel) lib ul envs cfg cursor st =
      (if list_all embedded_result ss
       then rebuild_loop fuel lib ul envs cfg (Some (post_key (last rows))) (st1\<lparr>rs_checkpoint := Some (post_key (last rows))\<rparr>)
       else Some st1)"
proof -
  obtain w n ss where page: "process_page lib ul envs (rc_max_retries cfg) (map record_of rows) (rs_world st) (rs_calls st) = (w, n, ss)"
    by (metis prod_cases3)
  show ?thesis
    by (rule that[OF page refl]) (use assms page in \<open>simp add: fetch_batch_def Let_def rows_def[symmetric]\<close>)
qed

lemma rebuild_empty: "page_rows (nw_db (rs_world st)) cursor (rc_batch_size cfg) = [] \<Longrightarrow>
    rebuild_loop (Suc fuel) lib ul envs cfg cursor st = Some st"
  by (simp add: fetch_batch_def Let_def)

lemma rebuild_loop_covers:
  assumes "rebuild_loop fuel lib ul envs cfg cursor st = Some st'" "keeps_topics ul" "strict_mono (\<lambda>n. pe_db_now (envs n))"
    and "distinct (map np_id (cd_posts (nw_db (rs_world st))))" "clock_ahead envs (rs_calls st) (nw_db (rs_world st)) cursor"
    and "covered lib ul (nw_db (rs_world st)) start cursor" "rs_checkpoint st = cursor"
  shows "covered lib ul (nw_db (rs_world st')) start (rs_checkpoint st')"
  using assms(1,4-7)
proof (induction fuel arbitrary: cursor st)
  case (Suc fuel)
  let ?db = "nw_db (rs_world st)"
  let ?rows = "page_rows ?db cursor (rc_batch_size cfg)"
  show ?case
  proof (cases "?rows = []")
    case True
    then show ?thesis using rebuild_empty[OF True, of fuel lib ul envs] Suc.prems by simp
  next
    case False
    obtain w n ss st1 where page: "process_page lib ul envs (rc_max_retries cfg) (map record_of ?rows) (rs_world st) (rs_calls st) = (w, n, ss)"
      and st1: "st1 = st\<lparr>rs_world := w, rs_calls := n, rs_counts := foldl count_result (rs_counts st) ss\<rparr>"
      and loop: "rebuild_loop (Suc fuel) lib ul envs cfg cursor st =
        (if list_all embedded_result ss
         then rebuild_loop fuel lib ul envs cfg (Some (post_key (last ?rows))) (st1\<lparr>rs_checkpoint := Some (post_key (last ?rows))\<rparr>)
         else Some st1)"
      using rebuild_round[OF False, where fuel = fuel and lib = lib and ul = ul and envs = envs] by blast
    note step = page_step[OF page refl assms(2) Suc.prems(2)]
    show ?thesis
    proof (cases "list_all embedded_result ss")
      case False
      then show ?thesis
        using Suc.prems(1,5) covered_evolved[OF Suc.prems(4) step(2) Suc.prems(3) assms(3)] unfolding loop st1 by auto
    next
      case True
      let ?st2 = "st1\<lparr>rs_checkpoint := Some (post_key (last ?rows))\<rparr>"
      have ids: "distinct (map np_id (cd_posts (nw_db w)))" using evolved_ids[OF step(2)] Suc.prems(2) by simp
      have cov: "covered lib ul (nw_db w) start (Some (post_key (last ?rows)))"
        by (rule covered_page[OF Suc.prems(4) step(2) Suc.prems(3) assms(3) Suc.prems(2) refl \<open>?rows \<noteq> []\<close> step(3)[OF True]])
      have "last ?rows \<in> set (cd_posts ?db)" using page_rows_set(1) \<open>?rows \<noteq> []\<close> by (metis last_in_set)
      then have "clock_ahead envs (rs_calls st) ?db (Some (post_key (last ?rows)))"
        using Suc.prems(3) by (simp add: clock_ahead_def post_key_def)
      then have "clock_ahead envs n (nw_db w) (Some (post_key (last ?rows)))"
        using step(1) clock_ahead_evolved[OF _ step(2) step(1) assms(3)] by blast
      then show ?thesis
        using Suc.IH[of "Some (post_key (last ?rows))" ?st2] Suc.prems(1) True ids cov unfolding loop st1 by simp
    qed
  qed
qed simp

section \<open>The rebuild ends\<close>

definition untagged :: "content_db \<Rightarrow> nat" where
  "untagged db = length (filter (\<lambda>p. np_topics p = []) (cd_posts db))"

definition pending :: "content_db \<Rightarrow> cursor option \<Rightarrow> nat" where
  "pending db cursor = length (filter (\<lambda>p. np_published p \<and> after_cursor cursor p) (cd_posts db))"

lemma evolved_untagged:
  assumes "evolved I T db db'"
  shows "cd_posts db' = cd_posts db \<or> untagged db' < untagged db"
proof -
  have "(ys = xs \<or> length (filter (\<lambda>p. np_topics p = []) ys) < length (filter (\<lambda>p. np_topics p = []) xs)) \<and>
      length (filter (\<lambda>p. np_topics p = []) ys) \<le> length (filter (\<lambda>p. np_topics p = []) xs)"
    if "list_all2 (row_step I T) xs ys" for xs ys
    using that by (induction rule: list_all2_induct) (auto simp: row_step_def)
  then show ?thesis using assms unfolding evolved_def untagged_def by blast
qed

lemma pending_decreases:
  assumes "page_rows db cursor limit \<noteq> []"
  shows "pending db (Some (post_key (last (page_rows db cursor limit)))) < pending db cursor"
proof -
  let ?last = "last (page_rows db cursor limit)"
  let ?Q = "\<lambda>p. np_published p \<and> after_cursor cursor p"
  let ?P = "\<lambda>p. np_published p \<and> after_cursor (Some (post_key ?last)) p"
  have l: "?last \<in> set (filter ?Q (cd_posts db))" using page_rows_set assms by (metis (mono_tags, lifting) last_in_set mem_Collect_eq set_filter)
  then have "?P p \<Longrightarrow> ?Q p" for p by (auto simp: after_cursor_def split: option.splits)
  then have "filter ?P (cd_posts db) = filter ?P (filter ?Q (cd_posts db))" by (auto intro: filter_cong)
  also have "length \<dots> < length (filter ?Q (cd_posts db))"
    by (rule length_filter_less[OF l]) (simp add: after_cursor_def)
  finally show ?thesis by (simp add: pending_def)
qed

lemma pending_le: "pending db cursor \<le> length (cd_posts db)"
  by (simp add: pending_def)

text \<open>A page either consumes posts or gives one its first topics, so this many rounds are enough.\<close>

definition rounds_needed :: "content_db \<Rightarrow> cursor option \<Rightarrow> nat" where
  "rounds_needed db cursor = untagged db * Suc (length (cd_posts db)) + pending db cursor"

lemma rounds_decrease:
  assumes "evolved I T db db'" "page_rows db cursor limit \<noteq> []"
  shows "rounds_needed db' (Some (post_key (last (page_rows db cursor limit)))) < rounds_needed db cursor"
proof -
  let ?c = "Some (post_key (last (page_rows db cursor limit)))"
  have len: "length (cd_posts db') = length (cd_posts db)" using assms(1) unfolding evolved_def by (auto dest: list_all2_lengthD)
  show ?thesis
  proof (cases "cd_posts db' = cd_posts db")
    case True
    then show ?thesis using pending_decreases[OF assms(2)] by (simp add: rounds_needed_def untagged_def pending_def)
  next
    case False
    then have "Suc (untagged db') \<le> untagged db" using evolved_untagged[OF assms(1)] by simp
    then have "Suc (untagged db') * Suc (length (cd_posts db)) \<le> untagged db * Suc (length (cd_posts db))" by (rule mult_le_mono1)
    moreover have "pending db' ?c \<le> length (cd_posts db)" using pending_le[of db' ?c] len by simp
    ultimately show ?thesis unfolding rounds_needed_def len by simp
  qed
qed

lemma rebuild_loop_returns:
  assumes "keeps_topics ul" "distinct (map np_id (cd_posts (nw_db (rs_world st))))"
    and "rounds_needed (nw_db (rs_world st)) cursor < fuel"
  shows "\<exists>st'. rebuild_loop fuel lib ul envs cfg cursor st = Some st'"
  using assms(2,3)
proof (induction fuel arbitrary: cursor st)
  case (Suc fuel)
  let ?rows = "page_rows (nw_db (rs_world st)) cursor (rc_batch_size cfg)"
  show ?case
  proof (cases "?rows = []")
    case True
    then show ?thesis using rebuild_empty[OF True] by blast
  next
    case False
    obtain w n ss st1 where page: "process_page lib ul envs (rc_max_retries cfg) (map record_of ?rows) (rs_world st) (rs_calls st) = (w, n, ss)"
      and st1: "st1 = st\<lparr>rs_world := w, rs_calls := n, rs_counts := foldl count_result (rs_counts st) ss\<rparr>"
      and loop: "rebuild_loop (Suc fuel) lib ul envs cfg cursor st =
        (if list_all embedded_result ss
         then rebuild_loop fuel lib ul envs cfg (Some (post_key (last ?rows))) (st1\<lparr>rs_checkpoint := Some (post_key (last ?rows))\<rparr>)
         else Some st1)"
      using rebuild_round[OF False, where fuel = fuel and lib = lib and ul = ul and envs = envs] by blast
    note step = page_step[OF page refl assms(1) Suc.prems(1)]
    have "rounds_needed (nw_db w) (Some (post_key (last ?rows))) < fuel"
      using rounds_decrease[OF step(2) False] Suc.prems(2) by simp
    moreover have "distinct (map np_id (cd_posts (nw_db w)))" using evolved_ids[OF step(2)] Suc.prems(1) by simp
    ultimately show ?thesis unfolding loop using Suc.IH[of "st1\<lparr>rs_checkpoint := Some (post_key (last ?rows))\<rparr>"] by (simp add: st1)
  qed
qed simp

section \<open>The rebuild embeds every post\<close>

definition good_env :: "process_env \<Rightarrow> bool" where
  "good_env env \<longleftrightarrow>
     (\<forall>c. \<not> pe_faults env c) \<and> (\<forall>text. \<exists>e. bind_res (pe_encode env text) validate_embedding = Inr e) \<and> pe_db_now env \<le> pe_clock env"

definition renormalizes :: "unicode_lib \<Rightarrow> bool" where
  "renormalizes ul \<longleftrightarrow> (\<forall>vs ts. normalize_topics ul vs = Inr ts \<longrightarrow> (\<exists>ts'. normalize_topics ul ts = Inr ts'))"

text \<open>A post whose content has text and whose labels are within the limits.\<close>

definition processable :: "pylib \<Rightarrow> unicode_lib \<Rightarrow> content_record \<Rightarrow> bool" where
  "processable lib ul r \<longleftrightarrow> (\<exists>nd. digest_of lib ul (cr_content r) = Inr nd) \<and> (\<exists>ts. topics_for ul r = Inr ts)"

definition all_processable :: "pylib \<Rightarrow> unicode_lib \<Rightarrow> content_db \<Rightarrow> bool" where
  "all_processable lib ul db \<longleftrightarrow> list_all (\<lambda>p. processable lib ul (record_of p)) (cd_posts db)"

lemma process_good:
  assumes "good_env env" "processable lib ul r" "cr_updated_at r \<le> pe_clock env"
  shows "\<exists>w' s. process lib ul env r w = (w', Inr s) \<and> s \<noteq> Fallback"
proof -
  obtain normalized digest ts where r: "digest_of lib ul (cr_content r) = Inr (normalized, digest)" "topics_for ul r = Inr ts"
    using assms(2) by (auto simp: processable_def)
  obtain e where e: "bind_res (pe_encode env normalized) validate_embedding = Inr e"
    using assms(1) unfolding good_env_def by blast
  show ?thesis
    using assms(1,3)
    by (auto simp: process_def embed_post_def store_feature_def r e good_env_def simp del: bind_res_Inr split: prod.splits)
qed

lemma process_keeps_processable:
  assumes "renormalizes ul" "keeps_topics ul" "read_earlier (nw_db w) r" "all_processable lib ul (nw_db w)"
  shows "all_processable lib ul (nw_db (fst (process lib ul env r w)))"
proof -
  have posts: "cd_posts (nw_db (fst (embed_post lib ul env r topics w))) = cd_posts (nw_db w)" for topics w
    using store_feature_db unfolding embed_post_def by (auto simp: fall_back_def split: sum.splits prod.splits)
  have "all_processable lib ul (ensure_topics t (cr_post_id r) topics (nw_db w))" if topics: "topics_for ul r = Inr topics" for t topics
  proof -
    have "processable lib ul (record_of (p\<lparr>np_topics := topics, np_updated_at := t\<rparr>))"
      if p: "p \<in> set (cd_posts (nw_db w))" "np_id p = cr_post_id r" "np_topics p = []" for p
    proof -
      have "cr_topics r = []" using assms(3) p by (auto simp: read_earlier_def)
      then have "topics \<noteq> []" using topics_for_nonempty[OF assms(2) topics] by simp
      moreover obtain ts' where "normalize_topics ul topics = Inr ts'"
        using assms(1) topics unfolding renormalizes_def topics_for_def by blast
      ultimately show ?thesis using assms(4) p(1) by (auto simp: processable_def topics_for_def record_of_def all_processable_def list_all_iff)
    qed
    then show ?thesis using assms(4) by (auto simp: all_processable_def ensure_topics_def list_all_iff)
  qed
  then show ?thesis
    using assms(4) posts by (auto simp: process_def all_processable_def split: sum.splits)
qed

lemma retries_succeed:
  fixes envs :: "nat \<Rightarrow> process_env"
  assumes "process_with_retries lib ul envs retries r w n = (w', n', s)" "\<exists>j\<le>retries. good_env (envs (n + j))"
    and "processable lib ul r" "cr_updated_at r < pe_db_now (envs n)" "strict_mono (\<lambda>n. pe_db_now (envs n))"
  shows "embedded_result s"
  using assms(1,2,4)
proof (induction retries arbitrary: w n)
  case 0
  then have "good_env (envs n)" by simp
  then show ?case
    using process_good[of "envs n" lib ul r w] assms(3) 0(1,3) by (auto simp: good_env_def embedded_result_def)
next
  case (Suc retries)
  show ?case
  proof (cases "\<exists>w1 s0. process lib ul (envs n) r w = (w1, Inr s0) \<and> s0 \<noteq> Fallback")
    case True
    then show ?thesis using Suc.prems(1) by (auto simp: embedded_result_def)
  next
    case False
    then have "\<not> good_env (envs n)" using process_good[of "envs n" lib ul r w] assms(3) Suc.prems(3) by (auto simp: good_env_def)
    then obtain j where "j \<le> retries" "good_env (envs (Suc n + j))"
      using Suc.prems(2) by (metis Suc_le_mono add_0_right add_Suc add_Suc_right not0_implies_Suc)
    moreover obtain w1 where "process_with_retries lib ul envs retries r w1 (Suc n) = (w', n', s)"
      using Suc.prems(1) False by (cases "process lib ul (envs n) r w") (auto split: sum.splits if_splits)
    moreover have "cr_updated_at r < pe_db_now (envs (Suc n))"
      using Suc.prems(3) db_clock_mono(1)[OF assms(5), of n "Suc n"] by simp
    ultimately show ?thesis using Suc.IH by blast
  qed
qed

lemma retries_keep_processable:
  assumes "process_with_retries lib ul envs retries r w n = (w', n', s)" "renormalizes ul" "keeps_topics ul"
    and "read_earlier (nw_db w) r" "all_processable lib ul (nw_db w)"
  shows "all_processable lib ul (nw_db w')"
  using assms
proof (induction retries arbitrary: w n)
  case 0
  then show ?case
    using process_keeps_processable[OF 0(2-5), of "envs n"] by (auto split: prod.splits sum.splits)
next
  case (Suc retries)
  obtain w1 res where p: "process lib ul (envs n) r w = (w1, res)" by fastforce
  have w1: "all_processable lib ul (nw_db w1)" "read_earlier (nw_db w1) r"
    using process_keeps_processable[OF Suc.prems(2-5), of "envs n"] process_evolved[OF Suc.prems(3,4), of "envs n" lib]
      read_earlier_evolved[OF Suc.prems(4)] p by auto
  then show ?case
    using Suc.prems(1) Suc.IH[OF _ Suc.prems(2,3) w1(2,1)] p by (auto split: sum.splits if_splits)
qed

lemma page_succeeds:
  fixes envs :: "nat \<Rightarrow> process_env"
  assumes "process_page lib ul envs retries rs w n = (w', n', ss)" "\<And>n. \<exists>j\<le>retries. good_env (envs (n + j))"
    and "renormalizes ul" "keeps_topics ul" "strict_mono (\<lambda>n. pe_db_now (envs n))" "all_processable lib ul (nw_db w)"
    and "\<And>r. r \<in> set rs \<Longrightarrow> read_earlier (nw_db w) r \<and> processable lib ul r \<and> cr_updated_at r < pe_db_now (envs n)"
  shows "list_all embedded_result ss \<and> all_processable lib ul (nw_db w')"
  using assms(1,6,7)
proof (induction rs arbitrary: w n ss)
  case (Cons r rs)
  obtain w1 n1 s where one: "process_with_retries lib ul envs retries r w n = (w1, n1, s)" by (metis prod_cases3)
  obtain ss' where rest: "process_page lib ul envs retries rs w1 n1 = (w', n', ss')" and ss: "ss = s # ss'"
    using Cons.prems(1) one by (auto split: prod.splits)
  note r = Cons.prems(3)[OF list.set_intros(1)]
  have s: "embedded_result s" using retries_succeed[OF one assms(2)] r assms(5) by blast
  have w1: "all_processable lib ul (nw_db w1)" using retries_keep_processable[OF one assms(3,4)] r Cons.prems(2) by blast
  note step = process_with_retries_step[OF one assms(4) conjunct1[OF r]]
  have "read_earlier (nw_db w1) q \<and> processable lib ul q \<and> cr_updated_at q < pe_db_now (envs n1)" if "q \<in> set rs" for q
    using step Cons.prems(3)[of q] that read_earlier_evolved db_clock_mono(1)[OF assms(5), of n n1] by fastforce
  then show ?case using Cons.IH[OF rest w1] s ss by simp
qed simp

lemma count_embedded: "list_all embedded_result ss \<Longrightarrow> rb_failed (foldl count_result c ss) = rb_failed c"
  by (induction ss arbitrary: c) (auto simp: count_result_def embedded_result_def Let_def split: option.splits process_status.splits)

lemma rebuild_loop_succeeds:
  fixes envs :: "nat \<Rightarrow> process_env"
  assumes "rebuild_loop fuel lib ul envs cfg cursor st = Some st'" "\<And>n. \<exists>j\<le>rc_max_retries cfg. good_env (envs (n + j))"
    and "renormalizes ul" "keeps_topics ul" "strict_mono (\<lambda>n. pe_db_now (envs n))"
    and "all_processable lib ul (nw_db (rs_world st))" "distinct (map np_id (cd_posts (nw_db (rs_world st))))"
    and "clock_ahead envs (rs_calls st) (nw_db (rs_world st)) cursor" "rs_checkpoint st = cursor"
  shows "rb_failed (rs_counts st') = rb_failed (rs_counts st) \<and>
    page_rows (nw_db (rs_world st')) (rs_checkpoint st') (rc_batch_size cfg) = []"
  using assms(1,6-9)
proof (induction fuel arbitrary: cursor st)
  case (Suc fuel)
  let ?db = "nw_db (rs_world st)"
  let ?rows = "page_rows ?db cursor (rc_batch_size cfg)"
  show ?case
  proof (cases "?rows = []")
    case True
    then show ?thesis using rebuild_empty[OF True, of fuel lib ul envs] Suc.prems by simp
  next
    case False
    obtain w n ss st1 where page: "process_page lib ul envs (rc_max_retries cfg) (map record_of ?rows) (rs_world st) (rs_calls st) = (w, n, ss)"
      and st1: "st1 = st\<lparr>rs_world := w, rs_calls := n, rs_counts := foldl count_result (rs_counts st) ss\<rparr>"
      and loop: "rebuild_loop (Suc fuel) lib ul envs cfg cursor st =
        (if list_all embedded_result ss
         then rebuild_loop fuel lib ul envs cfg (Some (post_key (last ?rows))) (st1\<lparr>rs_checkpoint := Some (post_key (last ?rows))\<rparr>)
         else Some st1)"
      using rebuild_round[OF False, where fuel = fuel and lib = lib and ul = ul and envs = envs] by blast
    note step = page_step[OF page refl assms(4) Suc.prems(3)]
    have "read_earlier ?db r \<and> processable lib ul r \<and> cr_updated_at r < pe_db_now (envs (rs_calls st))"
      if r: "r \<in> set (map record_of ?rows)" for r
    proof -
      obtain p where p: "p \<in> set (cd_posts ?db)" "r = record_of p" using r by (auto dest: page_rows_set(1))
      have "cr_updated_at r = np_updated_at p" by (simp add: p(2) record_of_def)
      then show ?thesis
        using p Suc.prems(2,4) page_rows_read[OF Suc.prems(3) r]
        by (simp add: all_processable_def list_all_iff clock_ahead_def)
    qed
    note ok = page_succeeds[OF page assms(2,3,4,5) Suc.prems(2) this]
    have ids: "distinct (map np_id (cd_posts (nw_db w)))" using evolved_ids[OF step(2)] Suc.prems(3) by simp
    have "last ?rows \<in> set (cd_posts ?db)" using page_rows_set(1) False by (metis last_in_set)
    then have "clock_ahead envs (rs_calls st) ?db (Some (post_key (last ?rows)))"
      using Suc.prems(4) by (simp add: clock_ahead_def post_key_def)
    then have clock: "clock_ahead envs n (nw_db w) (Some (post_key (last ?rows)))"
      using clock_ahead_evolved[OF _ step(2) step(1) assms(5)] by blast
    have "rebuild_loop fuel lib ul envs cfg (Some (post_key (last ?rows))) (st1\<lparr>rs_checkpoint := Some (post_key (last ?rows))\<rparr>) = Some st'"
      using Suc.prems(1) ok unfolding loop by simp
    from Suc.IH[OF this] show ?thesis using ok ids clock count_embedded[of ss "rs_counts st"] by (simp add: st1)
  qed
qed simp



definition unit_vector :: "real list" where
  "unit_vector = 1 # replicate 383 0"

definition demo_rebuild_env :: "nat \<Rightarrow> process_env" where
  "demo_rebuild_env n = \<lparr>pe_db_now = int n + 1, pe_clock = int n + 1, pe_encode = (\<lambda>_. Inr unit_vector), pe_faults = (\<lambda>_. False)\<rparr>"

definition demo_rebuild_config :: rebuild_config where
  "demo_rebuild_config = \<lparr>rc_batch_size = 32, rc_max_retries = 3\<rparr>"

lemma demo_rebuild_good: "good_env (demo_rebuild_env n)"
  by (simp add: good_env_def demo_rebuild_env_def validate_embedding_def unit_vector_def EMBEDDING_DIMENSION_def
      euclidean_norm_def sum_list_replicate)

lemma demo_rebuild_clock: "strict_mono (\<lambda>n. pe_db_now (demo_rebuild_env n))"
  by (simp add: strict_mono_def demo_rebuild_env_def)

lemma ascii_renormalizes: "renormalizes ascii_lib"
  unfolding renormalizes_def
proof (intro allI impI)
  fix vs ts assume "normalize_topics ascii_lib vs = Inr ts"
  then have "topics_wf ts" by (rule normalize_topics_wf)
  moreover have "length (normalize_topic ascii_lib v) \<le> 64" if "length v \<le> 64" for v
    using ascii_topic_length[of v] that by simp
  ultimately show "\<exists>ts'. normalize_topics ascii_lib ts = Inr ts'"
    by (intro normalize_topics_total) (auto simp: topics_wf_def)
qed

lemma demo_posts: "cd_posts (nw_db demo_content_world) =
    [\<lparr>np_id = 5, np_content = Some (ascii ''gpt''), np_topics = [], np_updated_at = 0, np_published = True\<rparr>]"
  by (simp add: demo_content_world_def)

lemma demo_processable: "all_processable clock_lib ascii_lib (nw_db demo_content_world)"
proof -
  have "\<exists>nd. digest_of clock_lib ascii_lib (ascii ''gpt'') = Inr nd"
    by (simp add: digest_of_def content_hash_def normalize_content_def ascii_lib_def ascii_def ustrip_def is_space_cp_def Let_def)
  moreover have "\<exists>ts. topics_for ascii_lib \<lparr>cr_post_id = 5, cr_content = ascii ''gpt'', cr_topics = [], cr_updated_at = 0\<rparr> = Inr ts"
    using ascii_topics_kept[of "ascii ''gpt''"] by (auto simp: topics_for_def)
  ultimately show ?thesis by (simp add: all_processable_def demo_posts processable_def record_of_def)
qed

lemma demo_clock_ahead: "clock_ahead demo_rebuild_env 0 (nw_db demo_content_world) None"
  by (simp add: clock_ahead_def demo_posts demo_rebuild_env_def)



section \<open>A post that cannot be embedded stops the rebuild\<close>

lemma process_without_text:
  assumes "digest_of lib ul (cr_content r) = Inl e"
  shows "snd (process lib ul env r w) = Inr Fallback \<or> (\<exists>e. snd (process lib ul env r w) = Inl e)"
  using digest_of_value_error[OF assms]
  by (auto simp: process_def embed_post_def fall_back_def assms split: sum.splits)

lemma retries_without_text:
  assumes "digest_of lib ul (cr_content r) = Inl e"
  shows "\<not> embedded_result (snd (snd (process_with_retries lib ul envs retries r w n)))"
proof (induction retries arbitrary: w n)
  case 0
  then show ?case using process_without_text[OF assms, of "envs n" w]
    by (cases "process lib ul (envs n) r w") (auto simp: embedded_result_def)
next
  case (Suc retries)
  then show ?case using process_without_text[OF assms, of "envs n" w]
    by (cases "process lib ul (envs n) r w") auto
qed

lemma page_without_text:
  assumes "process_page lib ul envs retries rs w n = (w', n', ss)" "r \<in> set rs" "digest_of lib ul (cr_content r) = Inl e"
  shows "\<not> list_all embedded_result ss"
  using assms(1,2)
proof (induction rs arbitrary: w n ss)
  case (Cons q rs)
  obtain w1 n1 s where one: "process_with_retries lib ul envs retries q w n = (w1, n1, s)" by (metis prod_cases3)
  obtain ss' where rest: "process_page lib ul envs retries rs w1 n1 = (w', n', ss')" and ss: "ss = s # ss'"
    using Cons.prems(1) one by (auto split: prod.splits)
  show ?case
  proof (cases "r = q")
    case True
    then show ?thesis using retries_without_text[OF assms(3), of envs retries w n] one ss by simp
  next
    case False
    then show ?thesis using Cons.IH[OF rest] Cons.prems(2) ss by simp
  qed
qed simp

text \<open>Whatever the retries, the rebuild ends at the page of such a post and never moves the checkpoint past it.\<close>

lemma rebuild_blocked:
  assumes "p \<in> set (page_rows (nw_db w) checkpoint (rc_batch_size cfg))" "digest_of lib ul (current_content p) = Inl e"
  shows "\<exists>st. rebuild_run (Suc fuel) lib ul envs cfg checkpoint w = Some st \<and> rs_checkpoint st = checkpoint"
proof -
  let ?st = "\<lparr>rs_world = w, rs_calls = 0, rs_checkpoint = checkpoint,
      rs_counts = \<lparr>rb_processed = 0, rb_created = 0, rb_unchanged = 0, rb_fallback = 0, rb_failed = 0\<rparr>\<rparr>"
  let ?rows = "page_rows (nw_db (rs_world ?st)) checkpoint (rc_batch_size cfg)"
  have ne: "?rows \<noteq> []" using assms(1) by auto
  obtain w' n ss st1 where page: "process_page lib ul envs (rc_max_retries cfg) (map record_of ?rows) (rs_world ?st) (rs_calls ?st) = (w', n, ss)"
    and st1: "st1 = ?st\<lparr>rs_world := w', rs_calls := n, rs_counts := foldl count_result (rs_counts ?st) ss\<rparr>"
    and loop: "rebuild_loop (Suc fuel) lib ul envs cfg checkpoint ?st =
      (if list_all embedded_result ss
       then rebuild_loop fuel lib ul envs cfg (Some (post_key (last ?rows))) (st1\<lparr>rs_checkpoint := Some (post_key (last ?rows))\<rparr>)
       else Some st1)"
    using rebuild_round[OF ne, where fuel = fuel and lib = lib and ul = ul and envs = envs] by blast
  have "\<not> list_all embedded_result ss"
    by (rule page_without_text[OF page, of "record_of p" e]) (use assms in \<open>simp_all add: current_content_def\<close>)
  then show ?thesis unfolding rebuild_run_def loop by (simp add: st1)
qed

end
