(* ===== verification/NrmsNetwork.thy ===== *)
theory NrmsNetwork
  imports Prelude
begin

text \<open>
  The numerical half of \<open>ai_pipeline/model.py\<close>: the attention user encoder of the NRMS ranker, its
  backward pass and one epoch of pairwise training. A numpy array is a function of its indices, with the
  bounds the architecture gives; floats are exact reals. The attention rows are probability
  distributions, and the theorem at the end says that an epoch is a step of gradient descent: the update
  is the derivative of the mean pairwise loss in every direction.
\<close>

section \<open>Architecture\<close>

record nrms_architecture =
  na_embedding_dimension :: int
  na_attention_heads :: int
  na_history_length :: int
  na_seed :: int
  na_position_scale :: real
  na_semantic_residual :: real

text \<open>\<open>NRMSArchitecture(...)\<close> with \<open>__post_init__\<close>; every real is finite.\<close>

definition new_architecture :: "int \<Rightarrow> int \<Rightarrow> int \<Rightarrow> int \<Rightarrow> real \<Rightarrow> real \<Rightarrow> nrms_architecture res" where
  "new_architecture dimension heads history_length seed position_scale semantic_residual =
     (if dimension \<le> 0 then Inl (ValueError ''embedding_dimension must be positive'')
      else if heads \<le> 0 then Inl (ValueError ''attention_heads must be positive'')
      else if dimension mod heads \<noteq> 0 then Inl (ValueError ''embedding_dimension must be divisible by attention_heads'')
      else if history_length < 0 then Inl (ValueError ''history_length must not be negative'')
      else if position_scale < 0 then Inl (ValueError ''position_scale must be finite and non-negative'')
      else if \<not> (0 \<le> semantic_residual \<and> semantic_residual \<le> 1)
      then Inl (ValueError ''semantic_residual must be finite and between zero and one'')
      else Inr \<lparr>na_embedding_dimension = dimension, na_attention_heads = heads, na_history_length = history_length,
                na_seed = seed, na_position_scale = position_scale, na_semantic_residual = semantic_residual\<rparr>)"

definition head_dimension :: "nrms_architecture \<Rightarrow> int" where
  "head_dimension a = na_embedding_dimension a div na_attention_heads a"

abbreviation dim_of :: "nrms_architecture \<Rightarrow> nat" where "dim_of a \<equiv> nat (na_embedding_dimension a)"
abbreviation heads_of :: "nrms_architecture \<Rightarrow> nat" where "heads_of a \<equiv> nat (na_attention_heads a)"
abbreviation width_of :: "nrms_architecture \<Rightarrow> nat" where "width_of a \<equiv> nat (head_dimension a)"

text \<open>Projections are indexed by head, row and column.\<close>

type_synonym projection = "nat \<Rightarrow> nat \<Rightarrow> nat \<Rightarrow> real"

record nrms_model =
  nm_architecture :: nrms_architecture
  nm_query :: projection
  nm_key :: projection
  nm_value :: projection
  nm_calibration_scale :: real
  nm_calibration_bias :: real
  nm_popular :: "real list option"

section \<open>Forward pass\<close>

definition sigmoid :: "real \<Rightarrow> real" where
  "sigmoid x = (let clipped = min 60 (max (- 60) x) in 1 / (1 + exp (- clipped)))"

definition sinusoidal_position :: "nat \<Rightarrow> nat \<Rightarrow> nat \<Rightarrow> real" where
  "sinusoidal_position dimension l d =
     (let angle = real l * (1 / (10000 powr (real (2 * (d div 2)) / real dimension))) in
      if even d then sin angle else cos angle)"

text \<open>An entry of \<open>np.asarray(embeddings)\<close>; a column of width one broadcasts.\<close>

definition entry :: "real list list \<Rightarrow> nat \<Rightarrow> nat \<Rightarrow> real" where
  "entry embeddings l d = (let e = embeddings ! l in if length e = 1 then e ! 0 else e ! d)"

definition positioned :: "nrms_model \<Rightarrow> real list list \<Rightarrow> nat \<Rightarrow> nat \<Rightarrow> real" where
  "positioned m embeddings l d =
     entry embeddings l d +
     na_position_scale (nm_architecture m) * sinusoidal_position (dim_of (nm_architecture m)) l d"

definition project :: "nat \<Rightarrow> (nat \<Rightarrow> nat \<Rightarrow> real) \<Rightarrow> projection \<Rightarrow> nat \<Rightarrow> nat \<Rightarrow> nat \<Rightarrow> real" where
  "project dimension x w h l k = (\<Sum>d<dimension. x l d * w h d k)"

definition attention_score :: "nat \<Rightarrow> (nat \<Rightarrow> nat \<Rightarrow> real) \<Rightarrow> (nat \<Rightarrow> nat \<Rightarrow> real) \<Rightarrow> nat \<Rightarrow> nat \<Rightarrow> real" where
  "attention_score width query key l j = (\<Sum>k<width. query l k * key j k) / sqrt (real width)"

text \<open>A row of scores minus its maximum, exponentiated and normalised.\<close>

definition softmax :: "nat \<Rightarrow> (nat \<Rightarrow> real) \<Rightarrow> nat \<Rightarrow> real" where
  "softmax n s j =
     (let top = Max (s ` {..<n}); e = (\<lambda>i. exp (s i - top)) in e j / (\<Sum>i<n. e i))"

definition attention :: "nrms_model \<Rightarrow> real list list \<Rightarrow> nat \<Rightarrow> nat \<Rightarrow> nat \<Rightarrow> real" where
  "attention m embeddings h l =
     (let a = nm_architecture m; x = positioned m embeddings in
      softmax (length embeddings)
        (attention_score (width_of a) (project (dim_of a) x (nm_query m) h) (project (dim_of a) x (nm_key m) h) l))"

definition head_context :: "nrms_model \<Rightarrow> real list list \<Rightarrow> nat \<Rightarrow> nat \<Rightarrow> nat \<Rightarrow> real" where
  "head_context m embeddings h l k =
     (\<Sum>j<length embeddings. attention m embeddings h l j *
        project (dim_of (nm_architecture m)) (positioned m embeddings) (nm_value m) h j k)"

text \<open>The heads side by side: column \<open>c\<close> belongs to head \<open>c div width\<close>.\<close>

definition concatenated :: "nrms_model \<Rightarrow> real list list \<Rightarrow> nat \<Rightarrow> nat \<Rightarrow> real" where
  "concatenated m embeddings l c =
     (let w = width_of (nm_architecture m) in head_context m embeddings (c div w) l (c mod w))"

definition user_component :: "nrms_model \<Rightarrow> real list list \<Rightarrow> nat \<Rightarrow> real" where
  "user_component m embeddings c =
     (let n = length embeddings; residual = na_semantic_residual (nm_architecture m) in
      (1 - residual) * ((\<Sum>l<n. concatenated m embeddings l c) / real n) +
      residual * ((\<Sum>l<n. entry embeddings l c) / real n))"

text \<open>Embeddings form a matrix that adds to the positions.\<close>

definition well_shaped :: "nat \<Rightarrow> real list list \<Rightarrow> bool" where
  "well_shaped dimension embeddings \<longleftrightarrow>
     list_all (\<lambda>e. length e = length (hd embeddings)) embeddings \<and>
     (embeddings = [] \<or> length (hd embeddings) \<in> {1, dimension})"

definition forward_history :: "nrms_model \<Rightarrow> real list list \<Rightarrow> real list res" where
  "forward_history m embeddings =
     (if well_shaped (dim_of (nm_architecture m)) embeddings
      then Inr (map (user_component m embeddings) [0..<dim_of (nm_architecture m)])
      else Inl (ValueError ''operands could not be broadcast together''))"

definition encode_history :: "nrms_model \<Rightarrow> real list list \<Rightarrow> real list res" where
  "encode_history m embeddings =
     (if embeddings = [] then Inl (ValueError ''encode_history requires at least one embedding'')
      else forward_history m embeddings)"

definition truncate_history :: "nrms_architecture \<Rightarrow> 'a list \<Rightarrow> 'a list" where
  "truncate_history a embeddings =
     (let cap = na_history_length a in
      if cap > 0 \<and> int (length embeddings) > cap then drop (length embeddings - nat cap) embeddings else embeddings)"

definition vector_dot :: "real list \<Rightarrow> real list \<Rightarrow> real res" where
  "vector_dot u v =
     (if length u = length v then Inr (\<Sum>i<length u. u ! i * v ! i)
      else Inl (ValueError ''shapes not aligned''))"

section \<open>Backward pass\<close>

text \<open>\<open>grad_concatenated\<close> is the same in every row.\<close>

definition grad_context :: "nrms_model \<Rightarrow> nat \<Rightarrow> (nat \<Rightarrow> real) \<Rightarrow> nat \<Rightarrow> nat \<Rightarrow> real" where
  "grad_context m n grad_user h k =
     (1 - na_semantic_residual (nm_architecture m)) * grad_user (h * width_of (nm_architecture m) + k) / real n"

definition grad_attention :: "nrms_model \<Rightarrow> real list list \<Rightarrow> (nat \<Rightarrow> real) \<Rightarrow> nat \<Rightarrow> nat \<Rightarrow> real" where
  "grad_attention m embeddings grad_user h j =
     (\<Sum>k<width_of (nm_architecture m). grad_context m (length embeddings) grad_user h k *
        project (dim_of (nm_architecture m)) (positioned m embeddings) (nm_value m) h j k)"

definition grad_scores :: "nrms_model \<Rightarrow> real list list \<Rightarrow> (nat \<Rightarrow> real) \<Rightarrow> nat \<Rightarrow> nat \<Rightarrow> nat \<Rightarrow> real" where
  "grad_scores m embeddings grad_user h l j =
     (let row_sum = (\<Sum>i<length embeddings. attention m embeddings h l i * grad_attention m embeddings grad_user h i) in
      attention m embeddings h l j * (grad_attention m embeddings grad_user h j - row_sum))"

definition grad_query :: "nrms_model \<Rightarrow> real list list \<Rightarrow> (nat \<Rightarrow> real) \<Rightarrow> projection" where
  "grad_query m embeddings grad_user h d k =
     (let a = nm_architecture m; x = positioned m embeddings; scale = 1 / sqrt (real (width_of a)) in
      \<Sum>l<length embeddings. x l d *
        ((\<Sum>j<length embeddings. grad_scores m embeddings grad_user h l j * project (dim_of a) x (nm_key m) h j k) * scale))"

definition grad_key :: "nrms_model \<Rightarrow> real list list \<Rightarrow> (nat \<Rightarrow> real) \<Rightarrow> projection" where
  "grad_key m embeddings grad_user h d k =
     (let a = nm_architecture m; x = positioned m embeddings; scale = 1 / sqrt (real (width_of a)) in
      \<Sum>j<length embeddings. x j d *
        ((\<Sum>l<length embeddings. grad_scores m embeddings grad_user h l j * project (dim_of a) x (nm_query m) h l k) * scale))"

definition grad_value :: "nrms_model \<Rightarrow> real list list \<Rightarrow> (nat \<Rightarrow> real) \<Rightarrow> projection" where
  "grad_value m embeddings grad_user h d k =
     (let x = positioned m embeddings in
      \<Sum>j<length embeddings. x j d *
        (\<Sum>l<length embeddings. attention m embeddings h l j * grad_context m (length embeddings) grad_user h k))"

section \<open>Pairwise training\<close>

record pairwise_example =
  pe_positive_request :: string
  pe_negative_request :: string
  pe_positive_label :: int
  pe_negative_label :: int
  pe_history :: "real list list"
  pe_declared :: "real list option"
  pe_positive :: "real list"
  pe_negative :: "real list"

record gradients =
  gr_query :: projection
  gr_key :: projection
  gr_value :: projection
  gr_updated :: nat

definition add_projection :: "projection \<Rightarrow> projection \<Rightarrow> projection" where
  "add_projection p q = (\<lambda>h d k. p h d k + q h d k)"

definition zero_gradients :: gradients where
  "zero_gradients = \<lparr>gr_query = (\<lambda>_ _ _. 0), gr_key = (\<lambda>_ _ _. 0), gr_value = (\<lambda>_ _ _. 0), gr_updated = 0\<rparr>"

definition grad_user :: "real \<Rightarrow> pairwise_example \<Rightarrow> nat \<Rightarrow> real" where
  "grad_user score_gap ex c = (sigmoid score_gap - 1) * (pe_positive ex ! c - pe_negative ex ! c)"

definition epoch_step :: "nrms_model \<Rightarrow> gradients \<Rightarrow> pairwise_example \<Rightarrow> gradients res" where
  "epoch_step m g ex =
     (if pe_history ex = [] then Inr g
      else let truncated = truncate_history (nm_architecture m) (pe_history ex) in
        bind_res (forward_history m truncated) (\<lambda>user.
        bind_res (vector_dot user (pe_positive ex)) (\<lambda>p.
        bind_res (vector_dot user (pe_negative ex)) (\<lambda>q.
          let gu = grad_user (p - q) ex in
          Inr \<lparr>gr_query = add_projection (gr_query g) (grad_query m truncated gu),
               gr_key = add_projection (gr_key g) (grad_key m truncated gu),
               gr_value = add_projection (gr_value g) (grad_value m truncated gu),
               gr_updated = Suc (gr_updated g)\<rparr>))))"

definition descend :: "real \<Rightarrow> nat \<Rightarrow> projection \<Rightarrow> projection \<Rightarrow> projection" where
  "descend learning_rate updated w g = (\<lambda>h d k. w h d k - learning_rate * (g h d k / real updated))"

definition with_updated_weights :: "nrms_model \<Rightarrow> projection \<Rightarrow> projection \<Rightarrow> projection \<Rightarrow> nrms_model" where
  "with_updated_weights m q k v = m\<lparr>nm_query := q, nm_key := k, nm_value := v\<rparr>"

definition train_pairwise_epoch :: "nrms_model \<Rightarrow> pairwise_example list \<Rightarrow> real \<Rightarrow> nrms_model res" where
  "train_pairwise_epoch m examples learning_rate =
     bind_res (fold_res (epoch_step m) zero_gradients examples) (\<lambda>g.
       Inr (if gr_updated g = 0 then m
            else let step = descend learning_rate (gr_updated g) in
              with_updated_weights m (step (nm_query m) (gr_query g)) (step (nm_key m) (gr_key g))
                (step (nm_value m) (gr_value g))))"

section \<open>Attention rows are distributions\<close>

lemma softmax_plain: "softmax n s j = exp (s j) / (\<Sum>i<n. exp (s i))"
proof -
  let ?top = "Max (s ` {..<n})"
  have "(\<Sum>i<n. exp (s i - ?top)) = (\<Sum>i<n. exp (s i)) / exp ?top"
    unfolding sum_divide_distrib by (simp add: exp_diff)
  then show ?thesis by (simp add: softmax_def Let_def exp_diff)
qed

lemma exp_sum_pos: "0 < (n :: nat) \<Longrightarrow> 0 < (\<Sum>i<n. exp (s i :: real))"
  by (intro sum_pos) auto

lemma softmax_distribution:
  assumes "0 < n"
  shows "0 < softmax n s j" "(\<Sum>i<n. softmax n s i) = 1"
proof -
  show "0 < softmax n s j" using exp_sum_pos[OF assms, of s] by (simp add: softmax_plain)
  show "(\<Sum>i<n. softmax n s i) = 1"
    using exp_sum_pos[OF assms, of s] unfolding softmax_plain by (simp add: sum_divide_distrib[symmetric])
qed

lemma attention_distribution:
  assumes "embeddings \<noteq> []"
  shows "0 < attention m embeddings h l j" "(\<Sum>i<length embeddings. attention m embeddings h l i) = 1"
  using assms softmax_distribution by (auto simp: attention_def Let_def)

section \<open>Derivatives\<close>

lemma softmax_deriv:
  assumes "\<And>i. i < n \<Longrightarrow> ((\<lambda>t. s t i) has_real_derivative s' i) (at x)" "j < n"
  shows "((\<lambda>t. softmax n (s t) j) has_real_derivative
     softmax n (s x) j * (s' j - (\<Sum>i<n. softmax n (s x) i * s' i))) (at x)"
proof -
  let ?z = "\<Sum>i<n. exp (s x i)"
  have pos: "?z \<noteq> 0" using exp_sum_pos[of n "s x"] assms(2) by linarith
  have num: "((\<lambda>t. exp (s t j)) has_real_derivative exp (s x j) * s' j) (at x)"
    using assms by (auto intro!: derivative_eq_intros)
  have den: "((\<lambda>t. \<Sum>i<n. exp (s t i)) has_real_derivative (\<Sum>i<n. exp (s x i) * s' i)) (at x)"
    using assms(1) by (intro DERIV_sum) (auto intro!: derivative_eq_intros)
  have "((\<lambda>t. exp (s t j) / (\<Sum>i<n. exp (s t i))) has_real_derivative
     (exp (s x j) * s' j * ?z - exp (s x j) * (\<Sum>i<n. exp (s x i) * s' i)) / (?z * ?z)) (at x)"
    by (rule DERIV_divide[OF num den pos])
  moreover have "(exp (s x j) * s' j * ?z - exp (s x j) * (\<Sum>i<n. exp (s x i) * s' i)) / (?z * ?z) =
      softmax n (s x) j * (s' j - (\<Sum>i<n. softmax n (s x) i * s' i))"
    using pos by (simp add: softmax_plain sum_divide_distrib[symmetric] field_simps)
  ultimately show ?thesis by (simp add: softmax_plain)
qed

text \<open>The Jacobian of a softmax row is symmetric.\<close>

lemma softmax_adjoint:
  fixes a s g :: "nat \<Rightarrow> real"
  shows "(\<Sum>j<n. a j * (s j - (\<Sum>i<n. a i * s i)) * g j) = (\<Sum>j<n. a j * (g j - (\<Sum>i<n. a i * g i)) * s j)"
proof -
  have expand: "(\<Sum>j<n. a j * (u j - c) * v j) = (\<Sum>j<n. a j * u j * v j) - c * (\<Sum>j<n. a j * v j)"
    for u v :: "nat \<Rightarrow> real" and c
    by (simp add: sum_distrib_left sum_subtractf algebra_simps)
  show ?thesis unfolding expand by (simp add: mult.commute mult.left_commute)
qed

text \<open>The gradient of a form that is linear in a projection is read off its coefficients.\<close>

lemma project_adjoint:
  fixes x :: "nat \<Rightarrow> nat \<Rightarrow> real"
  shows "(\<Sum>l<n. \<Sum>k<w. (\<Sum>d<D. x l d * p d k) * c l k) = (\<Sum>d<D. \<Sum>k<w. (\<Sum>l<n. x l d * c l k) * p d k)"
proof -
  have "(\<Sum>l<n. \<Sum>k<w. (\<Sum>d<D. x l d * p d k) * c l k) = (\<Sum>l<n. \<Sum>k<w. \<Sum>d<D. x l d * c l k * p d k)"
    by (simp add: sum_distrib_right sum_distrib_left mult.commute mult.left_commute)
  also have "\<dots> = (\<Sum>l<n. \<Sum>d<D. \<Sum>k<w. x l d * c l k * p d k)"
    by (rule sum.cong[OF refl]) (rule sum.swap)
  also have "\<dots> = (\<Sum>d<D. \<Sum>l<n. \<Sum>k<w. x l d * c l k * p d k)" by (rule sum.swap)
  also have "\<dots> = (\<Sum>d<D. \<Sum>k<w. \<Sum>l<n. x l d * c l k * p d k)"
    by (rule sum.cong[OF refl]) (rule sum.swap)
  finally show ?thesis by (simp add: sum_distrib_right)
qed

text \<open>Perturbing the weights along a direction.\<close>

type_synonym direction = "projection \<times> projection \<times> projection"

fun shifted :: "direction \<Rightarrow> real \<Rightarrow> nrms_model \<Rightarrow> nrms_model" where
  "shifted (pq, pk, pv) t m =
     m\<lparr>nm_query := (\<lambda>h d k. nm_query m h d k + t * pq h d k), nm_key := (\<lambda>h d k. nm_key m h d k + t * pk h d k),
       nm_value := (\<lambda>h d k. nm_value m h d k + t * pv h d k)\<rparr>"

lemma shifted_arch [simp]: "nm_architecture (shifted p t m) = nm_architecture m"
  by (cases p) simp

lemma shifted_positioned [simp]: "positioned (shifted p t m) = positioned m"
  by (intro ext) (simp add: positioned_def)

lemma shifted_zero [simp]: "shifted p 0 m = m"
  by (cases p) simp

lemma project_shift: "project D x (\<lambda>h d k. w h d k + t * p h d k) h l k = project D x w h l k + t * project D x p h l k"
  by (simp add: project_def sum.distrib sum_distrib_left algebra_simps)

lemma project_shift_deriv:
  "((\<lambda>t. project D x (\<lambda>h d k. w h d k + t * p h d k) h l k) has_real_derivative project D x p h l k) (at 0)"
  unfolding project_shift by (auto intro!: derivative_eq_intros)

lemma score_deriv:
  assumes "\<And>k. k < w \<Longrightarrow> ((\<lambda>t. q t l k) has_real_derivative q' k) (at x)"
    and "\<And>k. k < w \<Longrightarrow> ((\<lambda>t. c t j k) has_real_derivative c' k) (at x)"
  shows "((\<lambda>t. attention_score w (q t) (c t) l j) has_real_derivative
     (\<Sum>k<w. q' k * c x j k + q x l k * c' k) / sqrt (real w)) (at x)"
proof -
  have "((\<lambda>t. q t l k * c t j k) has_real_derivative q' k * c x j k + q x l k * c' k) (at x)" if "k < w" for k
    using DERIV_mult[OF assms(1)[OF that] assms(2)[OF that]] by (simp add: algebra_simps)
  then have "((\<lambda>t. \<Sum>k<w. q t l k * c t j k) has_real_derivative (\<Sum>k<w. q' k * c x j k + q x l k * c' k)) (at x)"
    by (intro DERIV_sum) auto
  then show ?thesis unfolding attention_score_def by (rule DERIV_cdivide)
qed

definition score_slope :: "nrms_model \<Rightarrow> real list list \<Rightarrow> direction \<Rightarrow> nat \<Rightarrow> nat \<Rightarrow> nat \<Rightarrow> real" where
  "score_slope m e p h l j =
     (let a = nm_architecture m; x = positioned m e; D = dim_of a in
      (\<Sum>k<width_of a. project D x (fst p) h l k * project D x (nm_key m) h j k +
         project D x (nm_query m) h l k * project D x (fst (snd p)) h j k) / sqrt (real (width_of a)))"

definition attention_slope :: "nrms_model \<Rightarrow> real list list \<Rightarrow> direction \<Rightarrow> nat \<Rightarrow> nat \<Rightarrow> nat \<Rightarrow> real" where
  "attention_slope m e p h l j =
     attention m e h l j * (score_slope m e p h l j - (\<Sum>i<length e. attention m e h l i * score_slope m e p h l i))"

lemma attention_deriv:
  assumes "j < length e"
  shows "((\<lambda>t. attention (shifted p t m) e h l j) has_real_derivative attention_slope m e p h l j) (at 0)"
proof -
  obtain pq pk pv where p: "p = (pq, pk, pv)" by (cases p) auto
  let ?a = "nm_architecture m" and ?x = "positioned m e"
  let ?q = "\<lambda>t. project (dim_of ?a) ?x (\<lambda>h d k. nm_query m h d k + t * pq h d k) h"
  let ?k = "\<lambda>t. project (dim_of ?a) ?x (\<lambda>h d k. nm_key m h d k + t * pk h d k) h"
  have "((\<lambda>t. attention_score (width_of ?a) (?q t) (?k t) l i) has_real_derivative score_slope m e p h l i) (at 0)" for i
    using score_deriv[of "width_of ?a" ?q l "\<lambda>k. project (dim_of ?a) ?x pq h l k" 0 ?k i "\<lambda>k. project (dim_of ?a) ?x pk h i k"]
    by (simp add: project_shift_deriv score_slope_def Let_def p)
  from softmax_deriv[OF this assms]
  show ?thesis
    using shifted_positioned[of p _ m] shifted_arch[of p _ m]
    by (simp add: attention_def attention_slope_def Let_def p)
qed

definition context_slope :: "nrms_model \<Rightarrow> real list list \<Rightarrow> direction \<Rightarrow> nat \<Rightarrow> nat \<Rightarrow> nat \<Rightarrow> real" where
  "context_slope m e p h l k =
     (let D = dim_of (nm_architecture m); x = positioned m e in
      \<Sum>j<length e. attention_slope m e p h l j * project D x (nm_value m) h j k +
        attention m e h l j * project D x (snd (snd p)) h j k)"

lemma context_deriv:
  "((\<lambda>t. head_context (shifted p t m) e h l k) has_real_derivative context_slope m e p h l k) (at 0)"
proof -
  obtain pq pk pv where p: "p = (pq, pk, pv)" by (cases p) auto
  let ?D = "dim_of (nm_architecture m)" and ?x = "positioned m e"
  let ?v = "\<lambda>t. project ?D ?x (\<lambda>h d k. nm_value m h d k + t * pv h d k) h"
  have "((\<lambda>t. attention (shifted p t m) e h l j * ?v t j k) has_real_derivative
      attention_slope m e p h l j * project ?D ?x (nm_value m) h j k + attention m e h l j * project ?D ?x pv h j k) (at 0)"
    if "j < length e" for j
    using DERIV_mult[OF attention_deriv[OF that, of p m h l] project_shift_deriv[of ?D ?x "nm_value m" pv h j k]]
    by (simp add: algebra_simps)
  then have "((\<lambda>t. \<Sum>j<length e. attention (shifted p t m) e h l j * ?v t j k) has_real_derivative context_slope m e p h l k) (at 0)"
    unfolding context_slope_def Let_def p snd_conv by (intro DERIV_sum) (simp add: p)
  then show ?thesis
    using shifted_positioned[of p _ m] shifted_arch[of p _ m] by (simp add: head_context_def p)
qed

lemma user_component_deriv:
  "((\<lambda>t. user_component (shifted p t m) e c) has_real_derivative
     (1 - na_semantic_residual (nm_architecture m)) *
       ((\<Sum>l<length e. context_slope m e p (c div width_of (nm_architecture m)) l (c mod width_of (nm_architecture m)))
         / real (length e))) (at 0)"
proof -
  let ?w = "width_of (nm_architecture m)"
  have "((\<lambda>t. \<Sum>l<length e. head_context (shifted p t m) e (c div ?w) l (c mod ?w)) has_real_derivative
      (\<Sum>l<length e. context_slope m e p (c div ?w) l (c mod ?w))) (at 0)"
    by (intro DERIV_sum context_deriv)
  from DERIV_add[OF DERIV_cmult[OF DERIV_cdivide[OF this]] DERIV_const] show ?thesis
    unfolding user_component_def concatenated_def Let_def shifted_arch add_0_right by blast
qed

lemma sum_blocks:
  fixes f :: "nat \<Rightarrow> real"
  shows "(\<Sum>c<H * w. f c) = (\<Sum>h<H. \<Sum>k<w. f (h * w + k))"
proof -
  have "sum f {h * w..<h * w + w} = (\<Sum>k<w. f (h * w + k))" for h
    using sum.shift_bounds_nat_ivl[of f 0 "h * w" w] by (simp add: lessThan_atLeast0 add.commute)
  then show ?thesis using sum.nat_group[of f w H] by simp
qed

text \<open>The backward pass through the attention of one head.\<close>

lemma head_adjoint:
  fixes m e p gu h
  defines "a \<equiv> attention m e h" and "v \<equiv> project (dim_of (nm_architecture m)) (positioned m e) (nm_value m) h"
    and "v' \<equiv> project (dim_of (nm_architecture m)) (positioned m e) (snd (snd p)) h"
    and "w \<equiv> width_of (nm_architecture m)" and "n \<equiv> length e"
  shows "(\<Sum>k<w. grad_context m n gu h k * (\<Sum>l<n. context_slope m e p h l k)) =
    (\<Sum>l<n. \<Sum>j<n. grad_scores m e gu h l j * score_slope m e p h l j) +
    (\<Sum>j<n. \<Sum>k<w. v' j k * (\<Sum>l<n. a l j * grad_context m n gu h k))"
proof -
  let ?c = "\<lambda>k. grad_context m n gu h k"
  have row: "(\<Sum>j<n. attention_slope m e p h l j * grad_attention m e gu h j) =
      (\<Sum>j<n. grad_scores m e gu h l j * score_slope m e p h l j)" for l
    using softmax_adjoint[of "a l" "score_slope m e p h l" n "grad_attention m e gu h"]
    by (simp add: attention_slope_def grad_scores_def Let_def a_def n_def)
  have "(\<Sum>k<w. ?c k * (\<Sum>l<n. context_slope m e p h l k)) =
      (\<Sum>l<n. \<Sum>j<n. attention_slope m e p h l j * (\<Sum>k<w. ?c k * v j k)) +
      (\<Sum>k<w. \<Sum>l<n. \<Sum>j<n. ?c k * (a l j * v' j k))"
  proof -
    have "(\<Sum>k<w. ?c k * (\<Sum>l<n. context_slope m e p h l k)) =
        (\<Sum>k<w. \<Sum>l<n. \<Sum>j<n. attention_slope m e p h l j * (?c k * v j k)) +
        (\<Sum>k<w. \<Sum>l<n. \<Sum>j<n. ?c k * (a l j * v' j k))"
      by (simp add: context_slope_def Let_def a_def v_def v'_def n_def sum_distrib_left sum.distrib algebra_simps)
    also have "(\<Sum>k<w. \<Sum>l<n. \<Sum>j<n. attention_slope m e p h l j * (?c k * v j k)) =
        (\<Sum>l<n. \<Sum>k<w. \<Sum>j<n. attention_slope m e p h l j * (?c k * v j k))" by (rule sum.swap)
    also have "\<dots> = (\<Sum>l<n. \<Sum>j<n. \<Sum>k<w. attention_slope m e p h l j * (?c k * v j k))"
      by (rule sum.cong[OF refl]) (rule sum.swap)
    finally show ?thesis by (simp add: sum_distrib_left)
  qed
  also have "(\<Sum>l<n. \<Sum>j<n. attention_slope m e p h l j * (\<Sum>k<w. ?c k * v j k)) =
      (\<Sum>l<n. \<Sum>j<n. grad_scores m e gu h l j * score_slope m e p h l j)"
    using row by (simp add: grad_attention_def v_def w_def n_def)
  also have "(\<Sum>k<w. \<Sum>l<n. \<Sum>j<n. ?c k * (a l j * v' j k)) = (\<Sum>j<n. \<Sum>k<w. v' j k * (\<Sum>l<n. a l j * ?c k))"
  proof -
    have "(\<Sum>k<w. \<Sum>l<n. \<Sum>j<n. ?c k * (a l j * v' j k)) = (\<Sum>k<w. \<Sum>j<n. \<Sum>l<n. ?c k * (a l j * v' j k))"
      by (rule sum.cong[OF refl]) (rule sum.swap)
    also have "\<dots> = (\<Sum>j<n. \<Sum>k<w. \<Sum>l<n. ?c k * (a l j * v' j k))" by (rule sum.swap)
    finally show ?thesis by (simp add: sum_distrib_left mult.commute mult.left_commute)
  qed
  finally show ?thesis .
qed

text \<open>The pairing of the three gradients with a direction, one head at a time.\<close>

definition head_inner :: "nrms_model \<Rightarrow> projection \<Rightarrow> projection \<Rightarrow> nat \<Rightarrow> real" where
  "head_inner m g p h =
     (\<Sum>d<dim_of (nm_architecture m). \<Sum>k<width_of (nm_architecture m). g h d k * p h d k)"

lemma value_adjoint:
  "(\<Sum>j<length e. \<Sum>k<width_of (nm_architecture m).
      project (dim_of (nm_architecture m)) (positioned m e) pv h j k *
      (\<Sum>l<length e. attention m e h l j * grad_context m (length e) gu h k)) = head_inner m (grad_value m e gu) pv h"
  unfolding project_def by (rule trans[OF project_adjoint]) (simp add: head_inner_def grad_value_def Let_def)

lemma score_adjoint:
  "(\<Sum>l<length e. \<Sum>j<length e. grad_scores m e gu h l j * score_slope m e (pq, pk, pv) h l j) =
     head_inner m (grad_query m e gu) pq h + head_inner m (grad_key m e gu) pk h"
proof -
  let ?n = "length e" and ?a = "nm_architecture m" and ?x = "positioned m e"
  let ?D = "dim_of ?a" and ?w = "width_of ?a" and ?r = "1 / sqrt (real (width_of ?a))" and ?g = "grad_scores m e gu h"
  let ?q = "project ?D ?x (nm_query m) h" and ?k = "project ?D ?x (nm_key m) h"
  let ?q' = "project ?D ?x pq h" and ?k' = "project ?D ?x pk h"
  have "(\<Sum>l<?n. \<Sum>j<?n. ?g l j * score_slope m e (pq, pk, pv) h l j) =
      (\<Sum>l<?n. \<Sum>j<?n. \<Sum>i<?w. ?q' l i * (?g l j * ?k j i * ?r)) + (\<Sum>l<?n. \<Sum>j<?n. \<Sum>i<?w. ?k' j i * (?g l j * ?q l i * ?r))"
    by (simp add: score_slope_def Let_def sum_divide_distrib sum_distrib_left sum.distrib add_divide_distrib algebra_simps)
  also have "(\<Sum>l<?n. \<Sum>j<?n. \<Sum>i<?w. ?q' l i * (?g l j * ?k j i * ?r)) =
      (\<Sum>l<?n. \<Sum>i<?w. ?q' l i * ((\<Sum>j<?n. ?g l j * ?k j i) * ?r))"
  proof (rule sum.cong[OF refl])
    fix l
    show "(\<Sum>j<?n. \<Sum>i<?w. ?q' l i * (?g l j * ?k j i * ?r)) = (\<Sum>i<?w. ?q' l i * ((\<Sum>j<?n. ?g l j * ?k j i) * ?r))"
      unfolding sum_distrib_right sum_distrib_left by (rule sum.swap)
  qed
  also have "\<dots> = head_inner m (grad_query m e gu) pq h"
    unfolding project_def[of ?D ?x pq h] by (rule trans[OF project_adjoint]) (simp add: head_inner_def grad_query_def Let_def)
  also have "(\<Sum>l<?n. \<Sum>j<?n. \<Sum>i<?w. ?k' j i * (?g l j * ?q l i * ?r)) =
      (\<Sum>j<?n. \<Sum>i<?w. ?k' j i * ((\<Sum>l<?n. ?g l j * ?q l i) * ?r))"
  proof -
    have "(\<Sum>l<?n. \<Sum>i<?w. ?k' j i * (?g l j * ?q l i * ?r)) = (\<Sum>i<?w. ?k' j i * ((\<Sum>l<?n. ?g l j * ?q l i) * ?r))" for j
      unfolding sum_distrib_right sum_distrib_left by (rule sum.swap)
    then show ?thesis by (subst sum.swap) simp
  qed
  also have "\<dots> = head_inner m (grad_key m e gu) pk h"
    unfolding project_def[of ?D ?x pk h] by (rule trans[OF project_adjoint]) (simp add: head_inner_def grad_key_def Let_def)
  finally show ?thesis .
qed

section \<open>An epoch is a gradient step\<close>

definition architecture_ok :: "nrms_architecture \<Rightarrow> bool" where
  "architecture_ok a \<longleftrightarrow>
     0 < na_embedding_dimension a \<and> 0 < na_attention_heads a \<and> na_embedding_dimension a mod na_attention_heads a = 0"

lemma new_architecture_ok: "new_architecture d h n s p r = Inr a \<Longrightarrow> architecture_ok a"
  by (auto simp: new_architecture_def architecture_ok_def split: if_splits)

lemma dimension_blocks:
  assumes "architecture_ok a"
  shows "dim_of a = heads_of a * width_of a"
proof -
  have "na_embedding_dimension a = na_attention_heads a * head_dimension a"
    using assms by (auto simp: architecture_ok_def head_dimension_def)
  then show ?thesis using assms by (simp add: architecture_ok_def nat_mult_distrib)
qed

text \<open>Weights as triples of projections, paired within the shape the architecture gives.\<close>

definition weight_inner :: "nrms_model \<Rightarrow> direction \<Rightarrow> direction \<Rightarrow> real" where
  "weight_inner m g p =
     (\<Sum>h<heads_of (nm_architecture m). head_inner m (fst g) (fst p) h +
        head_inner m (fst (snd g)) (fst (snd p)) h + head_inner m (snd (snd g)) (snd (snd p)) h)"

definition gradients_of :: "nrms_model \<Rightarrow> real list list \<Rightarrow> (nat \<Rightarrow> real) \<Rightarrow> direction" where
  "gradients_of m e gu = (grad_query m e gu, grad_key m e gu, grad_value m e gu)"

theorem backward_is_derivative:
  assumes "architecture_ok (nm_architecture m)"
  shows "((\<lambda>t. \<Sum>c<dim_of (nm_architecture m). user_component (shifted p t m) e c * gu c) has_real_derivative
     weight_inner m (gradients_of m e gu) p) (at 0)"
proof -
  let ?a = "nm_architecture m" and ?n = "length e"
  let ?w = "width_of ?a" and ?r = "1 - na_semantic_residual ?a"
  obtain pq pk pv where p: "p = (pq, pk, pv)" by (cases p) auto
  have "((\<lambda>t. \<Sum>c<dim_of ?a. user_component (shifted p t m) e c * gu c) has_real_derivative
      (\<Sum>c<dim_of ?a. ?r * ((\<Sum>l<?n. context_slope m e p (c div ?w) l (c mod ?w)) / real ?n) * gu c)) (at 0)"
    by (intro DERIV_sum DERIV_cmult_right user_component_deriv)
  also have "(\<Sum>c<dim_of ?a. ?r * ((\<Sum>l<?n. context_slope m e p (c div ?w) l (c mod ?w)) / real ?n) * gu c) =
      (\<Sum>h<heads_of ?a. \<Sum>k<?w. grad_context m ?n gu h k * (\<Sum>l<?n. context_slope m e p h l k))"
    unfolding dimension_blocks[OF assms] sum_blocks by (simp add: grad_context_def algebra_simps)
  also have "\<dots> = weight_inner m (gradients_of m e gu) p"
    unfolding head_adjoint value_adjoint
    by (simp add: p score_adjoint value_adjoint weight_inner_def gradients_of_def)
  finally show ?thesis .
qed

definition score_gap :: "nrms_model \<Rightarrow> pairwise_example \<Rightarrow> real" where
  "score_gap m ex =
     (\<Sum>c<dim_of (nm_architecture m).
        user_component m (truncate_history (nm_architecture m) (pe_history ex)) c * (pe_positive ex ! c - pe_negative ex ! c))"

text \<open>The loss of an example: the negated log-likelihood that the positive is scored above the negative.\<close>

definition pair_loss :: "nrms_model \<Rightarrow> pairwise_example \<Rightarrow> real" where
  "pair_loss m ex = ln (1 + exp (- score_gap m ex))"

definition mean_loss :: "nrms_model \<Rightarrow> pairwise_example list \<Rightarrow> real" where
  "mean_loss m exs = sum_list (map (pair_loss m) exs) / real (length exs)"

definition warm_examples :: "pairwise_example list \<Rightarrow> pairwise_example list" where
  "warm_examples exs = filter (\<lambda>ex. pe_history ex \<noteq> []) exs"

definition example_gradient :: "nrms_model \<Rightarrow> pairwise_example \<Rightarrow> direction" where
  "example_gradient m ex =
     gradients_of m (truncate_history (nm_architecture m) (pe_history ex)) (grad_user (score_gap m ex) ex)"

lemma sigmoid_plain: "\<bar>x\<bar> \<le> 60 \<Longrightarrow> sigmoid x = 1 / (1 + exp (- x))"
  by (simp add: sigmoid_def abs_le_iff)

lemma pair_loss_deriv:
  assumes "architecture_ok (nm_architecture m)" "\<bar>score_gap m ex\<bar> \<le> 60"
  shows "((\<lambda>t. pair_loss (shifted p t m) ex) has_real_derivative weight_inner m (example_gradient m ex) p) (at 0)"
proof -
  let ?e = "truncate_history (nm_architecture m) (pe_history ex)" and ?s = "sigmoid (score_gap m ex) - 1"
  let ?g = "\<lambda>c. pe_positive ex ! c - pe_negative ex ! c"
  obtain d where d: "((\<lambda>t. score_gap (shifted p t m) ex) has_real_derivative d) (at 0)"
    using backward_is_derivative[OF assms(1), of p ?e ?g] unfolding score_gap_def shifted_arch by blast
  have "((\<lambda>t. ?s * score_gap (shifted p t m) ex) has_real_derivative weight_inner m (example_gradient m ex) p) (at 0)"
    using backward_is_derivative[OF assms(1), of p ?e "grad_user (score_gap m ex) ex"]
    by (simp add: score_gap_def example_gradient_def grad_user_def sum_distrib_left mult.left_commute)
  moreover have "((\<lambda>t. ?s * score_gap (shifted p t m) ex) has_real_derivative ?s * d) (at 0)"
    by (rule DERIV_cmult[OF d])
  ultimately have eq: "weight_inner m (example_gradient m ex) p = ?s * d" by (rule DERIV_unique)
  have pos: "0 < 1 + exp (- score_gap m ex)" using exp_gt_zero[of "- score_gap m ex"] by linarith
  have "((\<lambda>t. pair_loss (shifted p t m) ex) has_real_derivative
      - d * exp (- score_gap m ex) / (1 + exp (- score_gap m ex))) (at 0)"
    unfolding pair_loss_def using pos by (auto intro!: derivative_eq_intros d simp: divide_simps)
  also have "- d * exp (- score_gap m ex) / (1 + exp (- score_gap m ex)) = ?s * d"
    using pos by (simp add: sigmoid_plain[OF assms(2)] field_simps)
  finally show ?thesis by (simp add: eq)
qed

definition aligned :: "nrms_model \<Rightarrow> pairwise_example \<Rightarrow> bool" where
  "aligned m ex \<longleftrightarrow>
     well_shaped (dim_of (nm_architecture m)) (truncate_history (nm_architecture m) (pe_history ex)) \<and>
     length (pe_positive ex) = dim_of (nm_architecture m) \<and> length (pe_negative ex) = dim_of (nm_architecture m)"

fun add_direction :: "direction \<Rightarrow> gradients \<Rightarrow> gradients" where
  "add_direction (q, k, v) g =
     \<lparr>gr_query = add_projection (gr_query g) q, gr_key = add_projection (gr_key g) k,
      gr_value = add_projection (gr_value g) v, gr_updated = Suc (gr_updated g)\<rparr>"

lemma epoch_step_value:
  "epoch_step m g ex =
     (if pe_history ex = [] then Inr g
      else if aligned m ex then Inr (add_direction (example_gradient m ex) g)
      else Inl (if well_shaped (dim_of (nm_architecture m)) (truncate_history (nm_architecture m) (pe_history ex))
                then ValueError ''shapes not aligned'' else ValueError ''operands could not be broadcast together''))"
proof -
  let ?D = "dim_of (nm_architecture m)" and ?e = "truncate_history (nm_architecture m) (pe_history ex)"
  have "(\<Sum>i<?D. user_component m ?e i * pe_positive ex ! i) - (\<Sum>i<?D. user_component m ?e i * pe_negative ex ! i) =
      score_gap m ex"
    by (simp add: score_gap_def sum_subtractf right_diff_distrib)
  then show ?thesis
    by (auto simp: epoch_step_def Let_def forward_history_def vector_dot_def aligned_def example_gradient_def gradients_of_def)
qed

lemma epoch_fold:
  assumes "fold_res (epoch_step m) g exs = Inr g'"
  shows "(\<forall>ex\<in>set (warm_examples exs). aligned m ex) \<and> g' = foldl (\<lambda>g d. add_direction d g) g (map (example_gradient m) (warm_examples exs))"
  using assms
proof (induction exs arbitrary: g)
  case (Cons ex exs)
  then show ?case
    by (cases "pe_history ex = []") (auto simp: warm_examples_def epoch_step_value split: if_splits)
qed (simp add: warm_examples_def)

lemma head_inner_add: "head_inner m (add_projection a b) p h = head_inner m a p h + head_inner m b p h"
  by (simp add: head_inner_def add_projection_def sum.distrib algebra_simps)

lemma head_inner_scale: "head_inner m (\<lambda>h d k. c * g h d k) p h = c * head_inner m g p h"
  by (simp add: head_inner_def sum_distrib_left mult.assoc)

lemma accumulated:
  "weight_inner m (gr_query g', gr_key g', gr_value g') p =
     weight_inner m (gr_query g, gr_key g, gr_value g) p + sum_list (map (\<lambda>d. weight_inner m d p) ds) \<and>
   gr_updated g' = gr_updated g + length ds"
  if "g' = foldl (\<lambda>g d. add_direction d g) g ds"
  using that
proof (induction ds arbitrary: g)
  case (Cons d ds)
  obtain q k v where d: "d = (q, k, v)" by (cases d) auto
  show ?case
    using Cons.IH[of "add_direction d g"] Cons.prems
    by (simp add: d weight_inner_def head_inner_add sum.distrib algebra_simps)
qed simp

lemma sum_list_deriv:
  "(\<And>x. x \<in> set xs \<Longrightarrow> ((\<lambda>t. f t x) has_real_derivative f' x) (at z)) \<Longrightarrow>
     ((\<lambda>t. sum_list (map (f t) xs)) has_real_derivative sum_list (map f' xs)) (at z)"
  by (induction xs) (auto intro!: DERIV_add)

text \<open>The rate of change of the weights: what a step of gradient descent follows.\<close>

definition weight_step :: "nrms_model \<Rightarrow> nrms_model \<Rightarrow> real \<Rightarrow> direction" where
  "weight_step m m' rate =
     ((\<lambda>h d k. (nm_query m h d k - nm_query m' h d k) / rate), (\<lambda>h d k. (nm_key m h d k - nm_key m' h d k) / rate),
      (\<lambda>h d k. (nm_value m h d k - nm_value m' h d k) / rate))"

lemma weight_inner_scale:
  "weight_inner m (\<lambda>h d k. c * q h d k, \<lambda>h d k. c * k' h d k, \<lambda>h d k. c * v h d k) p = c * weight_inner m (q, k', v) p"
  by (simp add: weight_inner_def head_inner_scale sum_distrib_left algebra_simps)

text \<open>
  C4. Backpropagation is correct: whenever an epoch of pairwise training returns, the weights it returns
  differ from the old ones by the learning rate times the gradient of the mean pairwise loss over the
  examples with a history. In every direction \<open>p\<close> of the weights the derivative of that loss is the inner
  product of \<open>p\<close> with the step taken, as long as no score gap is beyond the clipping range of the sigmoid.
  The architecture, the calibration and the fallback vector are unchanged.
\<close>

theorem pairwise_epoch_is_gradient_step:
  assumes "architecture_ok (nm_architecture m)" "train_pairwise_epoch m examples rate = Inr m'" "rate \<noteq> 0"
    and "warm_examples examples \<noteq> []" "\<forall>ex\<in>set (warm_examples examples). \<bar>score_gap m ex\<bar> \<le> 60"
  shows "((\<lambda>t. mean_loss (shifted p t m) (warm_examples examples)) has_real_derivative
      weight_inner m (weight_step m m' rate) p) (at 0) \<and>
    m' = with_updated_weights m (nm_query m') (nm_key m') (nm_value m')"
proof -
  let ?warm = "warm_examples examples"
  obtain g where g: "fold_res (epoch_step m) zero_gradients examples = Inr g"
    using assms(2) unfolding train_pairwise_epoch_def by (elim bind_resE) blast
  have acc: "weight_inner m (gr_query g, gr_key g, gr_value g) p = sum_list (map (\<lambda>ex. weight_inner m (example_gradient m ex) p) ?warm)"
      "gr_updated g = length ?warm"
    using accumulated[OF conjunct2[OF epoch_fold[OF g]], of m p]
    by (simp_all add: zero_gradients_def weight_inner_def head_inner_def comp_def)
  have n: "gr_updated g \<noteq> 0" using acc(2) assms(4) by simp
  have m': "m' = with_updated_weights m (descend rate (gr_updated g) (nm_query m) (gr_query g))
      (descend rate (gr_updated g) (nm_key m) (gr_key g)) (descend rate (gr_updated g) (nm_value m) (gr_value g))"
    using assms(2) n by (simp add: train_pairwise_epoch_def g Let_def)
  have "weight_step m m' rate =
      ((\<lambda>h d k. 1 / real (length ?warm) * gr_query g h d k), (\<lambda>h d k. 1 / real (length ?warm) * gr_key g h d k),
       (\<lambda>h d k. 1 / real (length ?warm) * gr_value g h d k))"
    using assms(3) by (simp add: m' weight_step_def with_updated_weights_def descend_def acc(2))
  then have "weight_inner m (weight_step m m' rate) p =
      sum_list (map (\<lambda>ex. weight_inner m (example_gradient m ex) p) ?warm) / real (length ?warm)"
    by (simp only: weight_inner_scale acc(1)) (simp only: mult_1 times_divide_eq_left)
  moreover have "((\<lambda>t. mean_loss (shifted p t m) ?warm) has_real_derivative
      sum_list (map (\<lambda>ex. weight_inner m (example_gradient m ex) p) ?warm) / real (length ?warm)) (at 0)"
    unfolding mean_loss_def using assms(1,5) by (intro DERIV_cdivide sum_list_deriv pair_loss_deriv) auto
  ultimately show ?thesis by (simp add: m' with_updated_weights_def)
qed

definition demo_model :: nrms_model where
  "demo_model =
     \<lparr>nm_architecture = \<lparr>na_embedding_dimension = 1, na_attention_heads = 1, na_history_length = 20, na_seed = 1,
        na_position_scale = 0, na_semantic_residual = 0\<rparr>,
      nm_query = (\<lambda>_ _ _. 0), nm_key = (\<lambda>_ _ _. 0), nm_value = (\<lambda>_ _ _. 1), nm_calibration_scale = 1,
      nm_calibration_bias = 0, nm_popular = None\<rparr>"

definition demo_example :: pairwise_example where
  "demo_example =
     \<lparr>pe_positive_request = ''r'', pe_negative_request = ''r'', pe_positive_label = 1, pe_negative_label = 0,
      pe_history = [[1], [1]], pe_declared = None, pe_positive = [1], pe_negative = [0]\<rparr>"

lemma demo_fields:
  "na_embedding_dimension (nm_architecture demo_model) = 1" "head_dimension (nm_architecture demo_model) = 1"
  "na_history_length (nm_architecture demo_model) = 20" "na_position_scale (nm_architecture demo_model) = 0"
  "na_semantic_residual (nm_architecture demo_model) = 0" "nm_value demo_model h d k = 1" "nm_query demo_model h d k = 0"
  "nm_key demo_model h d k = 0"
  by (simp_all add: demo_model_def head_dimension_def)

lemma demo_gap: "score_gap demo_model demo_example = 1"
proof -
  have half: "attention demo_model [[1], [1]] h l j = 1 / 2" for h l j
    by (simp add: attention_def softmax_plain attention_score_def project_def demo_fields numeral_2_eq_2 Let_def)
  show ?thesis
    by (simp add: half score_gap_def user_component_def concatenated_def head_context_def project_def positioned_def entry_def
        demo_fields demo_example_def truncate_history_def numeral_2_eq_2 Let_def)
qed

theorem pairwise_epoch_is_gradient_step_witness:
  "\<exists>m'. train_pairwise_epoch demo_model [demo_example] (1 / 10) = Inr m' \<and>
     ((\<lambda>t. mean_loss (shifted (\<lambda>_ _ _. 0, \<lambda>_ _ _. 0, \<lambda>_ _ _. 1) t demo_model) [demo_example]) has_real_derivative
      weight_inner demo_model (weight_step demo_model m' (1 / 10)) (\<lambda>_ _ _. 0, \<lambda>_ _ _. 0, \<lambda>_ _ _. 1)) (at 0)"
proof -
  have ok: "architecture_ok (nm_architecture demo_model)" by (simp add: architecture_ok_def demo_model_def)
  have warm: "warm_examples [demo_example] = [demo_example]" by (simp add: warm_examples_def demo_example_def)
  have "aligned demo_model demo_example"
    by (simp add: aligned_def well_shaped_def truncate_history_def demo_model_def demo_example_def)
  then obtain m' where m': "train_pairwise_epoch demo_model [demo_example] (1 / 10) = Inr m'"
    by (auto simp: train_pairwise_epoch_def epoch_step_value demo_example_def)
  have "\<forall>ex\<in>set (warm_examples [demo_example]). \<bar>score_gap demo_model ex\<bar> \<le> 60" by (simp add: warm demo_gap)
  from pairwise_epoch_is_gradient_step[OF ok m' _ _ this] m'
  have "train_pairwise_epoch demo_model [demo_example] (1 / 10) = Inr m' \<and>
      ((\<lambda>t. mean_loss (shifted p t demo_model) [demo_example]) has_real_derivative
        weight_inner demo_model (weight_step demo_model m' (1 / 10)) p) (at 0)" for p unfolding warm by simp
  then show ?thesis by blast
qed

end
