(* ===== verification/NrmsModel.thy ===== *)
theory NrmsModel
  imports NrmsNetwork RankerRuntime DatasetSchemas
begin

text \<open>
  The rest of \<open>ai_pipeline/model.py\<close>: user contexts, calibrated scores, scoring the rows of a dataset and
  the pairwise examples of a training split. Rows are JSON-like values, as \<open>to_pylist\<close> returns them. The
  lemmas say what a calibrated score preserves, which pairs become examples, and that the serving
  runtime, which encodes the history of a request once, returns the scores of the offline model.
\<close>

section \<open>Arrays from values\<close>

text \<open>\<open>np.asarray(v, dtype=float)\<close> of a vector; embeddings are lists of numbers.\<close>

fun float_cell :: "pyval \<Rightarrow> real res" where
  "float_cell (VFloat r) = Inr r"
| "float_cell (VInt i) = Inr (of_int i)"
| "float_cell (VBool b) = Inr (if b then 1 else 0)"
| "float_cell _ = Inl (TypeError ''float() argument must be a string or a real number'')"

fun float_array :: "pyval \<Rightarrow> real list res" where
  "float_array (VList vs) = map_res float_cell vs"
| "float_array _ = Inl (TypeError ''not a vector'')"

lemma float_array_floats [simp]: "float_array (VList (map VFloat xs)) = Inr xs"
  by (simp add: map_res_compose)

section \<open>Context and score\<close>

record user_context =
  uc_vector :: "real list"
  uc_source :: string
  uc_history_length :: nat
  uc_fabricated_clicks :: nat

definition fallback_vector :: "nrms_model \<Rightarrow> real list" where
  "fallback_vector m =
     (case nm_popular m of Some v \<Rightarrow> v | None \<Rightarrow> replicate (dim_of (nm_architecture m)) 0)"

definition prepare_user_context :: "nrms_model \<Rightarrow> pyval list \<Rightarrow> pyval \<Rightarrow> user_context res" where
  "prepare_user_context m history declared =
     (if history \<noteq> []
      then bind_res (map_res float_array (truncate_history (nm_architecture m) history)) (\<lambda>truncated.
           bind_res (encode_history m truncated) (\<lambda>vector.
             Inr \<lparr>uc_vector = vector, uc_source = ''history'', uc_history_length = length history, uc_fabricated_clicks = 0\<rparr>))
      else if declared \<noteq> VNone
      then bind_res (float_array declared) (\<lambda>vector.
             Inr \<lparr>uc_vector = vector, uc_source = ''declared_topics'', uc_history_length = 0, uc_fabricated_clicks = 0\<rparr>)
      else Inr \<lparr>uc_vector = fallback_vector m, uc_source = ''popular_articles'', uc_history_length = 0, uc_fabricated_clicks = 0\<rparr>)"

definition raw_score :: "real list \<Rightarrow> pyval \<Rightarrow> real res" where
  "raw_score user candidate = bind_res (float_array candidate) (\<lambda>c. vector_dot user c)"

definition calibrated :: "nrms_model \<Rightarrow> real \<Rightarrow> real" where
  "calibrated m raw = sigmoid (raw * nm_calibration_scale m + nm_calibration_bias m)"

definition nrms_score :: "nrms_model \<Rightarrow> real list \<Rightarrow> pyval \<Rightarrow> real res" where
  "nrms_score m user candidate = bind_res (raw_score user candidate) (\<lambda>raw. Inr (calibrated m raw))"

section \<open>Scoring rows\<close>

definition article_embedding :: "(string, pyval) dict \<Rightarrow> pyval res" where
  "article_embedding row = py_get (py_or (vget row ''article'') (VMap [])) ''embedding'' VNone"

text \<open>\<open>sorted(row.get("history") or (), key=lambda entry: int(entry["ordinal"]))\<close>\<close>

definition sorted_history :: "(string, pyval) dict \<Rightarrow> pyval list res" where
  "sorted_history row =
     bind_res (py_iter (py_or (vget row ''history'') (VList []))) (\<lambda>entries.
     bind_res (map_res (\<lambda>e. bind_res (vsub e ''ordinal'') py_int) entries) (\<lambda>ordinals.
       Inr (map snd (sort_key fst (zip ordinals entries)))))"

text \<open>The embedding of an entry, \<open>None\<close> when \<open>(entry.get("article") or {}).get("embedding")\<close> is.\<close>

definition entry_embedding :: "pyval \<Rightarrow> pyval option res" where
  "entry_embedding e =
     bind_res (py_get e ''article'' VNone) (\<lambda>a.
     bind_res (py_get (py_or a (VMap [])) ''embedding'' VNone) (\<lambda>v. Inr (if v = VNone then None else Some v)))"

definition history_embeddings :: "(string, pyval) dict \<Rightarrow> pyval list res" where
  "history_embeddings row =
     bind_res (sorted_history row) (\<lambda>entries. bind_res (map_res entry_embedding entries) (\<lambda>vs. Inr (List.map_filter id vs)))"

definition row_context :: "nrms_model \<Rightarrow> (string, pyval) dict \<Rightarrow> user_context res" where
  "row_context m row =
     bind_res (history_embeddings row) (\<lambda>history. prepare_user_context m history (vget row ''declared_topic_embedding''))"

definition predict_row :: "nrms_model \<Rightarrow> (string, pyval) dict \<Rightarrow> real res" where
  "predict_row m row =
     bind_res (article_embedding row) (\<lambda>candidate.
       if candidate = VNone then Inl (ValueError ''candidate record is missing an embedding'')
       else bind_res (row_context m row) (\<lambda>context. nrms_score m (uc_vector context) candidate))"

definition predict_scores :: "nrms_model \<Rightarrow> (string, pyval) dict list \<Rightarrow> real list res" where
  "predict_scores m rows = map_res (predict_row m) rows"

section \<open>Pairwise examples\<close>

text \<open>\<open>tuple(float(value) for value in v)\<close>\<close>

definition float_tuple :: "pylib \<Rightarrow> pyval \<Rightarrow> real list res" where
  "float_tuple lib v = bind_res (py_iter v) (map_res (py_float lib))"

definition embedding_of :: "pyval \<Rightarrow> pyval res" where
  "embedding_of v = bind_res (vsub v ''article'') (\<lambda>a. vsub a ''embedding'')"

definition click_of :: "(string, pyval) dict \<Rightarrow> int res" where
  "click_of row = bind_res (vitem row ''click_label'') py_int"

definition example_of ::
    "pylib \<Rightarrow> string \<Rightarrow> real list list \<Rightarrow> real list option \<Rightarrow> (string, pyval) dict \<times> (string, pyval) dict \<Rightarrow> pairwise_example res" where
  "example_of lib request history declared pn =
     bind_res (bind_res (embedding_of (VMap (fst pn))) (float_tuple lib)) (\<lambda>positive.
     bind_res (bind_res (embedding_of (VMap (snd pn))) (float_tuple lib)) (\<lambda>negative.
       Inr \<lparr>pe_positive_request = request, pe_negative_request = request, pe_positive_label = 1, pe_negative_label = 0,
            pe_history = history, pe_declared = declared, pe_positive = positive, pe_negative = negative\<rparr>))"

definition request_examples :: "pylib \<Rightarrow> string \<times> (string, pyval) dict list \<Rightarrow> pairwise_example list res" where
  "request_examples lib rc =
     (case rc of (request, candidates) \<Rightarrow>
        bind_res (map_res click_of candidates) (\<lambda>labels.
        let positives = map fst (filter (\<lambda>(_, l). l = 1) (zip candidates labels));
            negatives = map fst (filter (\<lambda>(_, l). l = 0) (zip candidates labels)) in
        if positives = [] \<or> negatives = [] then Inr []
        else
          bind_res (sorted_history (hd candidates)) (\<lambda>entries.
          bind_res (map_res (\<lambda>e. bind_res (embedding_of e) (float_tuple lib)) entries) (\<lambda>history.
          bind_res (py_optional (float_tuple lib) (vget (hd candidates) ''declared_topic_embedding'')) (\<lambda>declared.
            map_res (example_of lib request history declared) (List.product positives negatives))))))"

definition request_of :: "pylib \<Rightarrow> (string, pyval) dict \<Rightarrow> string res" where
  "request_of lib row = str_item lib row ''request_group''"

text \<open>The rows of each request, in the order of the requests.\<close>

definition rows_by_request :: "pylib \<Rightarrow> (string, pyval) dict list \<Rightarrow> (string \<times> (string, pyval) dict list) list res" where
  "rows_by_request lib rows =
     bind_res (map_res (request_of lib) rows) (\<lambda>requests.
       Inr (map (\<lambda>(r, pairs). (r, map snd pairs)) (sort_key fst (group_by fst (zip requests rows)))))"

definition build_pairwise_examples :: "pylib \<Rightarrow> (string, pyval) dict list \<Rightarrow> pairwise_example list res" where
  "build_pairwise_examples lib rows =
     bind_res (rows_by_request lib rows) (\<lambda>groups.
     bind_res (map_res (request_examples lib) groups) (\<lambda>xss. Inr (concat xss)))"

section \<open>What calibration preserves\<close>

lemma sigmoid_mono: "x \<le> y \<Longrightarrow> sigmoid x \<le> sigmoid y"
proof -
  assume "x \<le> y"
  then have "min 60 (max (- 60) x) \<le> min 60 (max (- 60) y)" by linarith
  moreover have "0 < 1 + exp (- z)" for z :: real using exp_gt_zero[of "- z"] by linarith
  ultimately show ?thesis unfolding sigmoid_def Let_def by (intro divide_left_mono mult_pos_pos) auto
qed

lemma sigmoid_open_unit: "0 < sigmoid x \<and> sigmoid x < 1"
proof -
  define e where "e = exp (- min 60 (max (- 60) x))"
  then have "0 < e" "sigmoid x = 1 / (1 + e)" by (simp_all add: sigmoid_def Let_def)
  then show ?thesis by (simp add: divide_less_eq)
qed

lemma sigmoid_strict:
  assumes "x < y" "- 60 \<le> x" "y \<le> 60"
  shows "sigmoid x < sigmoid y"
proof -
  have "0 < 1 + exp (- z)" for z :: real using exp_gt_zero[of "- z"] by linarith
  then show ?thesis using assms unfolding sigmoid_def Let_def by (intro divide_strict_left_mono mult_pos_pos) auto
qed

lemma calibrated_order:
  assumes "0 \<le> nm_calibration_scale m" "a \<le> b"
  shows "calibrated m a \<le> calibrated m b"
  unfolding calibrated_def using assms by (intro sigmoid_mono add_right_mono mult_right_mono)

text \<open>A negative scale, which logistic regression may fit, reverses the order.\<close>

lemma calibrated_reversed:
  assumes "nm_calibration_scale m \<le> 0" "a \<le> b"
  shows "calibrated m b \<le> calibrated m a"
  unfolding calibrated_def using assms by (intro sigmoid_mono add_right_mono mult_right_mono_neg)

lemma predicted_scores_are_probabilities:
  assumes "predict_scores m rows = Inr ss"
  shows "length ss = length rows" "s \<in> set ss \<Longrightarrow> 0 < s \<and> s < 1"
proof -
  show "length ss = length rows" using assms by (simp add: predict_scores_def map_res_length)
  assume "s \<in> set ss"
  then obtain row where "predict_row m row = Inr s" using assms map_res_memD unfolding predict_scores_def by metis
  then show "0 < s \<and> s < 1"
    by (auto simp: predict_row_def nrms_score_def calibrated_def sigmoid_open_unit split: if_splits)
qed

section \<open>Serving the model\<close>

definition vector_val :: "real list \<Rightarrow> pyval" where
  "vector_val xs = VList (map VFloat xs)"

lemma float_array_vector [simp]: "float_array (vector_val xs) = Inr xs"
  by (simp add: vector_val_def map_res_compose del: float_array_floats)

definition serving_ranker :: "nrms_model \<Rightarrow> nrms_ranker" where
  "serving_ranker m =
     \<lparr>nk_context = (\<lambda>h. case prepare_user_context m (map vector_val h) VNone of Inr c \<Rightarrow> uc_vector c | Inl _ \<Rightarrow> []),
      nk_score = (\<lambda>user c. case nrms_score m user (vector_val c) of Inr s \<Rightarrow> Some s | Inl _ \<Rightarrow> None)\<rparr>"

text \<open>The row of a serving record, as the offline code reads it.\<close>

definition entry_value :: "nat \<times> string \<times> real list \<Rightarrow> pyval" where
  "entry_value e = VMap [(''ordinal'', VInt (int (fst e))), (''article'', VMap [(''embedding'', vector_val (snd (snd e)))])]"

definition offline_row :: "nrms_record \<Rightarrow> (string, pyval) dict" where
  "offline_row r =
     [(''article'', VMap [(''embedding'', vector_val (nr_embedding r))]), (''history'', VList (map entry_value (nr_history r)))]"

lemma offline_row_embedding: "article_embedding (offline_row r) = Inr (vector_val (nr_embedding r))"
  by (simp add: article_embedding_def offline_row_def vget_def py_or_def py_get_def)

lemma map_snd_sort_zip: "map snd (sort_key fst (zip (map (\<lambda>x. int (f x)) xs) (map g xs))) = map g (sort_key f xs)"
proof -
  have "zip (map (\<lambda>x. int (f x)) xs) (map g xs) = map (\<lambda>x. (int (f x), g x)) xs" by (induction xs) auto
  moreover have "sort_key fst (map (\<lambda>x. (int (f x), g x)) xs) = map (\<lambda>x. (int (f x), g x)) (sort_key f xs)"
  proof (induction xs)
    case (Cons x xs)
    have "insort_key fst (int (f x), g x) (map (\<lambda>x. (int (f x), g x)) ys) = map (\<lambda>x. (int (f x), g x)) (insort_key f x ys)" for ys
      by (induction ys) auto
    with Cons show ?case by simp
  qed simp
  ultimately show ?thesis by (simp add: comp_def)
qed

lemma offline_row_history:
  "history_embeddings (offline_row r) = Inr (map (vector_val \<circ> snd \<circ> snd) (sort_key fst (nr_history r)))"
proof -
  let ?h = "nr_history r"
  have entries: "sorted_history (offline_row r) = Inr (map entry_value (sort_key fst ?h))"
  proof -
    have "map_res (\<lambda>e. bind_res (vsub e ''ordinal'') py_int) (map entry_value ?h) = Inr (map (\<lambda>e. int (fst e)) ?h)"
      unfolding map_res_compose by (rule map_res_map) (simp add: entry_value_def vsub_def vitem_def)
    moreover have "bind_res (py_iter (py_or (vget (offline_row r) ''history'') (VList []))) f = f (map entry_value ?h)" for f :: "pyval list \<Rightarrow> pyval list res"
      by (simp add: offline_row_def vget_def py_or_def)
    ultimately show ?thesis by (simp add: sorted_history_def map_snd_sort_zip)
  qed
  have "map_res entry_embedding (map entry_value es) = Inr (map (Some \<circ> vector_val \<circ> snd \<circ> snd) es)" for es
    unfolding map_res_compose
    by (rule map_res_map) (simp add: entry_embedding_def entry_value_def py_get_def py_or_def vector_val_def)
  then show ?thesis
    by (simp add: history_embeddings_def entries List.map_filter_def comp_def del: map_res_Inr)
qed



section \<open>Which pairs are trained on\<close>

text \<open>The pair of embeddings behind an example, and the labels of the rows it comes from.\<close>

definition pair_of_rows :: "pylib \<Rightarrow> (string, pyval) dict \<Rightarrow> (string, pyval) dict \<Rightarrow> pairwise_example \<Rightarrow> bool" where
  "pair_of_rows lib p n ex \<longleftrightarrow>
     request_of lib p = Inr (pe_positive_request ex) \<and> request_of lib n = Inr (pe_negative_request ex) \<and>
     pe_positive_request ex = pe_negative_request ex \<and> click_of p = Inr 1 \<and> click_of n = Inr 0 \<and>
     bind_res (embedding_of (VMap p)) (float_tuple lib) = Inr (pe_positive ex) \<and>
     bind_res (embedding_of (VMap n)) (float_tuple lib) = Inr (pe_negative ex)"

lemma rows_by_request_groups:
  assumes "rows_by_request lib rows = Inr groups"
  shows "(r, cs) \<in> set groups \<Longrightarrow> cs = filter (\<lambda>row. request_of lib row = Inr r) rows \<and> cs \<noteq> []"
    and "row \<in> set rows \<Longrightarrow> \<exists>r cs. request_of lib row = Inr r \<and> (r, cs) \<in> set groups \<and> row \<in> set cs"
    and "distinct (map fst groups)"
proof -
  obtain rs where rs: "map_res (request_of lib) rows = Inr rs"
    and groups: "groups = map (\<lambda>(r, pairs). (r, map snd pairs)) (sort_key fst (group_by fst (zip rs rows)))"
    using assms by (auto simp: rows_by_request_def)
  have rel: "list_all2 (\<lambda>row r. request_of lib row = Inr r) rows rs" using rs by (simp add: map_res_Inr_iff)
  have filter: "map snd (filter (\<lambda>x. fst x = r) (zip rs rows)) = filter (\<lambda>row. request_of lib row = Inr r) rows" for r
    using rel by (induction rule: list_all2_induct) auto
  have member: "(r, cs) \<in> set groups \<longleftrightarrow> (\<exists>ps. (r, ps) \<in> set (group_by fst (zip rs rows)) \<and> cs = map snd ps)" for r cs
    unfolding groups by (force simp: case_prod_beta)
  show "(r, cs) \<in> set groups \<Longrightarrow> cs = filter (\<lambda>row. request_of lib row = Inr r) rows \<and> cs \<noteq> []"
    unfolding member using group_by_entry filter by (metis list.map_disc_iff)
  show "\<exists>r cs. request_of lib row = Inr r \<and> (r, cs) \<in> set groups \<and> row \<in> set cs" if "row \<in> set rows"
  proof -
    obtain i where i: "i < length rows" "rows ! i = row" using \<open>row \<in> set rows\<close> by (auto simp: in_set_conv_nth)
    define r where "r = rs ! i"
    have r: "(r, row) \<in> set (zip rs rows)" "request_of lib row = Inr r"
      using i rel by (auto simp: r_def list_all2_conv_all_nth set_zip)
    then have "dget (group_by fst (zip rs rows)) r = Some (filter (\<lambda>x. fst x = r) (zip rs rows))"
      by (force simp: dget_group_by)
    then have "(r, filter (\<lambda>x. fst x = r) (zip rs rows)) \<in> set (group_by fst (zip rs rows))" by (rule map_of_SomeD)
    moreover have "row \<in> set (map snd (filter (\<lambda>x. fst x = r) (zip rs rows)))" using r(1) by force
    ultimately show ?thesis unfolding member using r(2) by blast
  qed
  show "distinct (map fst groups)"
  proof -
    have "map fst groups = map fst (sort_key fst (group_by fst (zip rs rows)))" by (simp add: groups comp_def case_prod_beta)
    moreover have "mset (map fst (sort_key fst (group_by fst (zip rs rows)))) = mset (dkeys (group_by fst (zip rs rows)))"
      by (simp only: mset_map mset_sort)
    ultimately show ?thesis by (metis distinct_group_by mset_eq_imp_distinct_iff)
  qed
qed

lemma zip_filter_labels:
  assumes "list_all2 (\<lambda>x l. f x = Inr l) xs ls"
  shows "map fst (filter (\<lambda>(_, l). l = c) (zip xs ls)) = filter (\<lambda>x. f x = Inr c) xs"
  using assms by (induction rule: list_all2_induct) auto

lemma request_examples_pairs:
  assumes "request_examples lib (r, cs) = Inr exs"
  shows "list_all2 (\<lambda>(p, n) ex. pe_positive_request ex = r \<and> pe_negative_request ex = r \<and>
      bind_res (embedding_of (VMap p)) (float_tuple lib) = Inr (pe_positive ex) \<and>
      bind_res (embedding_of (VMap n)) (float_tuple lib) = Inr (pe_negative ex))
    (List.product (filter (\<lambda>x. click_of x = Inr 1) cs) (filter (\<lambda>x. click_of x = Inr 0) cs)) exs"
proof -
  obtain ls where ls: "map_res click_of cs = Inr ls" using assms by (auto simp: request_examples_def)
  let ?p = "filter (\<lambda>x. click_of x = Inr 1) cs" and ?n = "filter (\<lambda>x. click_of x = Inr 0) cs"
  note sel = zip_filter_labels[OF ls[unfolded map_res_Inr_iff]]
  have eq: "request_examples lib (r, cs) =
      (if ?p = [] \<or> ?n = [] then Inr []
       else bind_res (sorted_history (hd cs)) (\<lambda>entries.
          bind_res (map_res (\<lambda>e. bind_res (embedding_of e) (float_tuple lib)) entries) (\<lambda>history.
          bind_res (py_optional (float_tuple lib) (vget (hd cs) ''declared_topic_embedding'')) (\<lambda>declared.
            map_res (example_of lib r history declared) (List.product ?p ?n)))))"
    by (simp only: request_examples_def prod.case ls bind_res.simps Let_def sel)
  show ?thesis
  proof (cases "?p = [] \<or> ?n = []")
    case True
    then have "exs = []" using assms unfolding eq by simp
    moreover have "List.product ?p ?n = []" using True by (metis list.size(3) length_0_conv length_product mult_is_0)
    ultimately show ?thesis by simp
  next
    case False
    then obtain h d where "map_res (example_of lib r h d) (List.product ?p ?n) = Inr exs"
      using assms unfolding eq by (simp only: if_False) (elim bind_resE, blast)
    then show ?thesis
      unfolding map_res_Inr_iff by (rule list.rel_mono_strong) (auto simp: example_of_def)
  qed
qed


definition demo_pair_row :: "int \<Rightarrow> real \<Rightarrow> (string, pyval) dict" where
  "demo_pair_row label x =
     [(''request_group'', VStr ''r''), (''click_label'', VInt label), (''article'', VMap [(''embedding'', vector_val [x])])]"

lemma demo_pair_row_fields:
  "request_of lib (demo_pair_row l x) = Inr ''r''" "click_of (demo_pair_row l x) = Inr l"
  "bind_res (embedding_of (VMap (demo_pair_row l x))) (float_tuple lib) = Inr [x]"
  "sorted_history (demo_pair_row l x) = Inr []" "vget (demo_pair_row l x) ''declared_topic_embedding'' = VNone"
  by (simp_all add: demo_pair_row_def request_of_def str_item_def vitem_def click_of_def embedding_of_def vsub_def float_tuple_def
      vector_val_def sorted_history_def vget_def py_or_def)


end
