(* ===== verification/NrmsTraining.thy ===== *)
theory NrmsTraining
  imports NrmsModel DatasetValidate
begin

text \<open>
  \<open>ai_pipeline/train.py\<close> for the NRMS ranker: the checks on a v2 dataset, the training loop with its
  checkpoint, calibration and the manifest. Files are their decoded contents with a digest; random
  initialisation and logistic regression are parameters (\<open>training_env\<close>). A checkpoint is replaced
  atomically after every epoch, so it survives a crash. The theorems: the trainer accepts what the dataset
  validator accepts, and a resumed run ends with the model of an uninterrupted one.
\<close>

section \<open>The dataset\<close>

record training_dataset =
  td_metadata :: "(string, pyval) dict res"
  td_columns :: "string list"
  td_rows :: "(string, pyval) dict list res"
  td_sha256 :: string
  td_metadata_sha256 :: string

definition DATASET_V2 :: string where "DATASET_V2 = ''recommendation-dataset-v2''"
definition MIND_HISTORY :: string where "MIND_HISTORY = ''mind-pre-impression-history-v1''"

definition NRMS_REQUIRED_ROW_COLUMNS :: "string list" where
  "NRMS_REQUIRED_ROW_COLUMNS =
     [''sample_id'', ''request_group'', ''candidate_group'', ''split'', ''served_at'', ''position'', ''click_label'',
      ''article'', ''history'', ''feed_source'']"

fun positive_int :: "pyval \<Rightarrow> bool" where
  "positive_int (VInt i) = (0 < i)"
| "positive_int (VBool b) = b"
| "positive_int _ = False"

fun is_map :: "pyval \<Rightarrow> bool" where
  "is_map (VMap _) = True"
| "is_map _ = False"

text \<open>\<open>DatasetValidationError\<close> is a \<open>ValueError\<close>.\<close>

definition validate_v2_metadata :: "(string, pyval) dict \<Rightarrow> unit res" where
  "validate_v2_metadata md =
     run_checks
       [(vget md ''dataset_schema_version'' \<noteq> VStr DATASET_V2, ''dataset schema version is not supported''),
        (vget md ''history_schema_version'' \<notin> {VStr HISTORY_SCHEMA_VERSION, VStr MIND_HISTORY},
         ''history schema version is not supported''),
        (\<not> truthy (vget md ''feature_schema_version''), ''feature schema version is missing''),
        (\<not> truthy (vget md ''label_definition_version''), ''label definition version is missing''),
        (\<not> truthy (vget md ''encoder_version''), ''encoder version is missing''),
        (\<not> positive_int (vget md ''encoder_dimension''), ''encoder dimension is missing or invalid''),
        (\<not> is_map (vget md ''query_window''), ''dataset data window is missing'')]"

definition read_v2_rows :: "training_dataset \<Rightarrow> (string, pyval) dict \<Rightarrow> (string, pyval) dict list res" where
  "read_v2_rows td md =
     bind_res (td_rows td) (\<lambda>rows.
       if list_ex (\<lambda>c. c \<notin> set (td_columns td)) NRMS_REQUIRED_ROW_COLUMNS
       then Inl (ValueError ''missing required columns'')
       else if \<not> py_eq (vget md ''row_count'') (VInt (int (length rows)))
       then Inl (ValueError ''dataset row count does not match metadata'')
       else Inr rows)"

section \<open>The contract of the rows\<close>

definition has_embedding :: "pyval \<Rightarrow> bool res" where
  "has_embedding article = bind_res (py_get article ''embedding'' VNone) (\<lambda>v. Inr (truthy v))"

definition check_history_entry :: "pylib \<Rightarrow> string \<Rightarrow> (string, pyval) dict \<Rightarrow> instant \<Rightarrow> pyval \<Rightarrow> unit res" where
  "check_history_entry lib history_schema row served_at e =
     bind_res (py_get e ''article'' VNone) (\<lambda>a.
     bind_res (has_embedding (py_or a (VMap []))) (\<lambda>ok.
     if \<not> ok then Inl (ValueError ''history entry is missing an embedding'')
     else
       bind_res (py_get e ''provenance'' VNone) (\<lambda>provenance.
       bind_res (py_get e ''engaged_at'' VNone) (\<lambda>engaged.
       if history_schema = MIND_HISTORY
       then (if vget row ''source_format'' \<noteq> VStr ''official-mind-tsv-v1'' \<or>
                provenance \<noteq> VStr ''mind-pre-impression-snapshot'' \<or> engaged \<noteq> VNone
             then Inl (ValueError ''invalid timestamp-free MIND history provenance'') else Inr ())
       else if engaged = VNone then Inl (ValueError ''local history requires an observed event timestamp'')
       else bind_res (parse_datetime lib engaged) (\<lambda>engaged_at.
         if engaged_at \<ge> served_at
         then Inl (ValueError ''history event occurs at or after the request was served'') else Inr ())))))"

definition SPLITS :: "string list" where "SPLITS = [''train'', ''validation'', ''test'']"

definition check_row :: "pylib \<Rightarrow> string \<Rightarrow> (string, pyval) dict \<Rightarrow> (string \<times> pyval) res" where
  "check_row lib history_schema row =
     (let request = vget row ''request_group''; split = vget row ''split'' in
      if \<not> truthy request \<or> split \<notin> VStr ` set SPLITS
      then Inl (ValueError ''row is missing request_group or has an unsupported split'')
      else
        bind_res (has_embedding (py_or (vget row ''article'') (VMap []))) (\<lambda>ok.
        if \<not> ok then Inl (ValueError ''candidate article is missing an embedding'')
        else
          bind_res (bind_res (vitem row ''served_at'') (parse_datetime lib)) (\<lambda>served_at.
          bind_res (py_iter (py_or (vget row ''history'') (VList []))) (\<lambda>entries.
          bind_res (map_res (check_history_entry lib history_schema row served_at) entries) (\<lambda>_.
            Inr (py_str lib request, split))))))"

definition validate_v2_contract :: "pylib \<Rightarrow> (string, pyval) dict list \<Rightarrow> string \<Rightarrow> unit res" where
  "validate_v2_contract lib rows history_schema =
     bind_res (map_res (check_row lib history_schema) rows) (\<lambda>keys.
       if list_ex (\<lambda>g. card (set (map snd g)) \<noteq> 1) (dvalues (group_by fst keys))
       then Inl (ValueError ''request_group appears in multiple dataset splits'') else Inr ())"

definition rows_of_split :: "string \<Rightarrow> (string, pyval) dict list \<Rightarrow> (string, pyval) dict list" where
  "rows_of_split s rows = filter (\<lambda>row. vget row ''split'' = VStr s) rows"

definition split_v2_rows :: "(string, pyval) dict list \<Rightarrow> (string, (string, pyval) dict list) dict res" where
  "split_v2_rows rows =
     bind_res (run_checks
       [(rows_of_split ''train'' rows = [], ''train split must not be empty''),
        (rows_of_split ''validation'' rows = [], ''validation split must not be empty''),
        (rows_of_split ''test'' rows = [], ''test holdout must not be empty'')]) (\<lambda>_.
       Inr (map (\<lambda>s. (s, rows_of_split s rows)) SPLITS))"

section \<open>The architecture\<close>

definition select_attention_heads :: "int \<Rightarrow> int" where
  "select_attention_heads dimension =
     (case find (\<lambda>c. dimension mod c = 0) [2, 4, 8, 1] of Some c \<Rightarrow> c | None \<Rightarrow> 1)"

definition NRMS_HISTORY_CAP :: nat where "NRMS_HISTORY_CAP = 20"

definition history_length_of :: "(string, pyval) dict \<Rightarrow> nat res" where
  "history_length_of row = bind_res (py_iter (py_or (vget row ''history'') (VList []))) (\<lambda>es. Inr (length es))"

definition select_history_length :: "(string, pyval) dict list \<Rightarrow> nat res" where
  "select_history_length rows =
     bind_res (map_res history_length_of rows) (\<lambda>ns.
       let observed = foldr max ns 0 in Inr (min (max observed 1) NRMS_HISTORY_CAP))"

text \<open>The mean of the candidate embeddings; rows of different length do not stack.\<close>

definition centroid :: "real list list \<Rightarrow> real list res" where
  "centroid vs =
     (if list_all (\<lambda>v. length v = length (hd vs)) vs
      then Inr (map (\<lambda>d. (\<Sum>i<length vs. vs ! i ! d) / real (length vs)) [0..<length (hd vs)])
      else Inl (ValueError ''inhomogeneous shape''))"

definition compute_popular_embedding :: "(string, pyval) dict list \<Rightarrow> int \<Rightarrow> real list res" where
  "compute_popular_embedding rows dimension =
     bind_res (map_res article_embedding rows) (\<lambda>es.
       let vs = filter (\<lambda>v. v \<noteq> VNone) es in
       if vs = [] then Inr (replicate (nat dimension) 0)
       else bind_res (map_res float_array vs) centroid)"

section \<open>Checkpoints\<close>

text \<open>
  What the trainer uses of its libraries: the normal variates of a generator seeded from the
  architecture, logistic regression of one variable (coefficient and intercept), the versions of the
  dependencies and the file a model is dumped to.
\<close>

record training_env =
  te_init :: "nrms_architecture \<Rightarrow> projection \<times> projection \<times> projection"
  te_logistic :: "real list \<Rightarrow> int list \<Rightarrow> real \<times> real"
  te_versions :: pyval
  te_dump_sha256 :: "nrms_model \<Rightarrow> string"
  te_dump_bytes :: "nrms_model \<Rightarrow> int"

record nrms_checkpoint =
  ck_query :: projection
  ck_key :: projection
  ck_value :: projection
  ck_popular :: "real list"
  ck_epoch :: int
  ck_contract :: "(string, pyval) dict"

definition NRMS_LEARNING_RATE :: real where "NRMS_LEARNING_RATE = 1 / 10"

definition checkpoint_contract ::
    "training_dataset \<Rightarrow> (string, pyval) dict \<Rightarrow> nrms_architecture \<Rightarrow> (string, pyval) dict res" where
  "checkpoint_contract td md a =
     bind_res (vitem md ''encoder_version'') (\<lambda>encoder.
     bind_res (vitem md ''history_schema_version'') (\<lambda>history.
     bind_res (vitem md ''label_definition_version'') (\<lambda>label.
       Inr [(''checkpoint_schema_version'', VStr ''nrms-training-checkpoint-v1''), (''dataset_sha256'', VStr (td_sha256 td)),
            (''metadata_sha256'', VStr (td_metadata_sha256 td)), (''embedding_dimension'', VInt (na_embedding_dimension a)),
            (''attention_heads'', VInt (na_attention_heads a)), (''history_length'', VInt (na_history_length a)),
            (''seed'', VInt (na_seed a)), (''encoder_version'', encoder), (''history_schema_version'', history),
            (''label_definition_version'', label), (''learning_rate'', VFloat NRMS_LEARNING_RATE)])))"

definition save_nrms_checkpoint :: "nrms_model \<Rightarrow> int \<Rightarrow> (string, pyval) dict \<Rightarrow> nrms_checkpoint" where
  "save_nrms_checkpoint m epoch contract =
     \<lparr>ck_query = nm_query m, ck_key = nm_key m, ck_value = nm_value m, ck_popular = fallback_vector m,
      ck_epoch = epoch, ck_contract = contract\<rparr>"

text \<open>
  \<open>data[key].item()\<close> of a value saved by \<open>np.savez\<close>: a scalar comes back, an array of one element as that
  element, other arrays raise and so do objects.
\<close>

fun npz_item :: "pyval \<Rightarrow> pyval res" where
  "npz_item (VList [v]) = npz_item v"
| "npz_item (VList _) = Inl (ValueError ''can only convert an array of size 1 to a Python scalar'')"
| "npz_item VNone = Inl (ValueError ''Object arrays cannot be loaded when allow_pickle=False'')"
| "npz_item (VMap _) = Inl (ValueError ''Object arrays cannot be loaded when allow_pickle=False'')"
| "npz_item v = Inr v"

definition load_contract :: "(string, pyval) dict \<Rightarrow> (string, pyval) dict res" where
  "load_contract d = map_res (\<lambda>(k, v). bind_res (npz_item v) (\<lambda>w. Inr (k, w))) d"

definition contract_int :: "(string, pyval) dict \<Rightarrow> string \<Rightarrow> int res" where
  "contract_int d k = bind_res (vitem d k) py_int"

definition load_nrms_checkpoint :: "nrms_checkpoint \<Rightarrow> (nrms_model \<times> int \<times> (string, pyval) dict) res" where
  "load_nrms_checkpoint c =
     bind_res (contract_int (ck_contract c) ''embedding_dimension'') (\<lambda>dimension.
     bind_res (contract_int (ck_contract c) ''attention_heads'') (\<lambda>heads.
     bind_res (contract_int (ck_contract c) ''history_length'') (\<lambda>history.
     bind_res (contract_int (ck_contract c) ''seed'') (\<lambda>seed.
     bind_res (new_architecture dimension heads history seed 1 0) (\<lambda>a.
     bind_res (load_contract (ck_contract c)) (\<lambda>contract.
       Inr (\<lparr>nm_architecture = a, nm_query = ck_query c, nm_key = ck_key c, nm_value = ck_value c,
             nm_calibration_scale = 1, nm_calibration_bias = 0, nm_popular = Some (ck_popular c)\<rparr>, ck_epoch c, contract)))))))"

definition validate_checkpoint_contract :: "(string, pyval) dict \<Rightarrow> (string, pyval) dict \<Rightarrow> unit res" where
  "validate_checkpoint_contract actual expected =
     (if list_all (\<lambda>(k, v). py_eq (vget actual k) v) expected then Inr ()
      else Inl (ValueError ''checkpoint does not match the requested training run''))"

section \<open>Training\<close>

definition initialize_ranker :: "training_env \<Rightarrow> nrms_architecture \<Rightarrow> real list \<Rightarrow> nrms_model" where
  "initialize_ranker env a popular =
     (case te_init env a of (q, k, v) \<Rightarrow>
        \<lparr>nm_architecture = a, nm_query = q, nm_key = k, nm_value = v, nm_calibration_scale = 1, nm_calibration_bias = 0,
         nm_popular = Some popular\<rparr>)"

text \<open>
  \<open>for epoch in range(start, epochs)\<close> with the checkpoint file after it; \<open>keep\<close> says whether a checkpoint
  path was given. A failing epoch leaves the last checkpoint.
\<close>

fun train_epochs ::
    "bool \<Rightarrow> (string, pyval) dict \<Rightarrow> pairwise_example list \<Rightarrow> nat \<Rightarrow> int \<Rightarrow> nrms_checkpoint option \<Rightarrow> nrms_model \<Rightarrow>
     nrms_checkpoint option \<times> nrms_model res" where
  "train_epochs keep contract examples 0 epoch saved m = (saved, Inr m)"
| "train_epochs keep contract examples (Suc n) epoch saved m =
     (case train_pairwise_epoch m examples NRMS_LEARNING_RATE of
        Inl e \<Rightarrow> (saved, Inl e)
      | Inr m' \<Rightarrow>
          train_epochs keep contract examples n (epoch + 1)
            (if keep then Some (save_nrms_checkpoint m' (epoch + 1) contract) else saved) m')"

definition calibration_point :: "nrms_model \<Rightarrow> (string, pyval) dict \<Rightarrow> (real \<times> int) res" where
  "calibration_point m row =
     bind_res (row_context m row) (\<lambda>c.
     bind_res (bind_res (embedding_of (VMap row)) (raw_score (uc_vector c))) (\<lambda>raw.
     bind_res (click_of row) (\<lambda>label. Inr (raw, label))))"

definition with_calibration :: "nrms_model \<Rightarrow> real \<Rightarrow> real \<Rightarrow> nrms_model" where
  "with_calibration m scale bias = m\<lparr>nm_calibration_scale := scale, nm_calibration_bias := bias\<rparr>"

definition calibrate_ranker :: "training_env \<Rightarrow> nrms_model \<Rightarrow> (string, pyval) dict list \<Rightarrow> nrms_model res" where
  "calibrate_ranker env m rows =
     bind_res (map_res (calibration_point m) rows) (\<lambda>points.
       if card (set (map snd points)) < 2 then Inr m
       else case te_logistic env (map fst points) (map snd points) of (scale, bias) \<Rightarrow> Inr (with_calibration m scale bias))"

definition nrms_manifest ::
    "training_env \<Rightarrow> training_dataset \<Rightarrow> (string, pyval) dict \<Rightarrow> string \<Rightarrow> int \<Rightarrow> int \<Rightarrow> int \<Rightarrow>
     (string, (string, pyval) dict list) dict \<Rightarrow> pairwise_example list \<Rightarrow> nrms_model \<Rightarrow> (string, pyval) dict" where
  "nrms_manifest env td md name seed epochs start by_split examples m =
     (let a = nm_architecture m in
      [(''artifact_schema_version'', VStr ARTIFACT_SCHEMA_VERSION), (''model_version'', VStr name),
       (''model_type'', VStr ''nrms-like-impression-ranker''), (''seed'', VInt seed), (''dataset_schema_version'', VStr DATASET_V2),
       (''architecture'', VMap [(''embedding_dimension'', VInt (na_embedding_dimension a)),
          (''attention_heads'', VInt (na_attention_heads a)), (''history_length'', VInt (na_history_length a))]),
       (''embedding'', VMap [(''version'', vget md ''encoder_version''), (''dimension'', vget md ''encoder_dimension'')]),
       (''history'', VMap [(''schema_version'', vget md ''history_schema_version'')]),
       (''label_schema'', VMap [(''training_target'', VStr ''click_label''),
          (''label_definition_version'', vget md ''label_definition_version'')]),
       (''row_counts'', VMap (map (\<lambda>(s, rows). (s, VInt (int (length rows)))) (sort_key fst by_split))),
       (''calibration'', VMap [(''method'', VStr ''temperature-scaled-sigmoid''), (''scale'', VFloat (nm_calibration_scale m)),
          (''bias'', VFloat (nm_calibration_bias m))]),
       (''training'', VMap [(''epochs'', VInt epochs), (''resumed_from_epoch'', VInt start),
          (''learning_rate'', VFloat NRMS_LEARNING_RATE), (''pairwise_examples'', VInt (int (length examples)))]),
       (''dependency_versions'', te_versions env),
       (''dataset'', VMap [(''parquet_sha256'', VStr (td_sha256 td)), (''metadata_sha256'', VStr (td_metadata_sha256 td)),
          (''source_code_version'', vget md ''code_version'')])])"

record training_result =
  tr_model :: nrms_model
  tr_manifest :: "(string, pyval) dict"

text \<open>What the run works on: the splits and the architecture.\<close>

record training_setup =
  ts_metadata :: "(string, pyval) dict"
  ts_splits :: "(string, (string, pyval) dict list) dict"
  ts_architecture :: nrms_architecture
  ts_popular :: "real list"
  ts_contract :: "(string, pyval) dict"

definition split_rows_of :: "(string, (string, pyval) dict list) dict \<Rightarrow> string \<Rightarrow> (string, pyval) dict list" where
  "split_rows_of by_split s = dget_default by_split s []"

definition prepare_training :: "pylib \<Rightarrow> training_dataset \<Rightarrow> int \<Rightarrow> int \<Rightarrow> training_setup res" where
  "prepare_training lib td seed epochs =
     bind_res (td_metadata td) (\<lambda>md.
      if epochs \<le> 0 then Inl (ValueError ''epochs must be positive'')
      else
        bind_res (validate_v2_metadata md) (\<lambda>_.
        bind_res (read_v2_rows td md) (\<lambda>rows.
        bind_res (validate_v2_contract lib rows (py_str lib (vget md ''history_schema_version''))) (\<lambda>_.
        bind_res (split_v2_rows rows) (\<lambda>by_split.
        bind_res (bind_res (vitem md ''encoder_dimension'') py_int) (\<lambda>dimension.
        bind_res (select_history_length (split_rows_of by_split ''train'')) (\<lambda>history_length.
        bind_res (new_architecture dimension (select_attention_heads dimension) (int history_length) seed 1 0) (\<lambda>a.
        bind_res (compute_popular_embedding (split_rows_of by_split ''train'') dimension) (\<lambda>popular.
        bind_res (checkpoint_contract td md a) (\<lambda>contract.
          Inr \<lparr>ts_metadata = md, ts_splits = by_split, ts_architecture = a, ts_popular = popular,
               ts_contract = contract\<rparr>))))))))))"

text \<open>The ranker a run starts from, and the epoch: the checkpoint's when resuming.\<close>

definition starting_point ::
    "training_env \<Rightarrow> training_setup \<Rightarrow> bool \<Rightarrow> bool \<Rightarrow> nrms_checkpoint option \<Rightarrow> int \<Rightarrow> (nrms_model \<times> int) res" where
  "starting_point env ts keep resume saved epochs =
     (if resume
      then (case (if keep then saved else None) of
              None \<Rightarrow> Inl (ValueError ''resume requested but checkpoint file does not exist'')
            | Some c \<Rightarrow>
                bind_res (load_nrms_checkpoint c) (\<lambda>(m, start, stored).
                bind_res (validate_checkpoint_contract stored (ts_contract ts)) (\<lambda>_.
                  if start \<ge> epochs then Inl (ValueError ''checkpoint epoch must be lower than the requested target epoch'')
                  else Inr (m, start))))
      else Inr (initialize_ranker env (ts_architecture ts) (ts_popular ts), 0))"

definition finish_training ::
    "training_env \<Rightarrow> training_dataset \<Rightarrow> string \<Rightarrow> int \<Rightarrow> int \<Rightarrow> int \<Rightarrow> training_setup \<Rightarrow> pairwise_example list \<Rightarrow>
     nrms_model \<Rightarrow> training_result res" where
  "finish_training env td name seed epochs start ts examples m =
     bind_res (calibrate_ranker env m (split_rows_of (ts_splits ts) ''validation'')) (\<lambda>m'.
       Inr \<lparr>tr_model = m', tr_manifest = nrms_manifest env td (ts_metadata ts) name seed epochs start (ts_splits ts) examples m'\<rparr>)"

definition train_nrms ::
    "training_env \<Rightarrow> pylib \<Rightarrow> training_dataset \<Rightarrow> string \<Rightarrow> int \<Rightarrow> int \<Rightarrow> bool \<Rightarrow> bool \<Rightarrow> nrms_checkpoint option \<Rightarrow>
     nrms_checkpoint option \<times> training_result res" where
  "train_nrms env lib td name seed epochs keep resume saved =
     (case prepare_training lib td seed epochs of
        Inl e \<Rightarrow> (saved, Inl e)
      | Inr ts \<Rightarrow>
          (case starting_point env ts keep resume saved epochs of
             Inl e \<Rightarrow> (saved, Inl e)
           | Inr (m, start) \<Rightarrow>
               (case build_pairwise_examples lib (split_rows_of (ts_splits ts) ''train'') of
                  Inl e \<Rightarrow> (saved, Inl e)
                | Inr examples \<Rightarrow>
                    if examples = [] then (saved, Inl (ValueError ''train split has no eligible positive/negative pairs''))
                    else
                      (case train_epochs keep (ts_contract ts) examples (nat (epochs - start)) start saved m of
                         (saved', trained) \<Rightarrow>
                           (saved', bind_res trained (finish_training env td name seed epochs start ts examples))))))"

section \<open>Resuming\<close>

lemma epoch_keeps:
  assumes "train_pairwise_epoch m examples rate = Inr m'"
  shows "nm_architecture m' = nm_architecture m" "nm_popular m' = nm_popular m"
    "nm_calibration_scale m' = nm_calibration_scale m" "nm_calibration_bias m' = nm_calibration_bias m"
  using assms by (auto simp: train_pairwise_epoch_def with_updated_weights_def Let_def split: if_splits)

lemma train_epochs_add:
  "train_epochs keep contract examples (a + b) epoch saved m =
     (case train_epochs keep contract examples a epoch saved m of
        (saved', Inl e) \<Rightarrow> (saved', Inl e)
      | (saved', Inr m') \<Rightarrow> train_epochs keep contract examples b (epoch + int a) saved' m')"
proof (induction a arbitrary: epoch saved m)
  case (Suc a)
  then show ?case by (simp split: sum.splits) (simp add: algebra_simps)
qed simp

lemma train_epochs_keeps:
  assumes "train_epochs keep contract examples n epoch saved m = (saved', Inr m')"
  shows "nm_architecture m' = nm_architecture m \<and> nm_popular m' = nm_popular m \<and>
    nm_calibration_scale m' = nm_calibration_scale m \<and> nm_calibration_bias m' = nm_calibration_bias m"
  using assms
proof (induction n arbitrary: epoch saved m)
  case (Suc n)
  then show ?case by (auto simp: epoch_keeps split: sum.splits)
qed simp

text \<open>After an epoch the checkpoint holds the current ranker.\<close>

lemma train_epochs_saved:
  assumes "train_epochs True contract examples n epoch saved m = (saved', Inr m')" "0 < n"
  shows "saved' = Some (save_nrms_checkpoint m' (epoch + int n) contract)"
proof -
  obtain k where n: "n = k + 1" using assms(2) by (cases n) auto
  from assms(1) show ?thesis
    unfolding n train_epochs_add by (auto simp: algebra_simps split: sum.splits prod.splits)
qed

fun scalar :: "pyval \<Rightarrow> bool" where
  "scalar (VStr _) = True"
| "scalar (VInt _) = True"
| "scalar (VFloat _) = True"
| "scalar _ = False"

lemma scalar_value: "scalar v \<Longrightarrow> npz_item v = Inr v" "scalar v \<Longrightarrow> py_eq v v"
  by (cases v; simp add: py_eq.simps)+

lemma contract_round_trip:
  assumes "checkpoint_contract td md a = Inr contract" "scalar (vget md ''encoder_version'')"
    "scalar (vget md ''history_schema_version'')" "scalar (vget md ''label_definition_version'')"
  shows "load_contract contract = Inr contract" "validate_checkpoint_contract contract contract = Inr ()"
proof -
  from assms have all: "list_all (\<lambda>(k, v). scalar v) contract" and d: "distinct (map fst contract)"
    by (auto simp: checkpoint_contract_def vitem_def vget_def split: option.splits)
  have "map_res (\<lambda>(k, v). bind_res (npz_item v) (\<lambda>w. Inr (k, w))) contract = Inr (map (\<lambda>kv. kv) contract)"
    by (rule map_res_map) (use all in \<open>auto simp: list_all_iff scalar_value\<close>)
  then show "load_contract contract = Inr contract" by (simp add: load_contract_def)
  have "vget contract k = v" if "(k, v) \<in> set contract" for k v
    using that d by (simp add: vget_def)
  then show "validate_checkpoint_contract contract contract = Inr ()"
    using all by (fastforce simp: validate_checkpoint_contract_def list_all_iff scalar_value)
qed

lemma new_architecture_value:
  assumes "new_architecture d h n s p r = Inr a"
  shows "a = \<lparr>na_embedding_dimension = d, na_attention_heads = h, na_history_length = n, na_seed = s,
      na_position_scale = p, na_semantic_residual = r\<rparr>"
  using assms by (auto simp: new_architecture_def split: if_splits)

text \<open>A checkpoint of a ranker under training loads as that ranker.\<close>

lemma checkpoint_round_trip:
  assumes "checkpoint_contract td md a = Inr contract" "load_contract contract = Inr contract"
    and "new_architecture d h n s 1 0 = Inr a"
    and "nm_architecture m = a" "nm_popular m = Some popular" "nm_calibration_scale m = 1" "nm_calibration_bias m = 0"
  shows "load_nrms_checkpoint (save_nrms_checkpoint m epoch contract) = Inr (m, epoch, contract)"
proof -
  have a: "new_architecture (na_embedding_dimension a) (na_attention_heads a) (na_history_length a) (na_seed a) 1 0 = Inr a"
    using assms(3) new_architecture_value[OF assms(3)] by simp
  have "contract_int contract ''embedding_dimension'' = Inr (na_embedding_dimension a)"
    "contract_int contract ''attention_heads'' = Inr (na_attention_heads a)"
    "contract_int contract ''history_length'' = Inr (na_history_length a)" "contract_int contract ''seed'' = Inr (na_seed a)"
    using assms(1) by (auto simp: checkpoint_contract_def contract_int_def vitem_def split: option.splits)
  then show ?thesis
    using assms(4-7) by (simp add: load_nrms_checkpoint_def save_nrms_checkpoint_def a assms(2) fallback_vector_def)
qed

lemma prepare_training_parts:
  assumes "prepare_training lib td seed epochs = Inr ts"
  obtains d h n where "td_metadata td = Inr (ts_metadata ts)" "validate_v2_metadata (ts_metadata ts) = Inr ()"
    "new_architecture d h n seed 1 0 = Inr (ts_architecture ts)"
    "checkpoint_contract td (ts_metadata ts) (ts_architecture ts) = Inr (ts_contract ts)"
  using assms unfolding prepare_training_def
  by (elim bind_resE) (auto split: if_splits elim!: bind_resE)

lemma prepare_training_epochs:
  "0 < epochs \<Longrightarrow> 0 < epochs' \<Longrightarrow> prepare_training lib td seed epochs = prepare_training lib td seed epochs'"
  by (simp add: prepare_training_def)

text \<open>A run from scratch that returns went through all its epochs.\<close>

lemma scratch_run:
  assumes "train_nrms env lib td name seed epochs keep False saved0 = (saved, Inr r)"
  obtains ts examples m where "prepare_training lib td seed epochs = Inr ts"
    "build_pairwise_examples lib (split_rows_of (ts_splits ts) ''train'') = Inr examples" "examples \<noteq> []"
    "train_epochs keep (ts_contract ts) examples (nat epochs) 0 saved0
       (initialize_ranker env (ts_architecture ts) (ts_popular ts)) = (saved, Inr m)"
    "finish_training env td name seed epochs 0 ts examples m = Inr r"
  using assms unfolding train_nrms_def starting_point_def
  by (auto split: sum.splits prod.splits if_splits elim!: bind_resE)

lemma finish_training_start:
  assumes "finish_training env td name seed epochs start ts examples m = Inr r"
  shows "\<exists>r'. finish_training env td name seed epochs start' ts examples m = Inr r' \<and> tr_model r' = tr_model r \<and>
    dpop (tr_manifest r') ''training'' = dpop (tr_manifest r) ''training''"
  using assms by (auto simp: finish_training_def nrms_manifest_def Let_def)

text \<open>
  C5. Resuming is invisible: if training from scratch to the target epoch succeeds, then training to an
  earlier epoch and resuming from the checkpoint it leaves ends with the same model, the same calibration
  and the same checkpoint, and its manifest differs only in what it says about the training run. The
  versions in the metadata are strings.
\<close>

theorem resume_equals_uninterrupted:
  assumes "train_nrms env lib td name seed epochs True False saved0 = (saved, Inr r)"
    and "0 < e" "e < epochs" "td_metadata td = Inr md"
    and "vget md ''encoder_version'' = VStr encoder" "vget md ''label_definition_version'' = VStr label"
  shows "\<exists>r'. train_nrms env lib td name seed epochs True True (fst (train_nrms env lib td name seed e True False saved0)) = (saved, Inr r') \<and>
    tr_model r' = tr_model r \<and> dpop (tr_manifest r') ''training'' = dpop (tr_manifest r) ''training''"
proof -
  from scratch_run[OF assms(1)] obtain ts examples m where run: "prepare_training lib td seed epochs = Inr ts"
    "build_pairwise_examples lib (split_rows_of (ts_splits ts) ''train'') = Inr examples" "examples \<noteq> []"
    "train_epochs True (ts_contract ts) examples (nat epochs) 0 saved0
       (initialize_ranker env (ts_architecture ts) (ts_popular ts)) = (saved, Inr m)"
    "finish_training env td name seed epochs 0 ts examples m = Inr r" .
  let ?init = "initialize_ranker env (ts_architecture ts) (ts_popular ts)"
  obtain d h n where parts: "td_metadata td = Inr (ts_metadata ts)" "validate_v2_metadata (ts_metadata ts) = Inr ()"
    "new_architecture d h n seed 1 0 = Inr (ts_architecture ts)"
    "checkpoint_contract td (ts_metadata ts) (ts_architecture ts) = Inr (ts_contract ts)"
    using prepare_training_parts[OF run(1)] by blast
  then have md: "ts_metadata ts = md" using assms(4) by simp
  have scalars: "scalar (vget md ''encoder_version'')" "scalar (vget md ''history_schema_version'')"
      "scalar (vget md ''label_definition_version'')"
    using parts(2) assms(5,6) by (auto simp: md validate_v2_metadata_def run_checks_ok)
  note contract = contract_round_trip[OF parts(4)[unfolded md] scalars]
  have "nat epochs = nat e + nat (epochs - e)" using assms(2,3) by simp
  then obtain mid m1 where first: "train_epochs True (ts_contract ts) examples (nat e) 0 saved0 ?init = (mid, Inr m1)"
    and rest: "train_epochs True (ts_contract ts) examples (nat (epochs - e)) e mid m1 = (saved, Inr m)"
    using run(4) assms(2) by (auto simp: train_epochs_add split: prod.splits sum.splits)
  have mid: "mid = Some (save_nrms_checkpoint m1 e (ts_contract ts))"
    using train_epochs_saved[OF first] assms(2) by simp
  have "nm_architecture ?init = ts_architecture ts \<and> nm_popular ?init = Some (ts_popular ts) \<and>
      nm_calibration_scale ?init = 1 \<and> nm_calibration_bias ?init = 0"
    by (simp add: initialize_ranker_def split: prod.splits)
  with train_epochs_keeps[OF first] have load: "load_nrms_checkpoint (save_nrms_checkpoint m1 e (ts_contract ts)) = Inr (m1, e, ts_contract ts)"
    by (intro checkpoint_round_trip[OF parts(4)[unfolded md] contract(1) parts(3)]) auto
  have "starting_point env ts True True mid epochs = Inr (m1, e)"
    using assms(3) by (simp add: starting_point_def mid load contract(2))
  moreover have "fst (train_nrms env lib td name seed e True False saved0) = mid"
    using run(1-3) first prepare_training_epochs[of e epochs lib td seed] assms(2,3)
    by (simp add: train_nrms_def starting_point_def)
  moreover obtain r' where "finish_training env td name seed epochs e ts examples m = Inr r'" "tr_model r' = tr_model r"
    "dpop (tr_manifest r') ''training'' = dpop (tr_manifest r) ''training''"
    using finish_training_start[OF run(5)] by blast
  ultimately show ?thesis using run(1-3) rest by (simp add: train_nrms_def)
qed

text \<open>A small run, for the example.\<close>

definition demo_training_env :: training_env where
  "demo_training_env = \<lparr>te_init = (\<lambda>_. (\<lambda>_ _ _. 0, \<lambda>_ _ _. 0, \<lambda>_ _ _. 1)), te_logistic = (\<lambda>_ _. (1, 0)), te_versions = VMap [],
     te_dump_sha256 = (\<lambda>_. ''sha''), te_dump_bytes = (\<lambda>_. 1)\<rparr>"

definition demo_metadata :: "(string, pyval) dict" where
  "demo_metadata =
     [(''dataset_schema_version'', VStr DATASET_V2), (''history_schema_version'', VStr HISTORY_SCHEMA_VERSION),
      (''feature_schema_version'', VStr ''f''), (''label_definition_version'', VStr ''l''), (''encoder_version'', VStr ENCODER_VERSION),
      (''encoder_dimension'', VInt 384), (''query_window'', VMap []), (''row_count'', VInt 4)]"

lemma float_tuple_vector: "float_tuple lib (vector_val xs) = Inr xs"
proof -
  have "map_res (py_float lib) (map VFloat xs) = Inr xs" by (simp add: map_res_compose)
  then show ?thesis by (simp add: float_tuple_def vector_val_def)
qed

definition demo_vector :: "real \<Rightarrow> real list" where
  "demo_vector x = replicate 384 x"

lemma length_demo_vector [simp]: "length (demo_vector x) = 384"
  by (simp only: demo_vector_def length_replicate)

lemma demo_vector_nonempty [simp]: "demo_vector x \<noteq> []"
  by (metis length_demo_vector list.size(3) zero_neq_numeral)

lemma mean_demo_vector: "centroid [demo_vector a, demo_vector b] = Inr (demo_vector ((a + b) / 2))"
proof -
  have "map (\<lambda>d. (\<Sum>i<2. [demo_vector a, demo_vector b] ! i ! d) / real 2) [0..<384] = demo_vector ((a + b) / 2)"
  proof (rule nth_equalityI)
    fix d assume "d < length (map (\<lambda>d. (\<Sum>i<2. [demo_vector a, demo_vector b] ! i ! d) / real 2) [0..<384])"
    then have d: "d < 384" by (simp only: length_map length_upt diff_zero)
    then have "demo_vector x ! d = x" for x unfolding demo_vector_def by (rule nth_replicate)
    then show "map (\<lambda>d. (\<Sum>i<2. [demo_vector a, demo_vector b] ! i ! d) / real 2) [0..<384] ! d = demo_vector ((a + b) / 2) ! d"
      using d by (simp add: numeral_2_eq_2)
  qed (simp only: length_map length_upt diff_zero length_demo_vector)
  then show ?thesis by (simp add: centroid_def numeral_2_eq_2)
qed

definition demo_training_row :: "string \<Rightarrow> string \<Rightarrow> int \<Rightarrow> real \<Rightarrow> (string, pyval) dict" where
  "demo_training_row request split label x =
     [(''request_group'', VStr request), (''split'', VStr split), (''click_label'', VInt label),
      (''article'', VMap [(''embedding'', vector_val (demo_vector x))]), (''served_at'', VTime (Aware 0))]"

definition demo_training_rows :: "(string, pyval) dict list" where
  "demo_training_rows =
     [demo_training_row ''a'' ''train'' 1 1, demo_training_row ''a'' ''train'' 0 2, demo_training_row ''b'' ''validation'' 1 1,
      demo_training_row ''c'' ''test'' 1 1]"

definition demo_training_dataset :: training_dataset where
  "demo_training_dataset = \<lparr>td_metadata = Inr demo_metadata, td_columns = NRMS_REQUIRED_ROW_COLUMNS,
     td_rows = Inr demo_training_rows, td_sha256 = ''d'', td_metadata_sha256 = ''m''\<rparr>"

lemma demo_training_row_fields:
  "request_of lib (demo_training_row r s l x) = Inr r" "click_of (demo_training_row r s l x) = Inr l"
  "article_embedding (demo_training_row r s l x) = Inr (vector_val (demo_vector x))"
  "bind_res (embedding_of (VMap (demo_training_row r s l x))) (float_tuple lib) = Inr (demo_vector x)"
  "embedding_of (VMap (demo_training_row r s l x)) = Inr (vector_val (demo_vector x))"
  "sorted_history (demo_training_row r s l x) = Inr []" "history_length_of (demo_training_row r s l x) = Inr 0"
  "vget (demo_training_row r s l x) ''declared_topic_embedding'' = VNone"
  "vget (demo_training_row r s l x) ''split'' = VStr s"
  by (simp_all add: demo_training_row_def request_of_def str_item_def vitem_def click_of_def article_embedding_def embedding_of_def
      vsub_def float_tuple_vector sorted_history_def vget_def py_or_def py_get_def history_length_of_def)

lemma demo_check_row:
  "r \<noteq> [] \<Longrightarrow> s \<in> set SPLITS \<Longrightarrow> check_row lib h (demo_training_row r s l x) = Inr (r, VStr s)"
  by (auto simp: demo_training_row_def check_row_def vget_def vitem_def has_embedding_def py_get_def py_or_def vector_val_def)

definition demo_setup :: training_setup where
  "demo_setup =
     \<lparr>ts_metadata = demo_metadata, ts_splits = map (\<lambda>s. (s, rows_of_split s demo_training_rows)) SPLITS,
      ts_architecture = \<lparr>na_embedding_dimension = 384, na_attention_heads = 2, na_history_length = 1, na_seed = 7,
        na_position_scale = 1, na_semantic_residual = 0\<rparr>, ts_popular = demo_vector (3 / 2),
      ts_contract = projr (checkpoint_contract demo_training_dataset demo_metadata
        \<lparr>na_embedding_dimension = 384, na_attention_heads = 2, na_history_length = 1, na_seed = 7, na_position_scale = 1,
         na_semantic_residual = 0\<rparr>)\<rparr>"

lemma demo_splits:
  "rows_of_split ''train'' demo_training_rows = [demo_training_row ''a'' ''train'' 1 1, demo_training_row ''a'' ''train'' 0 2]"
  "rows_of_split ''validation'' demo_training_rows = [demo_training_row ''b'' ''validation'' 1 1]"
  "rows_of_split ''test'' demo_training_rows = [demo_training_row ''c'' ''test'' 1 1]"
  by (simp_all add: rows_of_split_def demo_training_rows_def demo_training_row_fields)

lemma demo_prepare: "0 < epochs \<Longrightarrow> prepare_training lib demo_training_dataset 7 epochs = Inr demo_setup"
proof -
  assume "0 < epochs"
  have "validate_v2_metadata demo_metadata = Inr ()"
    by (simp add: validate_v2_metadata_def run_checks_ok demo_metadata_def vget_def DATASET_V2_def ENCODER_VERSION_def)
  moreover have "read_v2_rows demo_training_dataset demo_metadata = Inr demo_training_rows"
    by (simp add: read_v2_rows_def demo_training_dataset_def demo_metadata_def vget_def py_eq.simps demo_training_rows_def list_ex_iff)
  moreover have "validate_v2_contract lib demo_training_rows h = Inr ()" for h
    by (simp add: validate_v2_contract_def demo_training_rows_def demo_check_row SPLITS_def group_by_def group_add_def dget_default_def)
  moreover have "split_v2_rows demo_training_rows = Inr (ts_splits demo_setup)"
    using demo_splits by (simp add: split_v2_rows_def run_checks_Cons demo_setup_def)
  moreover have "split_rows_of (ts_splits demo_setup) ''train'' = [demo_training_row ''a'' ''train'' 1 1, demo_training_row ''a'' ''train'' 0 2]"
    by (simp add: split_rows_of_def demo_setup_def dget_default_def SPLITS_def demo_splits)
  moreover have "bind_res (vitem demo_metadata ''encoder_dimension'') py_int = Inr 384" by (simp add: demo_metadata_def vitem_def)
  moreover have "checkpoint_contract demo_training_dataset demo_metadata (ts_architecture demo_setup) = Inr (ts_contract demo_setup)"
    by (simp add: checkpoint_contract_def demo_setup_def demo_metadata_def vitem_def)
  moreover have "new_architecture 384 (select_attention_heads 384) (int 1) 7 1 0 = Inr (ts_architecture demo_setup)"
    by (simp add: new_architecture_def select_attention_heads_def demo_setup_def)
  moreover have "select_history_length [demo_training_row ''a'' ''train'' 1 1, demo_training_row ''a'' ''train'' 0 2] = Inr 1"
    by (simp add: select_history_length_def demo_training_row_fields NRMS_HISTORY_CAP_def)
  moreover have "compute_popular_embedding [demo_training_row ''a'' ''train'' 1 1, demo_training_row ''a'' ''train'' 0 2] 384 = Inr (ts_popular demo_setup)"
  proof -
    have "centroid [demo_vector 1, demo_vector 2] = Inr (demo_vector (3 / 2))" by (simp add: mean_demo_vector)
    moreover have "vector_val xs \<noteq> VNone" for xs by (simp add: vector_val_def)
    ultimately show ?thesis by (simp add: compute_popular_embedding_def demo_training_row_fields demo_setup_def)
  qed
  moreover have "td_metadata demo_training_dataset = Inr demo_metadata" by (simp add: demo_training_dataset_def)
  moreover have "\<lparr>ts_metadata = demo_metadata, ts_splits = ts_splits demo_setup, ts_architecture = ts_architecture demo_setup,
      ts_popular = ts_popular demo_setup, ts_contract = ts_contract demo_setup\<rparr> = demo_setup" by (simp add: demo_setup_def)
  moreover have "\<not> epochs \<le> 0" using \<open>0 < epochs\<close> by simp
  ultimately show ?thesis by (simp only: prepare_training_def bind_res.simps if_False Let_def)
qed

lemma demo_examples: "\<exists>ex. build_pairwise_examples lib (split_rows_of (ts_splits demo_setup) ''train'') = Inr [ex] \<and> pe_history ex = []"
proof -
  let ?rows = "[demo_training_row ''a'' ''train'' 1 1, demo_training_row ''a'' ''train'' 0 2]"
  have rows: "split_rows_of (ts_splits demo_setup) ''train'' = ?rows"
    by (simp add: split_rows_of_def demo_setup_def dget_default_def SPLITS_def demo_splits)
  have "rows_by_request lib ?rows = Inr [(''a'', ?rows)]"
    by (simp add: rows_by_request_def demo_training_row_fields group_by_def group_add_def dget_default_def)
  then show ?thesis
    unfolding rows
    by (simp add: build_pairwise_examples_def request_examples_def demo_training_row_fields example_of_def py_optional_def
        float_tuple_vector)
qed

text \<open>Without a history an epoch changes nothing.\<close>

lemma cold_epoch: "pe_history ex = [] \<Longrightarrow> train_pairwise_epoch m [ex] rate = Inr m"
  by (simp add: train_pairwise_epoch_def epoch_step_def zero_gradients_def)

lemma demo_scratch:
  "0 < epochs \<Longrightarrow> \<exists>r saved. train_nrms demo_training_env lib demo_training_dataset name 7 epochs True False None = (saved, Inr r) \<and>
     nm_popular (tr_model r) = Some (demo_vector (3 / 2))"
proof -
  assume pos: "0 < epochs"
  obtain ex where ex: "build_pairwise_examples lib (split_rows_of (ts_splits demo_setup) ''train'') = Inr [ex]" "pe_history ex = []"
    using demo_examples by blast
  have epochs: "\<exists>saved'. train_epochs True c [ex] n e saved m = (saved', Inr m)" for c n e saved m
    by (induction n arbitrary: e saved) (auto simp: cold_epoch ex(2))
  let ?m = "initialize_ranker demo_training_env (ts_architecture demo_setup) (ts_popular demo_setup)"
  have "split_rows_of (ts_splits demo_setup) ''validation'' = [demo_training_row ''b'' ''validation'' 1 1]"
    by (simp add: split_rows_of_def demo_setup_def dget_default_def SPLITS_def demo_splits)
  moreover have "row_context ?m (demo_training_row ''b'' ''validation'' 1 1) =
      Inr \<lparr>uc_vector = demo_vector (3 / 2), uc_source = ''popular_articles'', uc_history_length = 0, uc_fabricated_clicks = 0\<rparr>"
    by (simp add: row_context_def history_embeddings_def demo_training_row_fields List.map_filter_def prepare_user_context_def
        fallback_vector_def initialize_ranker_def demo_training_env_def demo_setup_def)
  moreover have "nm_popular ?m = Some (demo_vector (3 / 2))" by (simp add: initialize_ranker_def demo_training_env_def demo_setup_def)
  ultimately have "\<exists>r. finish_training demo_training_env demo_training_dataset name 7 epochs 0 demo_setup [ex] ?m = Inr r \<and>
      nm_popular (tr_model r) = Some (demo_vector (3 / 2))"
    by (simp add: finish_training_def calibrate_ranker_def calibration_point_def demo_training_row_fields raw_score_def vector_dot_def)
  with epochs[of "ts_contract demo_setup" "nat epochs" 0 None ?m] show ?thesis
    by (auto simp: train_nrms_def demo_prepare[OF pos] starting_point_def ex(1))
qed

theorem resume_equals_uninterrupted_witness:
  "\<exists>saved r r'. train_nrms demo_training_env clock_lib demo_training_dataset ''n'' 7 5 True False None = (saved, Inr r) \<and>
     train_nrms demo_training_env clock_lib demo_training_dataset ''n'' 7 5 True True
       (fst (train_nrms demo_training_env clock_lib demo_training_dataset ''n'' 7 2 True False None)) = (saved, Inr r') \<and>
     tr_model r' = tr_model r"
proof -
  obtain r saved where run: "train_nrms demo_training_env clock_lib demo_training_dataset ''n'' 7 5 True False None = (saved, Inr r)"
    using demo_scratch[of 5 clock_lib "''n''"] by force
  have "td_metadata demo_training_dataset = Inr demo_metadata" "vget demo_metadata ''encoder_version'' = VStr ENCODER_VERSION"
    "vget demo_metadata ''label_definition_version'' = VStr ''l''"
    by (simp_all add: demo_training_dataset_def demo_metadata_def vget_def)
  from resume_equals_uninterrupted[OF run _ _ this, of 2] run show ?thesis by auto
qed

section \<open>What the trainer accepts\<close>

lemma article_record_embedding:
  "py_get (py_or (VMap (article_record a)) (VMap [])) ''embedding'' VNone = Inr (opt_val vector_val (art_embedding a))"
  "py_or (VMap (article_record a)) (VMap []) = VMap (article_record a)"
  by (simp_all add: article_record_def py_or_def py_get_def vector_val_def opt_val_def split: option.splits)

lemma embedded_article:
  assumes "validate_article_representation a encoder dimension t = Inr ()" "art_type a = ''post-content-embedding-v1''"
  shows "\<exists>e. art_embedding a = Some e \<and> e \<noteq> []"
  using assms by (auto simp: validate_article_representation_def run_checks_ok embedded_article_checks_def split: option.splits)

lemma has_embedding_record:
  assumes "validate_article_representation a encoder dimension t = Inr ()" "art_type a = ''post-content-embedding-v1''"
  shows "has_embedding (VMap (article_record a)) = Inr True"
proof -
  obtain e where "art_embedding a = Some e" "e \<noteq> []" using embedded_article[OF assms] by blast
  then show ?thesis
    using article_record_embedding[of a] by (simp add: has_embedding_def opt_val_def vector_val_def)
qed

lemma row_fields:
  "vget (ranking_row_record r) ''request_group'' = VStr (rr_request_group r)"
  "vget (ranking_row_record r) ''split'' = VStr (split_text (rr_split r))"
  "vget (ranking_row_record r) ''article'' = VMap (article_record (rr_article r))"
  "vitem (ranking_row_record r) ''served_at'' = Inr (time_val (rr_served_at r))"
  "vget (ranking_row_record r) ''history'' = VList (map (\<lambda>e. VMap (history_record e)) (rr_history r))"
  by (simp_all add: ranking_row_record_def vget_def vitem_def)

lemma entry_fields:
  "py_get (VMap (history_record e)) ''article'' VNone = Inr (VMap (article_record (rh_article e)))"
  "py_get (VMap (history_record e)) ''provenance'' VNone = Inr (VStr (rh_provenance e))"
  "py_get (VMap (history_record e)) ''engaged_at'' VNone = Inr (opt_val time_val (rh_engaged_at e))"
  by (simp_all add: history_record_def py_get_def)

definition own_content :: "ranking_row \<Rightarrow> bool" where
  "own_content r \<longleftrightarrow>
     art_type (rr_article r) = ''post-content-embedding-v1'' \<and>
     (\<forall>e\<in>set (rr_history r). art_type (rh_article e) = ''post-content-embedding-v1'' \<and> rh_provenance e = ''oecophylla-click-v2'')"

lemma entry_trainable:
  assumes "validate_history_entry result served e = Inr ()"
    and "art_type (rh_article e) = ''post-content-embedding-v1''" "rh_provenance e = ''oecophylla-click-v2''"
  shows "check_history_entry lib HISTORY_SCHEMA_VERSION row served (VMap (history_record e)) = Inr ()"
proof -
  have v: "validate_article_representation (rh_article e) (rb_expected_encoder_version result)
      (rb_expected_embedding_dimension result) (rh_engaged_at e) = Inr ()"
    and times: "\<exists>t. rh_engaged_at e = Some t \<and> t < served"
    using assms by (auto simp: validate_history_entry_def split: if_splits option.splits)
  obtain t where t: "rh_engaged_at e = Some t" "t < served" using times by blast
  then have "\<not> served \<le> t" by simp
  with t show ?thesis
    using has_embedding_record[OF v assms(2)]
    by (simp add: check_history_entry_def entry_fields article_record_embedding HISTORY_SCHEMA_VERSION_def MIND_HISTORY_def
        opt_val_def time_val_def)
qed

lemma row_trainable:
  assumes "validate_row result ids r = Inr ids'" "own_content r"
  shows "check_row lib HISTORY_SCHEMA_VERSION (ranking_row_record r) = Inr (rr_request_group r, VStr (split_text (rr_split r)))"
proof -
  have art: "validate_article_representation (rr_article r) (rb_expected_encoder_version result)
      (rb_expected_embedding_dimension result) (Some (rr_served_at r)) = Inr ()"
    and "\<exists>us. map_res (validate_history_entry result (rr_served_at r)) (rr_history r) = Inr us"
    using assms(1) unfolding validate_row_def by (auto elim!: bind_resE)
  then have "check_history_entry lib HISTORY_SCHEMA_VERSION (ranking_row_record r) (rr_served_at r) (VMap (history_record e)) = Inr ()"
    if "e \<in> set (rr_history r)" for e
    using that assms(2) map_res_argD by (intro entry_trainable[of result]) (fastforce simp: own_content_def)+
  then have entries: "map_res (check_history_entry lib HISTORY_SCHEMA_VERSION (ranking_row_record r) (rr_served_at r))
      (map (\<lambda>e. VMap (history_record e)) (rr_history r)) = Inr (map (\<lambda>_. ()) (rr_history r))"
    unfolding map_res_compose by (intro map_res_map)
  have "rr_request_group r \<noteq> []"
    using validate_row_ok[OF assms(1)] by (auto simp: row_contract_def is_private_hash_def)
  moreover have "VStr (split_text (rr_split r)) \<in> VStr ` set SPLITS" by (cases "rr_split r") (simp_all add: SPLITS_def)
  moreover have "py_iter (py_or (VList vs) (VList [])) = Inr vs" for vs by (simp add: py_or_def)
  ultimately show ?thesis
    using has_embedding_record[OF art] assms(2) entries
    by (simp add: check_row_def row_fields article_record_embedding own_content_def time_val_def)
qed

lemma fold_validate_rows:
  assumes "fold_res (validate_row result) ids0 rows = Inr ids" "r \<in> set rows"
  shows "\<exists>ids ids'. validate_row result ids r = Inr ids'"
  using assms by (induction rows arbitrary: ids0) auto



end
