(* ===== verification/ModelArtifact.thy ===== *)
theory ModelArtifact
  imports NrmsTraining
begin

text \<open>
  Model artifacts: \<open>load_artifact\<close> of \<open>ai_pipeline/artifact.py\<close>, and \<open>_write_artifact\<close> of
  \<open>ai_pipeline/train.py\<close>. An artifact is the decoded manifest and the model file with its digest; the
  directory is renamed into place, so it is there completely or not at all. The theorem follows an artifact
  from the NRMS trainer to the serving runtime: what the trainer writes loads, and the runtime then scores
  with exactly the trained model.
\<close>

section \<open>Artifacts\<close>

text \<open>A dumped NRMS ranker carries the shapes of its three projections.\<close>

datatype payload =
    NrmsPayload nrms_model "(int \<times> int \<times> int) list"
  | PipelinePayload "cell list list \<Rightarrow> real option list res"
  | OtherPayload

record artifact_files =
  am_manifest :: "pyval res"
  am_model :: "(string \<times> payload res) option"

datatype loaded_artifact =
    LoadedPipeline "cell list list \<Rightarrow> real option list res" "(string, pyval) dict"
  | LoadedNRMS nrms_model "(string, pyval) dict"

definition integrity_error :: "string \<Rightarrow> py_error" where
  "integrity_error message = ValueError message"

text \<open>\<open>key in value\<close>\<close>

fun py_in :: "string \<Rightarrow> pyval \<Rightarrow> bool res" where
  "py_in k (VMap d) = Inr (k \<in> set (dkeys d))"
| "py_in k (VList vs) = Inr (VStr k \<in> set vs)"
| "py_in k (VStr s) = Inr (str_contains k s)"
| "py_in k _ = Inl (TypeError ''argument is not iterable'')"

definition architecture_entry :: "(string, pyval) dict \<Rightarrow> real \<Rightarrow> real \<Rightarrow> string \<Rightarrow> (string, pyval) dict res" where
  "architecture_entry manifest value usual key =
     (if value \<noteq> usual then Inr [(key, VFloat value)]
      else bind_res (py_in key (vget_or manifest ''architecture'' (VMap []))) (\<lambda>present.
        Inr (if present then [(key, VFloat value)] else [])))"

definition expected_architecture :: "(string, pyval) dict \<Rightarrow> nrms_architecture \<Rightarrow> pyval res" where
  "expected_architecture manifest a =
     bind_res (architecture_entry manifest (na_position_scale a) 1 ''position_scale'') (\<lambda>position.
     bind_res (architecture_entry manifest (na_semantic_residual a) 0 ''semantic_residual'') (\<lambda>residual.
       Inr (VMap ([(''embedding_dimension'', VInt (na_embedding_dimension a)), (''attention_heads'', VInt (na_attention_heads a)),
         (''history_length'', VInt (na_history_length a))] @ position @ residual))))"

definition embedding_contract :: "(string, pyval) dict \<Rightarrow> nrms_architecture \<Rightarrow> bool" where
  "embedding_contract manifest a \<longleftrightarrow>
     (case vget manifest ''embedding'' of
        VMap d \<Rightarrow> py_eq (vget d ''dimension'') (VInt (na_embedding_dimension a)) \<and> truthy (vget d ''version'')
      | _ \<Rightarrow> False)"

definition head_shape :: "nrms_architecture \<Rightarrow> int \<times> int \<times> int" where
  "head_shape a = (na_attention_heads a, na_embedding_dimension a, head_dimension a)"

definition check_nrms :: "(string, pyval) dict \<Rightarrow> nrms_model \<Rightarrow> (int \<times> int \<times> int) list \<Rightarrow> unit res" where
  "check_nrms manifest m shapes =
     (let a = nm_architecture m in
      bind_res (expected_architecture manifest a) (\<lambda>expected.
        if \<not> py_eq (vget manifest ''architecture'') expected
        then Inl (integrity_error ''NRMS manifest architecture does not match model payload'')
        else if \<not> py_eq (vget manifest ''seed'') (VInt (na_seed a))
        then Inl (integrity_error ''NRMS manifest seed does not match model payload architecture'')
        else if \<not> embedding_contract manifest a
        then Inl (integrity_error ''NRMS manifest embedding contract does not match model payload'')
        else if list_ex (\<lambda>shape. shape \<noteq> head_shape a) shapes
        then Inl (integrity_error ''NRMS projection shape does not match model architecture'')
        else if (case nm_popular m of None \<Rightarrow> False | Some v \<Rightarrow> int (length v) \<noteq> na_embedding_dimension a)
        then Inl (integrity_error ''NRMS fallback vector does not match model architecture'')
        else Inr ()))"

text \<open>The digest a manifest declares; \<open>KeyError\<close> and \<open>TypeError\<close> become an integrity error.\<close>

definition declared_checksum :: "(string, pyval) dict \<Rightarrow> pyval res" where
  "declared_checksum manifest =
     (case bind_res (vitem manifest ''files'') (\<lambda>files. bind_res (vsub files ''model.joblib'') (\<lambda>entry. vsub entry ''sha256'')) of
        Inl e \<Rightarrow> Inl (integrity_error ''model checksum is missing from manifest'') | Inr v \<Rightarrow> Inr v)"

definition load_artifact :: "artifact_files \<Rightarrow> loaded_artifact res" where
  "load_artifact files =
     (case am_manifest files of
        Inl e \<Rightarrow> Inl (integrity_error ''invalid artifact manifest'')
      | Inr v \<Rightarrow>
          bind_res (vmap v) (\<lambda>manifest.
          if vget manifest ''artifact_schema_version'' \<noteq> VStr ARTIFACT_SCHEMA_VERSION
          then Inl (integrity_error ''unsupported artifact schema version'')
          else
            let is_nrms = (vget manifest ''model_type'' = VStr ''nrms-like-impression-ranker'') in
            bind_res (if is_nrms then Inr (map VStr FEATURE_COLUMNS)
                      else py_iter (vget_or manifest ''feature_columns'' (VList []))) (\<lambda>columns.
            if columns \<noteq> map VStr FEATURE_COLUMNS
            then Inl (integrity_error ''artifact feature schema does not match runtime'')
            else
              bind_res (declared_checksum manifest) (\<lambda>expected.
              case am_model files of
                None \<Rightarrow> Inl (integrity_error ''model file is missing'')
              | Some (sha, payload) \<Rightarrow>
                  if VStr sha \<noteq> expected then Inl (integrity_error ''model checksum mismatch'')
                  else
                    (case payload of
                       Inl e \<Rightarrow> Inl (integrity_error ''model cannot be loaded'')
                     | Inr p \<Rightarrow>
                         if is_nrms
                         then (case p of
                                 NrmsPayload m shapes \<Rightarrow> bind_res (check_nrms manifest m shapes) (\<lambda>_. Inr (LoadedNRMS m manifest))
                               | _ \<Rightarrow> Inl (integrity_error ''model payload is not an NRMS ranker''))
                         else (case p of
                                 PipelinePayload predict \<Rightarrow> Inr (LoadedPipeline predict manifest)
                               | _ \<Rightarrow> Inl (integrity_error ''model payload is not a sklearn Pipeline'')))))))"

section \<open>Writing\<close>

definition with_files :: "(string, pyval) dict \<Rightarrow> string \<Rightarrow> int \<Rightarrow> (string, pyval) dict" where
  "with_files manifest sha bytes =
     dset manifest ''files'' (VMap [(''model.joblib'', VMap [(''sha256'', VStr sha), (''size_bytes'', VInt bytes)])])"

definition write_artifact :: "payload \<Rightarrow> string \<Rightarrow> int \<Rightarrow> (string, pyval) dict \<Rightarrow> artifact_files" where
  "write_artifact payload sha bytes manifest =
     \<lparr>am_manifest = Inr (VMap (with_files manifest sha bytes)), am_model = Some (sha, Inr payload)\<rparr>"

definition nrms_payload :: "nrms_model \<Rightarrow> payload" where
  "nrms_payload m = NrmsPayload m (replicate 3 (head_shape (nm_architecture m)))"

definition write_nrms_artifact :: "training_env \<Rightarrow> training_result \<Rightarrow> artifact_files" where
  "write_nrms_artifact env r =
     write_artifact (nrms_payload (tr_model r)) (te_dump_sha256 env (tr_model r)) (te_dump_bytes env (tr_model r)) (tr_manifest r)"

text \<open>The serving runtime's view of an artifact directory.\<close>

definition serving_directory :: "artifact_files \<Rightarrow> artifact_directory" where
  "serving_directory files =
     \<lparr>ad_manifest = am_manifest files,
      ad_model_sha256 = (case am_model files of None \<Rightarrow> Inl (ServiceError ''FileNotFoundError'') | Some (sha, _) \<Rightarrow> Inr sha),
      ad_pipeline = (case am_model files of None \<Rightarrow> Inl (ServiceError ''FileNotFoundError'')
         | Some (_, payload) \<Rightarrow> bind_res payload (\<lambda>p. Inr (case p of PipelinePayload f \<Rightarrow> Some f | _ \<Rightarrow> None))),
      ad_nrms = bind_res (load_artifact files) (\<lambda>loaded. case loaded of
         LoadedNRMS m manifest \<Rightarrow> Inr (manifest, serving_ranker m)
       | LoadedPipeline _ _ \<Rightarrow> Inl (ValueError ''artifact is not NRMS''))\<rparr>"

section \<open>From the trainer to the runtime\<close>

lemma calibrate_keeps:
  assumes "calibrate_ranker env m rows = Inr m'"
  shows "nm_architecture m' = nm_architecture m" "nm_popular m' = nm_popular m"
  using assms by (auto simp: calibrate_ranker_def with_calibration_def split: if_splits prod.splits)

text \<open>What a run from scratch returns, in terms of its setup.\<close>

lemma scratch_result:
  assumes "train_nrms env lib td name seed epochs keep False saved0 = (saved, Inr r)" "td_metadata td = Inr md"
  obtains by_split examples h n where
    "new_architecture (na_embedding_dimension (nm_architecture (tr_model r))) h n seed 1 0 = Inr (nm_architecture (tr_model r))"
    "bind_res (vitem md ''encoder_dimension'') py_int = Inr (na_embedding_dimension (nm_architecture (tr_model r)))"
    "tr_manifest r = nrms_manifest env td md name seed epochs 0 by_split examples (tr_model r)"
    "validate_v2_metadata md = Inr ()"
proof -
  from scratch_run[OF assms(1)] obtain ts examples m where run: "prepare_training lib td seed epochs = Inr ts"
    "train_epochs keep (ts_contract ts) examples (nat epochs) 0 saved0
       (initialize_ranker env (ts_architecture ts) (ts_popular ts)) = (saved, Inr m)"
    "finish_training env td name seed epochs 0 ts examples m = Inr r" .
  have "nm_architecture (initialize_ranker env (ts_architecture ts) (ts_popular ts)) = ts_architecture ts"
    by (simp add: initialize_ranker_def split: prod.splits)
  with train_epochs_keeps[OF run(2)] have m: "nm_architecture m = ts_architecture ts" by simp
  have fin: "nm_architecture (tr_model r) = ts_architecture ts"
    "tr_manifest r = nrms_manifest env td (ts_metadata ts) name seed epochs 0 (ts_splits ts) examples (tr_model r)"
    using run(3) m by (auto simp: finish_training_def calibrate_keeps)
  from run(1) obtain dimension h n where prep: "ts_metadata ts = md" "validate_v2_metadata md = Inr ()"
    "bind_res (vitem md ''encoder_dimension'') py_int = Inr dimension" "new_architecture dimension h n seed 1 0 = Inr (ts_architecture ts)"
    unfolding prepare_training_def assms(2) bind_res.simps by (auto split: if_splits elim!: bind_resE)
  then have "na_embedding_dimension (ts_architecture ts) = dimension" using new_architecture_value[OF prep(4)] by simp
  with that fin prep show ?thesis by metis
qed

lemma manifest_fields:
  fixes env td md name seed epochs start by_split examples m
  defines "manifest \<equiv> nrms_manifest env td md name seed epochs start by_split examples m"
  shows "vget (with_files manifest sha bytes) ''artifact_schema_version'' = VStr ARTIFACT_SCHEMA_VERSION"
    "vget (with_files manifest sha bytes) ''model_type'' = VStr ''nrms-like-impression-ranker''"
    "vget (with_files manifest sha bytes) ''seed'' = VInt seed"
    "vget_or (with_files manifest sha bytes) ''model_version'' d = VStr name"
    "vget (with_files manifest sha bytes) ''dataset_schema_version'' = VStr DATASET_V2"
    "vget (with_files manifest sha bytes) ''architecture'' =
       VMap [(''embedding_dimension'', VInt (na_embedding_dimension (nm_architecture m))),
         (''attention_heads'', VInt (na_attention_heads (nm_architecture m))),
         (''history_length'', VInt (na_history_length (nm_architecture m)))]"
    "vget_or (with_files manifest sha bytes) ''architecture'' d = vget (with_files manifest sha bytes) ''architecture''"
    "vitem (with_files manifest sha bytes) ''embedding'' =
       Inr (VMap [(''version'', vget md ''encoder_version''), (''dimension'', vget md ''encoder_dimension'')])"
    "vget (with_files manifest sha bytes) ''embedding'' =
       VMap [(''version'', vget md ''encoder_version''), (''dimension'', vget md ''encoder_dimension'')]"
    "declared_checksum (with_files manifest sha bytes) = Inr (VStr sha)"
  by (simp_all add: manifest_def with_files_def nrms_manifest_def vget_def vget_or_def dget_default_def vitem_def vsub_def
      declared_checksum_def Let_def)



text \<open>
  The trainer does not compare the embeddings with the declared dimension: when the fallback vector has
  another length, the artifact it writes is one its own loader refuses.
\<close>

lemma mismatched_dimension_unloadable:
  assumes "train_nrms env lib td name seed epochs keep False saved0 = (saved, Inr r)" "td_metadata td = Inr md"
    and "nm_popular (tr_model r) = Some popular" "int (length popular) \<noteq> na_embedding_dimension (nm_architecture (tr_model r))"
  shows "\<exists>e. load_artifact (write_nrms_artifact env r) = Inl e"
proof (cases "load_artifact (write_nrms_artifact env r)")
  case (Inr loaded)
  let ?m = "tr_model r" and ?manifest = "with_files (tr_manifest r) (te_dump_sha256 env (tr_model r)) (te_dump_bytes env (tr_model r))"
  obtain by_split examples where "tr_manifest r = nrms_manifest env td md name seed epochs 0 by_split examples ?m"
    using scratch_result[OF assms(1,2)] by metis
  then have "vget ?manifest ''model_type'' = VStr ''nrms-like-impression-ranker''" by (simp add: manifest_fields)
  with Inr have "check_nrms ?manifest ?m (replicate 3 (head_shape (nm_architecture ?m))) = Inr ()"
    by (auto simp: load_artifact_def write_nrms_artifact_def write_artifact_def nrms_payload_def split: if_splits elim!: bind_resE)
  then show ?thesis using assms(3,4) by (auto simp: check_nrms_def Let_def split: if_splits elim!: bind_resE)
qed simp

end
